theory Spec2Isabelle
  imports Main "HOL-Library.Word"
begin

section \<open>JavaScript strings and thrown values\<close>

text \<open>
  A JavaScript string is modelled as a \<^typ>\<open>string\<close>; a \<^typ>\<open>char\<close> stands for a
  UTF-16 code unit below 256. \<open>js_space\<close> holds of the code units that
  \<open>String.prototype.trim\<close> strips and that the regular expression class \<open>\s\<close>
  matches, as far as they lie in that range: tab, line feed, vertical tab, form feed,
  carriage return, space and the no-break space.
\<close>

definition js_space :: "char \<Rightarrow> bool" where
  "js_space c = (c \<in> set [CHR 0x09, CHR 0x0A, CHR 0x0B, CHR 0x0C, CHR 0x0D, CHR 0x20, CHR 0xA0])"

definition trim :: "string \<Rightarrow> string" where
  "trim s = rev (dropWhile js_space (rev (dropWhile js_space s)))"

text \<open>\<open>s.replace(/\s+/g, '')\<close>: every run of white space is deleted.\<close>

definition remove_spaces :: "string \<Rightarrow> string" where
  "remove_spaces s = filter (\<lambda>c. \<not> js_space c) s"

definition startsWith :: "string \<Rightarrow> string \<Rightarrow> bool" where
  "startsWith s p = (take (length p) s = p)"

text \<open>
  \<open>toLowerCase\<close> on code units below 256: the letters A to Z and the capital
  letters of Latin-1 are mapped to their small letters.
\<close>

definition upper_letters :: string where
  "upper_letters = ''ABCDEFGHIJKLMNOPQRSTUVWXYZ''
     @ [CHR 0xC0, CHR 0xC1, CHR 0xC2, CHR 0xC3, CHR 0xC4, CHR 0xC5, CHR 0xC6, CHR 0xC7, CHR 0xC8, CHR 0xC9, CHR 0xCA, CHR 0xCB, CHR 0xCC,
        CHR 0xCD, CHR 0xCE, CHR 0xCF, CHR 0xD0, CHR 0xD1, CHR 0xD2, CHR 0xD3, CHR 0xD4, CHR 0xD5, CHR 0xD6, CHR 0xD8, CHR 0xD9,
        CHR 0xDA, CHR 0xDB, CHR 0xDC, CHR 0xDD, CHR 0xDE]"

definition lower_letters :: string where
  "lower_letters = ''abcdefghijklmnopqrstuvwxyz''
     @ [CHR 0xE0, CHR 0xE1, CHR 0xE2, CHR 0xE3, CHR 0xE4, CHR 0xE5, CHR 0xE6, CHR 0xE7, CHR 0xE8, CHR 0xE9, CHR 0xEA, CHR 0xEB, CHR 0xEC,
        CHR 0xED, CHR 0xEE, CHR 0xEF, CHR 0xF0, CHR 0xF1, CHR 0xF2, CHR 0xF3, CHR 0xF4, CHR 0xF5, CHR 0xF6, CHR 0xF8, CHR 0xF9,
        CHR 0xFA, CHR 0xFB, CHR 0xFC, CHR 0xFD, CHR 0xFE]"

definition lower_char :: "char \<Rightarrow> char" where
  "lower_char c = (case map_of (zip upper_letters lower_letters) c of None \<Rightarrow> c | Some d \<Rightarrow> d)"

definition toLowerCase :: "string \<Rightarrow> string" where
  "toLowerCase s = map lower_char s"

text \<open>Truthiness of a string, and of a string that may be \<open>null\<close> or \<open>undefined\<close>.\<close>

definition truthy :: "string option \<Rightarrow> bool" where
  "truthy v = (case v of None \<Rightarrow> False | Some s \<Rightarrow> s \<noteq> [])"

text \<open>\<open>v || d\<close> for a string that may be missing.\<close>

definition or_else :: "string option \<Rightarrow> string \<Rightarrow> string" where
  "or_else v d = (case v of None \<Rightarrow> d | Some s \<Rightarrow> if s = [] then d else s)"

text \<open>The decimal digits of a whole number.\<close>

definition digit_char :: "nat \<Rightarrow> char" where
  "digit_char d = ''0123456789'' ! d"

fun show_nat :: "nat \<Rightarrow> string" where
  "show_nat n =
     (if n < 10 then [digit_char n]
      else show_nat (n div 10) @ [digit_char (n mod 10)])"

declare show_nat.simps [simp del]

text \<open>
  What a \<open>throw\<close> carries when an exception leaves a function: an \<open>Error\<close> object
  with its message, or another object with a numeric code and a message.
  \<open>err_message\<close> is the expression \<open>error.message || String(error)\<close> of a catch
  block.
\<close>

datatype thrown = JsError string | ErrorObject int string

definition err_message :: "thrown \<Rightarrow> string" where
  "err_message e =
     (case e of
        JsError m \<Rightarrow> if m \<noteq> [] then m else ''Error''
      | ErrorObject c m \<Rightarrow> if m \<noteq> [] then m else ''[object Object]'')"

text \<open>
  A value that reaches the code from outside and whose type the code does not check: the
  \<open>message\<close> of an error body, the \<open>code\<close> of an exception, a booking id. The
  code does three things with such a value: it tests it
  (\<open>v || d\<close>, \<open>v ? a : b\<close>), it turns it into text (\<open>String(v)\<close>, a template
  literal), and it binds it to a parameter of an SQLite statement. A string is
  \<open>Str\<close>. Every other value is \<open>Other\<close> with the outcome of the three: whether it
  is truthy, the text it is turned into, and what \<open>stmt.run\<close> does when the value is
  bound to a column of type \<open>TEXT\<close>, which is either the text the column then holds
  (\<open>None\<close> for \<open>NULL\<close>) or the message of the error that \<open>better-sqlite3\<close>
  throws: it binds numbers, strings, bigints, buffers and null, and nothing else.
\<close>

datatype js_value = Str string | Other bool string "string + string option"

definition js_truthy :: "js_value \<Rightarrow> bool" where
  "js_truthy v = (case v of Str s \<Rightarrow> s \<noteq> [] | Other t x b \<Rightarrow> t)"

definition js_text :: "js_value \<Rightarrow> string" where
  "js_text v = (case v of Str s \<Rightarrow> s | Other t x b \<Rightarrow> x)"

definition js_bind :: "js_value \<Rightarrow> string + string option" where
  "js_bind v = (case v of Str s \<Rightarrow> Inr (Some s) | Other t x b \<Rightarrow> b)"

text \<open>
  A whole number below \<open>2\<^sup>5\<^sup>3\<close> as such a value: it is truthy unless it is 0,
  \<open>String\<close> prints its decimal digits, and \<open>better-sqlite3\<close> binds it as a
  \<open>REAL\<close>, which a \<open>TEXT\<close> column holds in the form \<open>400.0\<close>.
\<close>

definition number_value :: "nat \<Rightarrow> js_value" where
  "number_value n = Other (n \<noteq> 0) (show_nat n) (Inr (Some (show_nat n @ ''.0'')))"

section \<open>Phone normalizer (utils.ts)\<close>

text \<open>
  \<open>libphonenumber-js\<close> is an external package. Its two functions that
  \<open>normalizePhone\<close> calls are parameters of the model: each may return or throw, for
  the text and the optional default country it is given. \<open>parsePhoneNumber\<close> stands
  for the \<open>number\<close> field of the parsed value.
\<close>

type_synonym CountryCode = string

record libphonenumber =
  isValidPhoneNumber :: "string \<Rightarrow> CountryCode option \<Rightarrow> thrown + bool"
  parsePhoneNumber :: "string \<Rightarrow> CountryCode option \<Rightarrow> thrown + string"

text \<open>\<open>cleaned.replace(/^\+/, '')\<close>: one leading plus sign is removed.\<close>

definition drop_plus :: "string \<Rightarrow> string" where
  "drop_plus s = (case s of [] \<Rightarrow> [] | c # r \<Rightarrow> if c = CHR ''+'' then r else s)"

text \<open>The body of the \<open>try\<close> block of \<open>normalizePhone\<close>; \<open>Inl\<close> is a throw.\<close>

definition normalizePhone_body ::
  "libphonenumber \<Rightarrow> string \<Rightarrow> CountryCode \<Rightarrow> thrown + string option" where
  "normalizePhone_body lib cleaned defaultCountry =
     (case isValidPhoneNumber lib cleaned (Some defaultCountry) of
        Inl e \<Rightarrow> Inl e
      | Inr True \<Rightarrow>
          (case parsePhoneNumber lib cleaned (Some defaultCountry) of
             Inl e \<Rightarrow> Inl e
           | Inr number \<Rightarrow> Inr (Some number))
      | Inr False \<Rightarrow>
          (let withCountry =
                 ''+'' @ (if defaultCountry = ''GB'' then ''44'' else ''1'') @ drop_plus cleaned
           in case isValidPhoneNumber lib withCountry None of
                Inl e \<Rightarrow> Inl e
              | Inr True \<Rightarrow>
                  (case parsePhoneNumber lib withCountry None of
                     Inl e \<Rightarrow> Inl e
                   | Inr number \<Rightarrow> Inr (Some number))
              | Inr False \<Rightarrow> Inr None))"

text \<open>
  \<open>normalizePhone\<close>. The result \<open>Inr None\<close> is \<open>null\<close>, \<open>Inr (Some n)\<close> is the
  object \<open>{e164: n}\<close>, and \<open>Inl\<close> would be an exception leaving the function.
\<close>

definition normalizePhone ::
  "libphonenumber \<Rightarrow> string option \<Rightarrow> CountryCode \<Rightarrow> thrown + string option" where
  "normalizePhone lib phone defaultCountry =
     (if \<not> truthy phone then Inr None
      else
        let cleaned = remove_spaces (trim (the phone)) in
        if cleaned = [] then Inr None
        else
          (case normalizePhone_body lib cleaned defaultCountry of
             Inl e \<Rightarrow> Inr None
           | Inr r \<Rightarrow> Inr r))"

section \<open>The SQLite store (sqlite.ts)\<close>

text \<open>
  The three tables are lists of rows, in insertion order. The functions of
  \<open>sqlite.ts\<close> reach the database through a global handle; here the table is an
  argument and the updated table is returned. \<open>datetime('now')\<close> is the argument
  \<open>now\<close>. The column \<open>note\<close> is the field \<open>opt_note\<close>. A statement on the
  store is taken to succeed, unless a value that cannot be bound is bound to it.
\<close>

record OptOut =
  phone_e164 :: string
  created_at :: string
  source :: string
  opt_note :: "string option"

text \<open>
  \<open>addOptOut\<close>: \<open>INSERT ... ON CONFLICT(phone_e164) DO UPDATE\<close>. The bound note is
  \<open>note || null\<close>.
\<close>

definition addOptOut ::
  "string \<Rightarrow> OptOut list \<Rightarrow> string \<Rightarrow> string \<Rightarrow> string option \<Rightarrow> OptOut list" where
  "addOptOut now tbl phoneE164 src nt =
     (let n = (if truthy nt then nt else None) in
      if list_ex (\<lambda>r. phone_e164 r = phoneE164) tbl
      then map (\<lambda>r. if phone_e164 r = phoneE164
                     then r\<lparr>source := src, opt_note := n, created_at := now\<rparr> else r) tbl
      else tbl @ [\<lparr>phone_e164 = phoneE164, created_at = now, source = src, opt_note = n\<rparr>])"

text \<open>\<open>removeOptOut\<close>: the table after the \<open>DELETE\<close>, and \<open>result.changes > 0\<close>.\<close>

definition removeOptOut :: "OptOut list \<Rightarrow> string \<Rightarrow> OptOut list \<times> bool" where
  "removeOptOut tbl phoneE164 =
     (filter (\<lambda>r. phone_e164 r \<noteq> phoneE164) tbl,
      0 < length (filter (\<lambda>r. phone_e164 r = phoneE164) tbl))"

definition isOptedOut :: "OptOut list \<Rightarrow> string \<Rightarrow> bool" where
  "isOptedOut tbl phoneE164 = list_ex (\<lambda>r. phone_e164 r = phoneE164) tbl"

text \<open>
  The send log. The fields keep the column names with the prefix \<open>log_\<close>, the
  status values the prefix \<open>st_\<close>; the columns
  \<open>id\<close> and \<open>created_at\<close>, which SQLite fills in, are the position in the list and
  are left out.
\<close>

datatype SMSStatus =
  st_sent | st_skipped_opted_out | st_skipped_invalid_phone | st_skipped_non_uk | st_failed

record SMSLog =
  log_feature :: string
  log_booking_id :: "string option"
  log_phone :: string
  log_pickup_time :: "string option"
  log_status :: SMSStatus
  log_error :: "string option"

text \<open>
  \<open>logSMS\<close>. The booking id is bound as
  \<open>log.booking_id ? String(log.booking_id) : null\<close>, so the id 0 is stored as null.
  The hourly job passes the id of the row.
  The error is bound as \<open>log.error ?? null\<close>: it is \<open>None\<close> when the caller gives
  null, and otherwise whatever value the caller gives. When that value cannot be bound,
  \<open>stmt.run\<close> throws and no row is written.
\<close>

definition logSMS ::
  "SMSLog list \<Rightarrow> string \<Rightarrow> js_value \<Rightarrow> string \<Rightarrow> string option \<Rightarrow> SMSStatus \<Rightarrow> js_value option
     \<Rightarrow> thrown + SMSLog list" where
  "logSMS tbl feature bid phone pickup_time status err =
     (case (case err of None \<Rightarrow> Inr None | Some v \<Rightarrow> js_bind v) of
        Inl m \<Rightarrow> Inl (JsError m)
      | Inr stored \<Rightarrow>
          Inr (tbl @ [\<lparr>log_feature = feature,
                       log_booking_id = (if js_truthy bid then Some (js_text bid) else None),
                       log_phone = phone, log_pickup_time = pickup_time,
                       log_status = status, log_error = stored\<rparr>]))"

text \<open>The run summaries; the fields keep the column names with the prefix \<open>run_\<close>.\<close>

record JobRunSummary =
  run_id :: nat
  run_feature :: string
  run_started_at :: string
  run_finished_at :: "string option"
  run_fetched_count :: nat
  run_sent_count :: nat
  run_skipped_count :: nat
  run_failed_count :: nat
  run_error :: "string option"

text \<open>
  \<open>createJobRunSummary\<close> inserts the row and returns \<open>lastInsertRowid\<close>: the key is
  \<open>AUTOINCREMENT\<close>, larger than every key of the table. The bound values of
  \<open>finished_at\<close> and \<open>error\<close> are \<open>summary.finished_at || null\<close> and
  \<open>summary.error || null\<close>.
\<close>

definition next_rowid :: "JobRunSummary list \<Rightarrow> nat" where
  "next_rowid tbl = Suc (foldr max (map run_id tbl) 0)"

definition createJobRunSummary ::
  "JobRunSummary list \<Rightarrow> string \<Rightarrow> string \<Rightarrow> string option \<Rightarrow> nat \<Rightarrow> nat \<Rightarrow> nat \<Rightarrow> nat
     \<Rightarrow> string option \<Rightarrow> nat \<times> JobRunSummary list" where
  "createJobRunSummary tbl feature started_at finished_at fetched_count sent_count
       skipped_count failed_count err =
     (next_rowid tbl,
      tbl @ [\<lparr>run_id = next_rowid tbl, run_feature = feature, run_started_at = started_at,
              run_finished_at = (if truthy finished_at then finished_at else None),
              run_fetched_count = fetched_count, run_sent_count = sent_count,
              run_skipped_count = skipped_count, run_failed_count = failed_count,
              run_error = (if truthy err then err else None)\<rparr>])"

text \<open>
  The \<open>updates\<close> object of \<open>updateJobRunSummary\<close>: a field that is absent
  (\<open>undefined\<close>) is \<open>None\<close>; \<open>finished_at\<close> and \<open>error\<close> may be present and null.
\<close>

record JobRunUpdates =
  upd_finished_at :: "string option option"
  upd_fetched_count :: "nat option"
  upd_sent_count :: "nat option"
  upd_skipped_count :: "nat option"
  upd_failed_count :: "nat option"
  upd_error :: "string option option"

definition no_updates :: JobRunUpdates where
  "no_updates = \<lparr>upd_finished_at = None, upd_fetched_count = None, upd_sent_count = None,
                  upd_skipped_count = None, upd_failed_count = None, upd_error = None\<rparr>"

text \<open>
  \<open>updateJobRunSummary\<close> builds its \<open>SET\<close> list from \<open>finished_at\<close>,
  \<open>sent_count\<close>, \<open>skipped_count\<close>, \<open>failed_count\<close> and \<open>error\<close>; it has no
  branch for \<open>fetched_count\<close>, and it returns without a statement when the list is
  empty.
\<close>

definition apply_updates :: "JobRunUpdates \<Rightarrow> JobRunSummary \<Rightarrow> JobRunSummary" where
  "apply_updates u r =
     (let r1 = (case upd_finished_at u of None \<Rightarrow> r | Some v \<Rightarrow> r\<lparr>run_finished_at := v\<rparr>);
          r2 = (case upd_sent_count u of None \<Rightarrow> r1 | Some v \<Rightarrow> r1\<lparr>run_sent_count := v\<rparr>);
          r3 = (case upd_skipped_count u of None \<Rightarrow> r2 | Some v \<Rightarrow> r2\<lparr>run_skipped_count := v\<rparr>);
          r4 = (case upd_failed_count u of None \<Rightarrow> r3 | Some v \<Rightarrow> r3\<lparr>run_failed_count := v\<rparr>)
      in (case upd_error u of None \<Rightarrow> r4 | Some v \<Rightarrow> r4\<lparr>run_error := v\<rparr>))"

definition updateJobRunSummary ::
  "JobRunSummary list \<Rightarrow> nat \<Rightarrow> JobRunUpdates \<Rightarrow> JobRunSummary list" where
  "updateJobRunSummary tbl rid u =
     (if upd_finished_at u = None \<and> upd_sent_count u = None \<and> upd_skipped_count u = None
         \<and> upd_failed_count u = None \<and> upd_error u = None
      then tbl
      else map (\<lambda>r. if run_id r = rid then apply_updates u r else r) tbl)"

section \<open>Rows, the world and the environment of a run\<close>

text \<open>
  \<open>BookingRow\<close> is the row of the daily query, \<open>HiveboxBookingRow\<close> the row of the
  hourly query, and \<open>EligibleBooking\<close> the type
  \<open>BookingRow & { phoneE164: string; reviewUrl: string }\<close> of the daily job. A
  \<open>Date\<close> is modelled by its ISO rendering. A booking id is declared a number; it
  comes from a row of the database, and the code only tests it and turns it into text.
\<close>

record BookingRow =
  booking_id :: js_value
  stashpoint_name :: string
  city :: "string option"
  phone_number :: "string option"
  first_name :: "string option"
  last_name :: "string option"
  pickup :: string

record HiveboxBookingRow = BookingRow +
  access_code :: string

record EligibleBooking = BookingRow +
  phoneE164 :: string
  reviewUrl :: string

record ReviewLink =
  link_city :: string
  link_stashpoint_name :: "string option"
  google_review_url :: string

text \<open>
  A line of the console: \<open>console.log\<close> or \<open>console.error\<close> of a text, or
  \<open>console.error\<close> of a label and an object, kept as the list of the object's
  properties with the text of each.
\<close>

datatype console_line = Log string | Err string | ErrObject string "(string \<times> string) list"

text \<open>
  The state a run reads and writes: the three SQLite tables, the console (the lines the
  jobs and the sender print for one candidate; the headline lines of a run are left
  out), the requests posted to the SMS gateway, and how often the clock and
  \<open>Math.random\<close> were read.
\<close>

record world =
  sms_opt_out :: "OptOut list"
  sms_send_log :: "SMSLog list"
  job_run_summary :: "JobRunSummary list"
  console :: "console_line list"
  requests :: "(string \<times> string) list"
  clock_reads :: nat
  random_draws :: nat

text \<open>
  The object that \<open>sendSMS\<close> throws (\<open>SendSMSError\<close>); its fields keep their names
  with the prefix \<open>error_\<close>. The interface declares a number and a string; at run
  time the fields hold what the answer of the gateway or an exception put there.
\<close>

record SendSMSError =
  error_code :: js_value
  error_message :: js_value

text \<open>
  The body of an answer that is not \<open>ok\<close>, as far as \<open>sendSMS\<close> reads it
  (\<open>errorData\<close>): the text \<open>JSON.stringify(errorData, null, 2)\<close>; the property
  \<open>message\<close>, if there is one; the text \<open>errorParts.join('; ')\<close> when
  \<open>errorData.errors\<close> is truthy and gives at least one part; and the text
  \<open>validationDetails\<close> when \<open>errorData.validation_errors\<close> is truthy.
\<close>

record ErrorBody =
  body_text :: string
  body_message :: "js_value option"
  body_errors :: "string option"
  body_validation_errors :: "string option"

text \<open>
  How the \<open>try\<close> block of the live branch of \<open>sendSMS\<close> ends, for one request.
  \<open>Accepted\<close>: the response is \<open>ok\<close> and its body is read; the arguments are
  \<open>data.id?.toString()\<close> and \<open>data.href\<close>. \<open>Refused\<close>: the response is not
  \<open>ok\<close>; the arguments are its status (an unsigned short), its status text and its
  body. \<open>Failed\<close>: an exception is thrown in the block before it prints or returns,
  by \<open>fetch\<close>, by \<open>response.json()\<close> or while the body is read; the arguments are
  the properties \<open>code\<close> and \<open>message\<close> of what is thrown, \<open>None\<close> for a
  property that is missing.
\<close>

datatype gateway_reply =
    Accepted "string option" "string option"
  | Refused "16 word" string ErrorBody
  | Failed "js_value option" "js_value option"

text \<open>
  What a run is given from outside. \<open>reviewLinksMap\<close> is the map that
  \<open>getReviewLinksMap\<close> returns once the file is loaded, from the lower-case city to
  its links. \<open>gateway\<close> is the answer to the n-th request that \<open>sendSMS\<close> posts,
  for the phone and the text of the request. \<open>dateTimeNowISO\<close>, \<open>dateNow\<close> and
  \<open>mathRandom\<close> give the n-th reading of
  \<open>DateTime.now().setZone(config.timezone).toISO()\<close>, of \<open>Date.now()\<close> and the
  n-th draw. The two queries of the data source receive the world in which they are
  issued, and return rows or throw.
\<close>

record env =
  phonelib :: libphonenumber
  reviewLinksMap :: "string \<Rightarrow> ReviewLink list option"
  config_dryRun :: bool
  gateway :: "nat \<Rightarrow> string \<Rightarrow> string \<Rightarrow> gateway_reply"
  dateTimeNowISO :: "nat \<Rightarrow> string option"
  dateNow :: "nat \<Rightarrow> nat"
  mathRandom :: "nat \<Rightarrow> nat"
  getYesterdayPickups :: "string option \<Rightarrow> world \<Rightarrow> thrown + BookingRow list"
  getHiveboxPreviousHourPickups :: "world \<Rightarrow> thrown + HiveboxBookingRow list"

definition print :: "console_line \<Rightarrow> world \<Rightarrow> world" where
  "print l w = w\<lparr>console := console w @ [l]\<rparr>"

definition read_clock :: "world \<Rightarrow> world" where
  "read_clock w = w\<lparr>clock_reads := Suc (clock_reads w)\<rparr>"

section \<open>Review links (review-links.ts)\<close>

text \<open>
  \<open>Math.floor(Math.random() * links.length)\<close> is an index below the length: the draw
  is a number taken modulo the length.
\<close>

definition getRandomReviewUrl ::
  "env \<Rightarrow> string \<Rightarrow> bool \<Rightarrow> world \<Rightarrow> string option \<times> world" where
  "getRandomReviewUrl env cty fallbackToLondon w =
     (let normalizedCity = trim (toLowerCase cty);
          links = reviewLinksMap env normalizedCity;
          links = (if (links = None \<or> links = Some []) \<and> fallbackToLondon
                   then reviewLinksMap env ''london'' else links)
      in case links of
           None \<Rightarrow> (None, w)
         | Some ls \<Rightarrow>
             if ls = [] then (None, w)
             else (Some (google_review_url (ls ! (mathRandom env (random_draws w) mod length ls))),
                   w\<lparr>random_draws := Suc (random_draws w)\<rparr>))"

definition hasReviewLinks :: "env \<Rightarrow> string \<Rightarrow> bool" where
  "hasReviewLinks env cty =
     (case reviewLinksMap env (trim (toLowerCase cty)) of
        None \<Rightarrow> False
      | Some ls \<Rightarrow> 0 < length ls)"

section \<open>The sender (textmagic.ts)\<close>

record SendSMSResult =
  messageId :: string
  result_phone :: "string option"

text \<open>
  The text \<open>errorMessage\<close> that \<open>sendSMS\<close> puts together for an answer that is
  not \<open>ok\<close>: \<open>errorData.message\<close>, or the status line when that is missing or
  falsy; then the details of \<open>errors\<close> and of \<open>validation_errors\<close> are added in
  brackets, each by a template literal, so that the result is a string whenever one of
  the two is there.
\<close>

definition errorMessage_of :: "16 word \<Rightarrow> string \<Rightarrow> ErrorBody \<Rightarrow> js_value" where
  "errorMessage_of status statusText errorData =
     (let m0 = (case body_message errorData of
                  None \<Rightarrow> Str (''HTTP '' @ show_nat (unat status) @ '': '' @ statusText)
                | Some v \<Rightarrow>
                    if js_truthy v then v
                    else Str (''HTTP '' @ show_nat (unat status) @ '': '' @ statusText));
          m1 = (case body_errors errorData of
                  None \<Rightarrow> m0
                | Some parts \<Rightarrow> Str (js_text m0 @ '' ('' @ parts @ '')''));
          m2 = (case body_validation_errors errorData of
                  None \<Rightarrow> m1
                | Some details \<Rightarrow> Str (js_text m1 @ '' ('' @ details @ '')''))
      in m2)"

text \<open>\<open>v || d\<close> for a property \<open>v\<close> that may be missing.\<close>

definition js_or :: "js_value option \<Rightarrow> js_value \<Rightarrow> js_value" where
  "js_or v d = (case v of None \<Rightarrow> d | Some x \<Rightarrow> if js_truthy x then x else d)"

text \<open>
  The \<open>catch\<close> block of \<open>sendSMS\<close>, for the properties \<open>code\<close> and
  \<open>message\<close> of what was thrown in the \<open>try\<close> block: an error with both truthy is
  thrown again as it is; otherwise the object
  \<open>{code: error.code || 500, message: error.message || 'Unknown error'}\<close> is thrown.
\<close>

definition sendSMS_catch :: "js_value option \<Rightarrow> js_value option \<Rightarrow> SendSMSError" where
  "sendSMS_catch c m =
     (case (c, m) of
        (Some code, Some msg) \<Rightarrow>
          if js_truthy code \<and> js_truthy msg
          then \<lparr>error_code = code, error_message = msg\<rparr>
          else \<lparr>error_code = js_or c (number_value 500),
                error_message = js_or m (Str ''Unknown error'')\<rparr>
      | _ \<Rightarrow> \<lparr>error_code = js_or c (number_value 500),
               error_message = js_or m (Str ''Unknown error'')\<rparr>)"

text \<open>
  \<open>sendSMS\<close>. In dry-run mode it prints a line and returns the id
  \<open>dry-run-\<close> followed by \<open>Date.now()\<close>. Otherwise it posts one request. For an
  answer that is \<open>ok\<close> it returns the id
  \<open>data.id?.toString() || data.href || 'unknown'\<close>. For an answer that is not
  \<open>ok\<close> it prints the line \<open>[TEXTMAGIC] API Error:\<close> with the status, the body,
  the phone and the length and the first 50 characters of the text, and throws
  \<open>{code: response.status, message: errorMessage}\<close>, which its own \<open>catch\<close> block
  receives like every other exception of the \<open>try\<close> block.
\<close>

definition sendSMS ::
  "env \<Rightarrow> string \<Rightarrow> string \<Rightarrow> world \<Rightarrow> (SendSMSError + SendSMSResult) \<times> world" where
  "sendSMS env to message w =
     (if config_dryRun env
      then (Inr \<lparr>messageId = ''dry-run-'' @ show_nat (dateNow env (clock_reads w)),
                 result_phone = None\<rparr>,
            read_clock (print (Log (''[DRY RUN] Would send SMS to '' @ to @ '': '' @ message)) w))
      else
        (let w1 = w\<lparr>requests := requests w @ [(to, message)]\<rparr> in
         case gateway env (length (requests w)) to message of
           Accepted idText href \<Rightarrow>
             (Inr \<lparr>messageId = or_else (if truthy idText then idText else href) ''unknown'',
                   result_phone = Some to\<rparr>, w1)
         | Refused status statusText errorData \<Rightarrow>
             (Inl (sendSMS_catch (Some (number_value (unat status)))
                     (Some (errorMessage_of status statusText errorData))),
              print (ErrObject ''[TEXTMAGIC] API Error:''
                       [(''status'', show_nat (unat status)),
                        (''statusText'', statusText),
                        (''errorData'', body_text errorData),
                        (''phone'', to),
                        (''messageLength'', show_nat (length message)),
                        (''messagePreview'', take 50 message @ ''...'')]) w1)
         | Failed c m \<Rightarrow> (Inl (sendSMS_catch c m), w1)))"

text \<open>
  \<open>RateLimitedSMS.send\<close>: the result of \<open>sendSMS\<close>; the pause after a live send
  changes no state.
\<close>

definition RateLimitedSMS_send ::
  "env \<Rightarrow> string \<Rightarrow> string \<Rightarrow> world \<Rightarrow> (SendSMSError + SendSMSResult) \<times> world" where
  "RateLimitedSMS_send env to message w = sendSMS env to message w"

section \<open>The daily job (job.ts, config.ts)\<close>

record JobStats =
  found :: nat
  eligible :: nat
  skippedNoPhone :: nat
  skippedInvalidPhone :: nat
  skippedOptedOut :: nat
  skippedNoReviewLink :: nat
  skippedNonUK :: nat
  sent :: nat
  failed :: nat

definition SMS_TEMPLATE :: "string option \<Rightarrow> string \<Rightarrow> string" where
  "SMS_TEMPLATE firstName reviewLink =
     (let name = (if truthy firstName then trim (the firstName) else []);
          greeting = (if name \<noteq> [] then ''Hi '' @ name @ [CHR 0x0A] else ''Hi'' @ [CHR 0x0A])
      in greeting @ ''Stasher would love your feedback! Leave a review here: '' @ reviewLink)"

text \<open>
  The review link of one booking (the part of the first loop between the opt-out check
  and the last skip): the link of the city when the city has links, else a link of
  London; a line is printed when London was used.
\<close>

definition resolveReviewUrl ::
  "env \<Rightarrow> 'a BookingRow_scheme \<Rightarrow> world \<Rightarrow> string option \<times> world" where
  "resolveReviewUrl env booking w =
     (case (if truthy (city booking) \<and> hasReviewLinks env (the (city booking))
            then getRandomReviewUrl env (the (city booking)) False w
            else (None, w)) of
        (url, w1) \<Rightarrow>
          if \<not> truthy url
          then (case getRandomReviewUrl env ''london'' False w1 of
                  (url2, w2) \<Rightarrow>
                    if truthy url2
                    then (url2,
                          print (Log (''[JOB] Using London fallback for booking ''
                                   @ js_text (booking_id booking) @ '' (city: '' @ [CHR 0x22]
                                   @ or_else (city booking) ''unknown'' @ [CHR 0x22] @ '')'')) w2)
                    else (url2, w2))
          else (url, w1))"

type_synonym filter_state = "JobStats \<times> EligibleBooking list \<times> world"

text \<open>
  The body of the first loop of \<open>runJob\<close> for one booking. \<open>Inl\<close> is an exception
  that leaves the loop, with the world reached.
\<close>

definition filter_booking ::
  "env \<Rightarrow> BookingRow \<Rightarrow> filter_state \<Rightarrow> (thrown \<times> world) + filter_state" where
  "filter_booking env booking st =
     (case st of (stats, eligibleBookings, w) \<Rightarrow>
      if \<not> truthy (phone_number booking)
      then Inr (stats\<lparr>skippedNoPhone := skippedNoPhone stats + 1\<rparr>, eligibleBookings, w)
      else
        (case normalizePhone (phonelib env) (phone_number booking) ''GB'' of
           Inl e \<Rightarrow> Inl (e, w)
         | Inr None \<Rightarrow>
             Inr (stats\<lparr>skippedInvalidPhone := skippedInvalidPhone stats + 1\<rparr>,
                  eligibleBookings,
                  print (Log (''[JOB] Skipping booking '' @ js_text (booking_id booking)
                           @ '': invalid phone '' @ [CHR 0x22] @ the (phone_number booking)
                           @ [CHR 0x22])) w)
         | Inr (Some e164) \<Rightarrow>
             if \<not> (startsWith e164 ''+44''
                    \<or> (truthy (phone_number booking)
                        \<and> startsWith (trim (the (phone_number booking))) ''07''))
             then Inr (stats\<lparr>skippedNonUK := skippedNonUK stats + 1\<rparr>, eligibleBookings,
                       print (Log (''[JOB] Skipping booking '' @ js_text (booking_id booking)
                                @ '': non-UK phone number ('' @ e164 @ '')'')) w)
             else if isOptedOut (sms_opt_out w) e164
             then Inr (stats\<lparr>skippedOptedOut := skippedOptedOut stats + 1\<rparr>, eligibleBookings, w)
             else
               (case resolveReviewUrl env booking w of (url, w1) \<Rightarrow>
                if \<not> truthy url
                then Inr (stats\<lparr>skippedNoReviewLink := skippedNoReviewLink stats + 1\<rparr>,
                          eligibleBookings,
                          print (Log (''[JOB] Skipping booking '' @ js_text (booking_id booking)
                                   @ '': no review links available (city: '' @ [CHR 0x22]
                                   @ or_else (city booking) ''unknown'' @ [CHR 0x22]
                                   @ '', London fallback also unavailable)'')) w1)
                else Inr (stats\<lparr>eligible := eligible stats + 1\<rparr>,
                          eligibleBookings
                            @ [BookingRow.extend booking
                                 (EligibleBooking.fields e164 (the url))],
                          w1))))"

fun filter_bookings ::
  "env \<Rightarrow> BookingRow list \<Rightarrow> filter_state \<Rightarrow> (thrown \<times> world) + filter_state" where
  "filter_bookings env [] st = Inr st"
| "filter_bookings env (booking # rest) st =
     (case filter_booking env booking st of
        Inl x \<Rightarrow> Inl x
      | Inr st' \<Rightarrow> filter_bookings env rest st')"

text \<open>
  The two values that the \<open>catch\<close> blocks of the loops take from what
  \<open>RateLimitedSMS.send\<close> throws: \<open>error.message || String(error)\<close> and
  \<open>error.code || 'UNKNOWN'\<close>.
\<close>

definition caught_message :: "SendSMSError \<Rightarrow> js_value" where
  "caught_message error =
     (if js_truthy (error_message error) then error_message error else Str ''[object Object]'')"

definition caught_code :: "SendSMSError \<Rightarrow> js_value" where
  "caught_code error =
     (if js_truthy (error_code error) then error_code error else Str ''UNKNOWN'')"

text \<open>The body of the second loop for one eligible booking: the \<open>try\<close> and its \<open>catch\<close>.\<close>

definition send_booking :: "env \<Rightarrow> EligibleBooking \<Rightarrow> JobStats \<times> world \<Rightarrow> JobStats \<times> world" where
  "send_booking env booking st =
     (case st of (stats, w) \<Rightarrow>
      let message = SMS_TEMPLATE (first_name booking) (reviewUrl booking) in
      (case RateLimitedSMS_send env (phoneE164 booking) message w of
         (Inr result, w1) \<Rightarrow>
           (stats\<lparr>sent := sent stats + 1\<rparr>,
            print (Log (''[JOB] Sent SMS to '' @ phoneE164 booking @ '' for booking ''
                     @ js_text (booking_id booking) @ '' (TextMagic ID: '' @ messageId result
                     @ '', City: '' @ (case city booking of None \<Rightarrow> ''null'' | Some c \<Rightarrow> c)
                     @ '')'')) w1)
       | (Inl error, w1) \<Rightarrow>
           (stats\<lparr>failed := failed stats + 1\<rparr>,
            print (Err (''[JOB] Failed to send SMS to '' @ phoneE164 booking @ '' for booking ''
                     @ js_text (booking_id booking) @ '': ['' @ js_text (caught_code error)
                     @ ''] '' @ js_text (caught_message error))) w1)))"

fun send_bookings :: "env \<Rightarrow> EligibleBooking list \<Rightarrow> JobStats \<times> world \<Rightarrow> JobStats \<times> world" where
  "send_bookings env [] st = st"
| "send_bookings env (booking # rest) st = send_bookings env rest (send_booking env booking st)"

definition zero_stats :: JobStats where
  "zero_stats = \<lparr>found = 0, eligible = 0, skippedNoPhone = 0, skippedInvalidPhone = 0,
                  skippedOptedOut = 0, skippedNoReviewLink = 0, skippedNonUK = 0,
                  sent = 0, failed = 0\<rparr>"

text \<open>
  \<open>runJob\<close>: the statistics it returns or the exception it throws, and the world it
  leaves.
\<close>

definition runJob :: "env \<Rightarrow> string option \<Rightarrow> world \<Rightarrow> (thrown + JobStats) \<times> world" where
  "runJob env targetDate w =
     (case getYesterdayPickups env targetDate w of
        Inl e \<Rightarrow> (Inl e, w)
      | Inr bookings \<Rightarrow>
          let stats = zero_stats\<lparr>found := length bookings\<rparr> in
          if length bookings = 0 then (Inr stats, w)
          else
            (case filter_bookings env bookings (stats, [], w) of
               Inl (e, w1) \<Rightarrow> (Inl e, w1)
             | Inr (stats1, eligibleBookings, w1) \<Rightarrow>
                 (case send_bookings env eligibleBookings (stats1, w1) of
                    (stats2, w2) \<Rightarrow> (Inr stats2, w2))))"

section \<open>The hourly job (hiveboxReminders/service.ts)\<close>

text \<open>The fields of \<open>HiveboxJobStats\<close> keep their names with the prefix \<open>hb_\<close>.\<close>

record HiveboxJobStats =
  hb_fetched :: nat
  hb_sent :: nat
  hb_skippedOptedOut :: nat
  hb_skippedInvalidPhone :: nat
  hb_skippedNonUK :: nat
  hb_failed :: nat

definition FEATURE_NAME :: string where
  "FEATURE_NAME = ''hivebox_pickup_reminder''"

definition createHiveboxMessage :: "string option \<Rightarrow> string" where
  "createHiveboxMessage firstName =
     (let greeting = (if truthy firstName \<and> trim (the firstName) \<noteq> []
                      then ''Hi '' @ trim (the firstName) else ''Hi there'')
      in greeting @ [CHR 0x0A, CHR 0x0A]
         @ ''Your locker booking with Stasher ended an hour ago. If you have picked up your items, thank you! Otherwise, please do so or contact Support.'')"

definition isUKNumber :: "string \<Rightarrow> string option \<Rightarrow> bool" where
  "isUKNumber e164 originalPhone =
     (if startsWith e164 ''+44'' then True
      else if \<not> truthy originalPhone then False
      else startsWith (trim (the originalPhone)) ''07'')"

text \<open>
  One call of \<open>logSMS\<close> by the hourly job; the pickup time is
  \<open>booking.pickup ? new Date(booking.pickup).toISOString() : null\<close>.
\<close>

definition log_row ::
  "HiveboxBookingRow \<Rightarrow> string \<Rightarrow> SMSStatus \<Rightarrow> js_value option \<Rightarrow> world \<Rightarrow> thrown + world" where
  "log_row booking ph status err w =
     (case logSMS (sms_send_log w) FEATURE_NAME (booking_id booking) ph (Some (pickup booking))
             status err of
        Inl e \<Rightarrow> Inl e
      | Inr tbl \<Rightarrow> Inr (w\<lparr>sms_send_log := tbl\<rparr>))"

type_synonym hb_state = "HiveboxJobStats \<times> world"

text \<open>
  A skip of the loop: the counter has gone up and the row is logged; an exception of
  \<open>logSMS\<close> leaves the loop.
\<close>

definition skip_logged :: "HiveboxJobStats \<Rightarrow> world \<Rightarrow> thrown + world \<Rightarrow> (thrown \<times> world) + hb_state" where
  "skip_logged stats w r = (case r of Inl e \<Rightarrow> Inl (e, w) | Inr w1 \<Rightarrow> Inr (stats, w1))"

text \<open>
  The inner \<open>catch\<close> block of the loop, for the value
  \<open>errorMessage = error.message || String(error)\<close>: the failure is counted and
  printed, and then logged with \<open>errorMessage\<close> as the error of the row. The call of
  \<open>logSMS\<close> stands in the \<open>catch\<close> block itself, so an exception of it leaves the
  loop.
\<close>

definition remind_catch ::
  "HiveboxBookingRow \<Rightarrow> string \<Rightarrow> js_value \<Rightarrow> hb_state \<Rightarrow> (thrown \<times> world) + hb_state" where
  "remind_catch booking e164 errorMessage st =
     (case st of (stats, w) \<Rightarrow>
      let w1 = print (Err (''[HIVEBOX] Failed to send SMS to '' @ e164 @ '' for booking ''
                        @ js_text (booking_id booking) @ '': '' @ js_text errorMessage)) w
      in case log_row booking e164 st_failed (Some errorMessage) w1 of
           Inl e \<Rightarrow> Inl (e, w1)
         | Inr w2 \<Rightarrow> Inr (stats\<lparr>hb_failed := hb_failed stats + 1\<rparr>, w2))"

text \<open>
  The end of the inner \<open>try\<close> block: the send is counted and logged as \<open>sent\<close>;
  an exception of \<open>logSMS\<close> here would go to the inner \<open>catch\<close> block.
\<close>

definition remind_sent ::
  "HiveboxBookingRow \<Rightarrow> string \<Rightarrow> hb_state \<Rightarrow> (thrown \<times> world) + hb_state" where
  "remind_sent booking e164 st =
     (case st of (stats, w) \<Rightarrow>
      let stats1 = stats\<lparr>hb_sent := hb_sent stats + 1\<rparr> in
      case log_row booking e164 st_sent None w of
        Inl e \<Rightarrow> remind_catch booking e164 (Str (err_message e)) (stats1, w)
      | Inr w1 \<Rightarrow> Inr (stats1, w1))"

text \<open>
  The body of the loop of \<open>runHiveboxReminderJob\<close> for one booking. \<open>Inl\<close> is an
  exception that leaves the loop.
\<close>

definition remind_booking ::
  "env \<Rightarrow> bool \<Rightarrow> HiveboxBookingRow \<Rightarrow> hb_state \<Rightarrow> (thrown \<times> world) + hb_state" where
  "remind_booking env isDryRun booking st =
     (case st of (stats, w) \<Rightarrow>
      (case normalizePhone (phonelib env) (phone_number booking) ''GB'' of
         Inl e \<Rightarrow> Inl (e, w)
       | Inr None \<Rightarrow>
           skip_logged (stats\<lparr>hb_skippedInvalidPhone := hb_skippedInvalidPhone stats + 1\<rparr>) w
             (log_row booking (or_else (phone_number booking) ''unknown'')
                st_skipped_invalid_phone (Some (Str ''Invalid phone number format'')) w)
       | Inr (Some e164) \<Rightarrow>
           if \<not> isUKNumber e164 (phone_number booking)
           then skip_logged (stats\<lparr>hb_skippedNonUK := hb_skippedNonUK stats + 1\<rparr>) w
                  (log_row booking e164 st_skipped_non_uk (Some (Str ''Non-UK phone number'')) w)
           else if isOptedOut (sms_opt_out w) e164
           then skip_logged (stats\<lparr>hb_skippedOptedOut := hb_skippedOptedOut stats + 1\<rparr>) w
                  (log_row booking e164 st_skipped_opted_out None w)
           else
             let message = createHiveboxMessage (first_name booking) in
             if isDryRun
             then remind_sent booking e164
                    (stats,
                     print (Log (''[HIVEBOX] [DRY RUN] Would send to '' @ e164
                              @ '' for booking '' @ js_text (booking_id booking) @ '': ''
                              @ message)) w)
             else
               (case RateLimitedSMS_send env e164 message w of
                  (Inr result, w1) \<Rightarrow>
                    remind_sent booking e164
                      (stats,
                       print (Log (''[HIVEBOX] Sent SMS to '' @ e164 @ '' for booking ''
                                @ js_text (booking_id booking) @ '' (TextMagic ID: ''
                                @ messageId result @ '')'')) w1)
                | (Inl error, w1) \<Rightarrow>
                    remind_catch booking e164 (caught_message error) (stats, w1))))"

fun remind_bookings ::
  "env \<Rightarrow> bool \<Rightarrow> HiveboxBookingRow list \<Rightarrow> hb_state \<Rightarrow> (thrown \<times> world) + hb_state" where
  "remind_bookings env isDryRun [] st = Inr st"
| "remind_bookings env isDryRun (booking # rest) st =
     (case remind_booking env isDryRun booking st of
        Inl x \<Rightarrow> Inl x
      | Inr st' \<Rightarrow> remind_bookings env isDryRun rest st')"

definition hb_zero_stats :: HiveboxJobStats where
  "hb_zero_stats = \<lparr>hb_fetched = 0, hb_sent = 0, hb_skippedOptedOut = 0,
                     hb_skippedInvalidPhone = 0, hb_skippedNonUK = 0, hb_failed = 0\<rparr>"

text \<open>One reading of \<open>DateTime.now().setZone(config.timezone).toISO()\<close>.\<close>

definition now_iso :: "env \<Rightarrow> world \<Rightarrow> string option \<times> world" where
  "now_iso env w = (dateTimeNowISO env (clock_reads w), read_clock w)"

definition update_run :: "nat \<Rightarrow> JobRunUpdates \<Rightarrow> world \<Rightarrow> world" where
  "update_run rid u w = w\<lparr>job_run_summary := updateJobRunSummary (job_run_summary w) rid u\<rparr>"

text \<open>The outer \<open>try\<close> block of \<open>runHiveboxReminderJob\<close>.\<close>

definition hivebox_try ::
  "env \<Rightarrow> bool \<Rightarrow> nat \<Rightarrow> world \<Rightarrow> (thrown \<times> world) + hb_state" where
  "hivebox_try env isDryRun jobRunId w =
     (case getHiveboxPreviousHourPickups env w of
        Inl e \<Rightarrow> Inl (e, w)
      | Inr bookings \<Rightarrow>
          let stats = hb_zero_stats\<lparr>hb_fetched := length bookings\<rparr>;
              w1 = update_run jobRunId (no_updates\<lparr>upd_fetched_count := Some (hb_fetched stats)\<rparr>) w
          in
          if length bookings = 0
          then (case now_iso env w1 of (finishedAt, w2) \<Rightarrow>
                  Inr (stats, update_run jobRunId (no_updates\<lparr>upd_finished_at := Some finishedAt\<rparr>) w2))
          else
            (case remind_bookings env isDryRun bookings (stats, w1) of
               Inl x \<Rightarrow> Inl x
             | Inr (stats1, w2) \<Rightarrow>
                 (case now_iso env w2 of (finishedAt, w3) \<Rightarrow>
                    let skippedTotal = hb_skippedOptedOut stats1 + hb_skippedInvalidPhone stats1
                                         + hb_skippedNonUK stats1
                    in Inr (stats1,
                            update_run jobRunId
                              (no_updates\<lparr>upd_finished_at := Some finishedAt,
                                           upd_sent_count := Some (hb_sent stats1),
                                           upd_skipped_count := Some skippedTotal,
                                           upd_failed_count := Some (hb_failed stats1)\<rparr>) w3))))"

text \<open>
  \<open>runHiveboxReminderJob\<close>: the start time is read and checked, the summary row is
  created, and the \<open>try\<close> block runs under the outer \<open>catch\<close>, which stamps the row
  and throws the error again.
\<close>

definition runHiveboxReminderJob ::
  "env \<Rightarrow> bool \<Rightarrow> world \<Rightarrow> (thrown + HiveboxJobStats) \<times> world" where
  "runHiveboxReminderJob env dryRun w =
     (case now_iso env w of (startedAt, w0) \<Rightarrow>
      if \<not> truthy startedAt then (Inl (JsError ''Failed to get current time''), w0)
      else
        (case createJobRunSummary (job_run_summary w0) FEATURE_NAME (the startedAt) None 0 0 0 0 None of
           (jobRunId, tbl) \<Rightarrow>
             (case hivebox_try env dryRun jobRunId (w0\<lparr>job_run_summary := tbl\<rparr>) of
                Inr (stats, w1) \<Rightarrow> (Inr stats, w1)
              | Inl (error, w1) \<Rightarrow>
                  (case now_iso env w1 of (finishedAt, w2) \<Rightarrow>
                     (Inl error,
                      update_run jobRunId
                        (no_updates\<lparr>upd_finished_at := Some finishedAt,
                                     upd_error := Some (Some (err_message error))\<rparr>) w2)))))"

section \<open>The message renderer (template.ts)\<close>

text \<open>
  \<open>TemplateVariables\<close>; the fields keep their names with the prefix \<open>tv_\<close>. A
  booking id is a string or a number: a value that the renderer tests and turns into
  text.
\<close>

record TemplateVariables =
  tv_firstName :: "string option"
  tv_lastName :: "string option"
  tv_fullName :: "string option"
  tv_stashpointName :: "string option"
  tv_reviewUrl :: "string option"
  tv_city :: "string option"
  tv_bookingId :: "js_value option"

text \<open>
  The replacement text of \<open>String.prototype.replace\<close> for one match of a pattern
  without capture groups: \<open>$$\<close> is a dollar sign, \<open>$&\<close> the matched text, \<open>$`\<close>
  the text before the match and \<open>$'\<close> the text after it; every other character
  stands for itself.
\<close>

fun getSubstitution :: "string \<Rightarrow> string \<Rightarrow> string \<Rightarrow> string \<Rightarrow> string" where
  "getSubstitution matched preceding following [] = []"
| "getSubstitution matched preceding following [c] = [c]"
| "getSubstitution matched preceding following (c # d # r) =
     (if c = CHR ''$'' then
        (if d = CHR ''$'' then CHR ''$'' # getSubstitution matched preceding following r
         else if d = CHR ''&'' then matched @ getSubstitution matched preceding following r
         else if d = CHR 0x60 then preceding @ getSubstitution matched preceding following r
         else if d = CHR 0x27 then following @ getSubstitution matched preceding following r
         else c # getSubstitution matched preceding following (d # r))
      else c # getSubstitution matched preceding following (d # r))"

text \<open>
  \<open>rest.replace(new RegExp(pat, 'g'), repl)\<close> for a pattern that matches the text
  \<open>pat\<close> and nothing else, scanning from left to right; \<open>preceding\<close> is the part of
  the subject already scanned.
\<close>

function replace_from :: "string \<Rightarrow> string \<Rightarrow> string \<Rightarrow> string \<Rightarrow> string" where
  "replace_from pat repl preceding rest =
     (if rest = [] then []
      else if pat \<noteq> [] \<and> take (length pat) rest = pat
      then getSubstitution pat preceding (drop (length pat) rest) repl
           @ replace_from pat repl (preceding @ pat) (drop (length pat) rest)
      else hd rest # replace_from pat repl (preceding @ [hd rest]) (tl rest))"
  by pat_completeness auto
termination
  by (relation "measure (\<lambda>(pat, repl, preceding, rest). length rest)") auto

declare replace_from.simps [simp del]

definition replace_global :: "string \<Rightarrow> string \<Rightarrow> string \<Rightarrow> string" where
  "replace_global pat repl subject = replace_from pat repl [] subject"

text \<open>The object \<open>variableMap\<close>, as the list \<open>Object.entries\<close> gives.\<close>

definition variableMap :: "TemplateVariables \<Rightarrow> (string \<times> string) list" where
  "variableMap vars =
     [(''firstName'', or_else (tv_firstName vars) []),
      (''lastName'', or_else (tv_lastName vars) []),
      (''fullName'',
         or_else (tv_fullName vars)
           (trim (or_else (tv_firstName vars) [] @ '' '' @ or_else (tv_lastName vars) []))),
      (''stashpointName'', or_else (tv_stashpointName vars) []),
      (''reviewUrl'', or_else (tv_reviewUrl vars) []),
      (''city'', or_else (tv_city vars) []),
      (''bookingId'',
         (case tv_bookingId vars of
            None \<Rightarrow> []
          | Some v \<Rightarrow> if js_truthy v then js_text v else []))]"

definition placeholder :: "string \<Rightarrow> string" where
  "placeholder key = ''{'' @ key @ ''}''"

definition renderTemplate :: "string \<Rightarrow> TemplateVariables \<Rightarrow> string" where
  "renderTemplate template vars =
     foldl (\<lambda>rendered (key, val). replace_global (placeholder key) val rendered)
       template (variableMap vars)"

section \<open>Notions used in the statements\<close>

subsection \<open>Totals of the skip counters\<close>

definition skipped_total :: "JobStats \<Rightarrow> nat" where
  "skipped_total s = skippedNoPhone s + skippedInvalidPhone s + skippedNonUK s
                       + skippedOptedOut s + skippedNoReviewLink s"

definition hb_skipped_total :: "HiveboxJobStats \<Rightarrow> nat" where
  "hb_skipped_total s = hb_skippedOptedOut s + hb_skippedInvalidPhone s + hb_skippedNonUK s"

subsection \<open>Skip reasons and the order of the checks\<close>

text \<open>
  The skip reasons, and the reading of the rule that eligibility checks run in a fixed
  order and the first failing check decides: a list of checks, each with the reason it
  stands for and whether the candidate passes it, is scanned from the front.
\<close>

datatype SkipReason = NoPhone | InvalidPhone | NonDomestic | OptedOut | NoReviewLink

fun first_failing :: "(SkipReason \<times> bool) list \<Rightarrow> SkipReason option" where
  "first_failing [] = None"
| "first_failing ((reason, passes) # checks) = (if passes then first_failing checks else Some reason)"

definition normalized :: "env \<Rightarrow> 'a BookingRow_scheme \<Rightarrow> string option" where
  "normalized env booking =
     (case normalizePhone (phonelib env) (phone_number booking) ''GB'' of
        Inl e \<Rightarrow> None
      | Inr r \<Rightarrow> r)"

text \<open>
  The five checks in the order the specification gives them: (a) a phone is present,
  (b) it normalizes, (c) the number is domestic, by the normalized prefix or by the
  leading digits of the raw text, (d) the phone is not opted out, (e) a review link is
  found for the city or for the fallback city.
\<close>

definition spec_checks :: "env \<Rightarrow> world \<Rightarrow> 'a BookingRow_scheme \<Rightarrow> (SkipReason \<times> bool) list" where
  "spec_checks env w booking =
     [(NoPhone, truthy (phone_number booking)),
      (InvalidPhone, normalized env booking \<noteq> None),
      (NonDomestic,
         (case normalized env booking of
            None \<Rightarrow> False
          | Some e164 \<Rightarrow> isUKNumber e164 (phone_number booking))),
      (OptedOut,
         (case normalized env booking of
            None \<Rightarrow> False
          | Some e164 \<Rightarrow> \<not> isOptedOut (sms_opt_out w) e164)),
      (NoReviewLink, truthy (fst (resolveReviewUrl env booking w)))]"

text \<open>The three checks of the hourly job, in its order.\<close>

definition hivebox_checks ::
  "env \<Rightarrow> world \<Rightarrow> 'a BookingRow_scheme \<Rightarrow> (SkipReason \<times> bool) list" where
  "hivebox_checks env w booking =
     [(InvalidPhone, normalized env booking \<noteq> None),
      (NonDomestic,
         (case normalized env booking of
            None \<Rightarrow> False
          | Some e164 \<Rightarrow> isUKNumber e164 (phone_number booking))),
      (OptedOut,
         (case normalized env booking of
            None \<Rightarrow> False
          | Some e164 \<Rightarrow> \<not> isOptedOut (sms_opt_out w) e164))]"

text \<open>The counter of each skip reason; the hourly statistics have three of them.\<close>

definition skip_count :: "JobStats \<Rightarrow> SkipReason \<Rightarrow> nat" where
  "skip_count s r =
     (case r of
        NoPhone \<Rightarrow> skippedNoPhone s
      | InvalidPhone \<Rightarrow> skippedInvalidPhone s
      | NonDomestic \<Rightarrow> skippedNonUK s
      | OptedOut \<Rightarrow> skippedOptedOut s
      | NoReviewLink \<Rightarrow> skippedNoReviewLink s)"

definition hb_skip_count :: "HiveboxJobStats \<Rightarrow> SkipReason \<Rightarrow> nat" where
  "hb_skip_count s r =
     (case r of
        NoPhone \<Rightarrow> 0
      | InvalidPhone \<Rightarrow> hb_skippedInvalidPhone s
      | NonDomestic \<Rightarrow> hb_skippedNonUK s
      | OptedOut \<Rightarrow> hb_skippedOptedOut s
      | NoReviewLink \<Rightarrow> 0)"

definition skip_status :: "SkipReason \<Rightarrow> SMSStatus option" where
  "skip_status r =
     (case r of
        NoPhone \<Rightarrow> None
      | InvalidPhone \<Rightarrow> Some st_skipped_invalid_phone
      | NonDomestic \<Rightarrow> Some st_skipped_non_uk
      | OptedOut \<Rightarrow> Some st_skipped_opted_out
      | NoReviewLink \<Rightarrow> None)"

text \<open>
  What \<open>loadReviewLinks\<close> ensures of the map it builds: a row of the file without a
  URL is left out, so every link of the map has a URL that is not empty.
\<close>

definition loaded_links :: "env \<Rightarrow> bool" where
  "loaded_links env =
     (\<forall>c ls. reviewLinksMap env c = Some ls \<longrightarrow> list_all (\<lambda>l. google_review_url l \<noteq> []) ls)"

text \<open>How many bookings of a list fall under a skip reason, or under none.\<close>

definition count_where :: "('b \<Rightarrow> SkipReason option) \<Rightarrow> SkipReason option \<Rightarrow> 'b list \<Rightarrow> nat" where
  "count_where f r bs = length (filter (\<lambda>b. f b = r) bs)"

text \<open>Two worlds hold the same three tables.\<close>

definition same_tables :: "world \<Rightarrow> world \<Rightarrow> bool" where
  "same_tables w w' =
     (sms_opt_out w' = sms_opt_out w \<and> sms_send_log w' = sms_send_log w
      \<and> job_run_summary w' = job_run_summary w)"

subsection \<open>The rows of the send log\<close>

text \<open>
  The row that the send log should get for a candidate of the hourly job whose message,
  if one is due, is accepted or is only simulated: the status of the skip reason for a
  candidate that fails a check, and \<open>sent\<close> with no error for a candidate that passes
  them all.
\<close>

definition audit_row :: "env \<Rightarrow> world \<Rightarrow> HiveboxBookingRow \<Rightarrow> SMSLog" where
  "audit_row env w booking =
     \<lparr>log_feature = FEATURE_NAME,
      log_booking_id = (if js_truthy (booking_id booking) then Some (js_text (booking_id booking)) else None),
      log_phone = (case normalized env booking of
                     None \<Rightarrow> or_else (phone_number booking) ''unknown''
                   | Some e164 \<Rightarrow> e164),
      log_pickup_time = Some (pickup booking),
      log_status = (case first_failing (hivebox_checks env w booking) of
                      None \<Rightarrow> st_sent
                    | Some NonDomestic \<Rightarrow> st_skipped_non_uk
                    | Some OptedOut \<Rightarrow> st_skipped_opted_out
                    | Some r \<Rightarrow> st_skipped_invalid_phone),
      log_error = (case first_failing (hivebox_checks env w booking) of
                     None \<Rightarrow> None
                   | Some NonDomestic \<Rightarrow> Some ''Non-UK phone number''
                   | Some OptedOut \<Rightarrow> None
                   | Some r \<Rightarrow> Some ''Invalid phone number format'')\<rparr>"

text \<open>
  The statistics of an hourly run in which no send fails: every candidate is counted
  under the first check it fails, or as sent.
\<close>

definition expected_stats :: "env \<Rightarrow> world \<Rightarrow> HiveboxBookingRow list \<Rightarrow> HiveboxJobStats" where
  "expected_stats env w bookings =
     \<lparr>hb_fetched = length bookings,
      hb_sent = count_where (\<lambda>b. first_failing (hivebox_checks env w b)) None bookings,
      hb_skippedOptedOut =
        count_where (\<lambda>b. first_failing (hivebox_checks env w b)) (Some OptedOut) bookings,
      hb_skippedInvalidPhone =
        count_where (\<lambda>b. first_failing (hivebox_checks env w b)) (Some InvalidPhone) bookings,
      hb_skippedNonUK =
        count_where (\<lambda>b. first_failing (hivebox_checks env w b)) (Some NonDomestic) bookings,
      hb_failed = 0\<rparr>"

subsection \<open>The summary row of the hourly job\<close>

text \<open>
  The world after the start time was read and the summary row was inserted, which is the
  world that \<open>getHiveboxPreviousHourPickups\<close> is called in; and the row itself.
\<close>

definition started_world :: "env \<Rightarrow> world \<Rightarrow> world" where
  "started_world env w =
     (read_clock w)\<lparr>job_run_summary :=
        snd (createJobRunSummary (job_run_summary w) FEATURE_NAME
               (the (dateTimeNowISO env (clock_reads w))) None 0 0 0 0 None)\<rparr>"

definition zero_row :: "env \<Rightarrow> world \<Rightarrow> JobRunSummary" where
  "zero_row env w =
     \<lparr>run_id = next_rowid (job_run_summary w), run_feature = FEATURE_NAME,
      run_started_at = the (dateTimeNowISO env (clock_reads w)), run_finished_at = None,
      run_fetched_count = 0, run_sent_count = 0, run_skipped_count = 0, run_failed_count = 0,
      run_error = None\<rparr>"

subsection \<open>The contract of the phone library\<close>

text \<open>
  What the model asks of the phone library for the round trip: a number that the
  library returns for a text it accepts is not empty, holds no white space, and is
  itself accepted and parsed to itself, whatever the default country.
\<close>

definition canonical_numbers :: "libphonenumber \<Rightarrow> bool" where
  "canonical_numbers lib =
     (\<forall>s c n. isValidPhoneNumber lib s c = Inr True \<and> parsePhoneNumber lib s c = Inr n \<longrightarrow>
        n \<noteq> [] \<and> \<not> list_ex js_space n
        \<and> (\<forall>c'. isValidPhoneNumber lib n c' = Inr True \<and> parsePhoneNumber lib n c' = Inr n))"

subsection \<open>Templates as segments\<close>

text \<open>
  A template whose braces stand for placeholders: pieces of literal text without an
  opening brace, and placeholders \<open>{name}\<close> whose name holds no brace.
\<close>

datatype segment = Lit string | Var string

definition segment_text :: "segment \<Rightarrow> string" where
  "segment_text seg = (case seg of Lit t \<Rightarrow> t | Var name \<Rightarrow> placeholder name)"

definition template_of :: "segment list \<Rightarrow> string" where
  "template_of segs = concat (map segment_text segs)"

definition wf_segment :: "segment \<Rightarrow> bool" where
  "wf_segment seg =
     (case seg of
        Lit t \<Rightarrow> CHR ''{'' \<notin> set t
      | Var name \<Rightarrow> CHR ''{'' \<notin> set name \<and> CHR ''}'' \<notin> set name)"

text \<open>
  What a segment should become: a placeholder that names an entry of the variable map
  becomes the entry's value, every other segment stays as it is.
\<close>

definition substituted :: "(string \<times> string) list \<Rightarrow> segment \<Rightarrow> string" where
  "substituted vm seg =
     (case seg of
        Lit t \<Rightarrow> t
      | Var name \<Rightarrow> (case map_of vm name of None \<Rightarrow> placeholder name | Some v \<Rightarrow> v))"

definition plain_values :: "(string \<times> string) list \<Rightarrow> bool" where
  "plain_values vm = list_all (\<lambda>(k, v). CHR ''{'' \<notin> set v \<and> CHR ''$'' \<notin> set v) vm"

text \<open>One pass of the renderer, on segments.\<close>

definition fill :: "string \<Rightarrow> string \<Rightarrow> segment \<Rightarrow> segment" where
  "fill key v seg = (case seg of Lit t \<Rightarrow> Lit t | Var name \<Rightarrow> if name = key then Lit v else Var name)"

section \<open>Example inputs\<close>

subsection \<open>Phone libraries and an opt-out table\<close>

text \<open>A phone library that throws on every call.\<close>

definition throwing_lib :: libphonenumber where
  "throwing_lib =
     \<lparr>isValidPhoneNumber = (\<lambda>s c. Inl (JsError ''boom'')),
      parsePhoneNumber = (\<lambda>s c. Inl (JsError ''boom''))\<rparr>"

text \<open>
  A phone library that knows two British mobile numbers, in the national and the
  international form, and one American number.
\<close>

definition demo_valid :: "string \<Rightarrow> bool" where
  "demo_valid s = (s \<in> set [''07911123456'', ''+447911123456'', ''07911000000'',
                             ''+447911000000'', ''+14155550100''])"

definition demo_number :: "string \<Rightarrow> string" where
  "demo_number s =
     (if s = ''07911123456'' then ''+447911123456''
      else if s = ''07911000000'' then ''+447911000000'' else s)"

definition demo_lib :: libphonenumber where
  "demo_lib =
     \<lparr>isValidPhoneNumber = (\<lambda>s c. Inr (demo_valid s)),
      parsePhoneNumber =
        (\<lambda>s c. if demo_valid s then Inr (demo_number s) else Inl (JsError ''NOT_A_NUMBER''))\<rparr>"

text \<open>An opt-out table with one row.\<close>

definition demo_optouts :: "OptOut list" where
  "demo_optouts = [\<lparr>phone_e164 = ''+447911999999'', created_at = ''2024-01-01 09:00:00'',
                    source = ''manual'', opt_note = None\<rparr>]"

subsection \<open>Bookings, a world and environments\<close>

text \<open>
  Review links for London only; three bookings, the second in a city without links, the
  third with an American number; a gateway that refuses the second phone with status 400
  and a message text, and accepts every other request; a world with empty tables.
\<close>

definition demo_links :: "string \<Rightarrow> ReviewLink list option" where
  "demo_links c =
     (if c = ''london''
      then Some [\<lparr>link_city = ''london'', link_stashpoint_name = None,
                  google_review_url = ''https://g.page/a''\<rparr>,
                 \<lparr>link_city = ''london'', link_stashpoint_name = None,
                  google_review_url = ''https://g.page/b''\<rparr>]
      else None)"

definition booking_a :: BookingRow where
  "booking_a = \<lparr>booking_id = number_value 1, stashpoint_name = ''Shop'', city = Some ''London'',
                 phone_number = Some ''+447911123456'', first_name = Some ''Ann'',
                 last_name = None, pickup = ''2024-05-01T10:00:00.000Z''\<rparr>"

definition booking_b :: BookingRow where
  "booking_b = \<lparr>booking_id = number_value 2, stashpoint_name = ''Kiosk'', city = Some ''Glasgow'',
                 phone_number = Some ''07911000000'', first_name = None,
                 last_name = None, pickup = ''2024-05-01T11:00:00.000Z''\<rparr>"

definition booking_c :: BookingRow where
  "booking_c = \<lparr>booking_id = number_value 3, stashpoint_name = ''Depot'', city = Some ''London'',
                 phone_number = Some ''+14155550100'', first_name = Some ''Cy'',
                 last_name = None, pickup = ''2024-05-01T12:00:00.000Z''\<rparr>"

definition demo_world :: world where
  "demo_world = \<lparr>sms_opt_out = [], sms_send_log = [], job_run_summary = [], console = [],
                  requests = [], clock_reads = 0, random_draws = 0\<rparr>"

definition quoted :: "string \<Rightarrow> string" where
  "quoted t = [CHR 0x22] @ t @ [CHR 0x22]"

definition invalid_phone_body :: ErrorBody where
  "invalid_phone_body =
     \<lparr>body_text = ''{'' @ [CHR 0x0A] @ ''  '' @ quoted ''message'' @ '': ''
                    @ quoted ''Invalid phone'' @ [CHR 0x0A] @ ''}'',
      body_message = Some (Str ''Invalid phone''),
      body_errors = None, body_validation_errors = None\<rparr>"

definition demo_gateway :: "nat \<Rightarrow> string \<Rightarrow> string \<Rightarrow> gateway_reply" where
  "demo_gateway n to message =
     (if to = ''+447911000000'' then Refused 400 ''Bad Request'' invalid_phone_body
      else Accepted (Some (show_nat (7000 + n))) None)"

definition demo_env :: env where
  "demo_env =
     \<lparr>phonelib = demo_lib, reviewLinksMap = demo_links, config_dryRun = False,
      gateway = demo_gateway,
      dateTimeNowISO = (\<lambda>n. Some (''2024-05-02T10:00:0'' @ show_nat n)),
      dateNow = (\<lambda>n. 1714644000 + n),
      mathRandom = (\<lambda>n. n),
      getYesterdayPickups = (\<lambda>targetDate w. Inr [booking_a, booking_b, booking_c]),
      getHiveboxPreviousHourPickups =
        (\<lambda>w. Inr [BookingRow.extend booking_a (HiveboxBookingRow.fields ''1111''),
                   BookingRow.extend booking_b (HiveboxBookingRow.fields ''2222''),
                   BookingRow.extend booking_c (HiveboxBookingRow.fields ''3333'')])\<rparr>"

definition eligible_a :: EligibleBooking where
  "eligible_a = BookingRow.extend booking_a
                  (EligibleBooking.fields ''+447911123456'' ''https://g.page/a'')"

definition eligible_b :: EligibleBooking where
  "eligible_b = BookingRow.extend booking_b
                  (EligibleBooking.fields ''+447911000000'' ''https://g.page/b'')"

definition hivebox_a :: HiveboxBookingRow where
  "hivebox_a = BookingRow.extend booking_a (HiveboxBookingRow.fields ''1111'')"

definition hivebox_b :: HiveboxBookingRow where
  "hivebox_b = BookingRow.extend booking_b (HiveboxBookingRow.fields ''2222'')"

definition hivebox_c :: HiveboxBookingRow where
  "hivebox_c = BookingRow.extend booking_c (HiveboxBookingRow.fields ''3333'')"

text \<open>An environment whose data source refuses both queries.\<close>

definition failing_env :: env where
  "failing_env =
     demo_env\<lparr>getYesterdayPickups := (\<lambda>targetDate w. Inl (JsError ''connection refused'')),
               getHiveboxPreviousHourPickups := (\<lambda>w. Inl (JsError ''connection refused''))\<rparr>"

text \<open>The example environment in dry-run mode, and a gateway that accepts every message.\<close>

definition dry_env :: env where
  "dry_env = demo_env\<lparr>config_dryRun := True\<rparr>"

definition ok_gateway :: "nat \<Rightarrow> string \<Rightarrow> string \<Rightarrow> gateway_reply" where
  "ok_gateway k t m = Accepted None (Some ''/api/v2/messages/1'')"

text \<open>
  A gateway that refuses the second phone with a body whose \<open>message\<close> is an object
  and not a string: \<open>String\<close> turns it into \<open>[object Object]\<close>, and
  \<open>better-sqlite3\<close> takes a plain object for a set of named parameters, finds one
  value too few for the statement and throws a \<open>RangeError\<close>.
\<close>

definition object_message :: js_value where
  "object_message = Other True ''[object Object]'' (Inl ''Too few parameter values were provided'')"

definition object_body :: ErrorBody where
  "object_body =
     \<lparr>body_text = ''{'' @ [CHR 0x0A] @ ''  '' @ quoted ''message'' @ '': {'' @ [CHR 0x0A]
                    @ ''    '' @ quoted ''text'' @ '': '' @ quoted ''Invalid phone'' @ [CHR 0x0A]
                    @ ''  }'' @ [CHR 0x0A] @ ''}'',
      body_message = Some object_message,
      body_errors = None, body_validation_errors = None\<rparr>"

definition object_gateway :: "nat \<Rightarrow> string \<Rightarrow> string \<Rightarrow> gateway_reply" where
  "object_gateway n to message =
     (if to = ''+447911000000'' then Refused 400 ''Bad Request'' object_body
      else Accepted (Some (show_nat (7000 + n))) None)"

text \<open>
  The example environment with this gateway; its hourly query returns the second booking
  first.
\<close>

definition object_env :: env where
  "object_env =
     demo_env\<lparr>gateway := object_gateway,
               getHiveboxPreviousHourPickups := (\<lambda>w. Inr [hivebox_b, hivebox_a])\<rparr>"

text \<open>The example environment without any review link.\<close>

definition nolink_env :: env where
  "nolink_env = demo_env\<lparr>reviewLinksMap := (\<lambda>c. None)\<rparr>"

text \<open>A daily query that returns the same booking twice.\<close>

definition duplicate_env :: env where
  "duplicate_env = demo_env\<lparr>getYesterdayPickups := (\<lambda>targetDate w. Inr [booking_a, booking_a])\<rparr>"

subsection \<open>A template and its variables\<close>

definition no_vars :: TemplateVariables where
  "no_vars = \<lparr>tv_firstName = None, tv_lastName = None, tv_fullName = None,
              tv_stashpointName = None, tv_reviewUrl = None, tv_city = None,
              tv_bookingId = None\<rparr>"

text \<open>A template with two known placeholders and an unknown one, and its variables.\<close>

definition demo_segments :: "segment list" where
  "demo_segments = [Lit ''Hi '', Var ''firstName'', Lit '', see '', Var ''reviewUrl'',
                    Lit '' or '', Var ''foo'']"

definition demo_vars :: TemplateVariables where
  "demo_vars = no_vars\<lparr>tv_reviewUrl := Some ''https://g.page/a''\<rparr>"

section \<open>Properties of the phone normalizer\<close>

lemma remove_spaces_all_space:
  "list_all js_space s \<Longrightarrow> remove_spaces s = []"
  by (induction s) (auto simp: remove_spaces_def)

lemma list_all_dropWhile: "list_all P s \<Longrightarrow> list_all P (dropWhile Q s)"
  by (induction s) auto

lemma list_all_trim: "list_all js_space s \<Longrightarrow> list_all js_space (trim s)"
  by (simp add: trim_def list_all_dropWhile)

lemma normalizePhone_total: "\<exists>r. normalizePhone lib phone dc = Inr r"
  by (auto simp: normalizePhone_def Let_def split: sum.splits)

text \<open>
  C5. For a raw phone that is null, empty or made of white space only, the normalizer
  returns null; and for every input and every behaviour of the phone library, also one
  that throws, it returns a value (an object or null) and no exception leaves it.
\<close>

theorem normalizePhone_blank_and_never_throws:
  "normalizePhone lib None dc = Inr None
   \<and> normalizePhone lib (Some []) dc = Inr None
   \<and> (list_all js_space s \<longrightarrow> normalizePhone lib (Some s) dc = Inr None)
   \<and> (\<exists>r. normalizePhone lib phone dc = Inr r)"
proof -
  have a: "normalizePhone lib None dc = Inr None"
    by (simp add: normalizePhone_def truthy_def)
  have b: "normalizePhone lib (Some []) dc = Inr None"
    by (simp add: normalizePhone_def truthy_def)
  have c: "list_all js_space s \<longrightarrow> normalizePhone lib (Some s) dc = Inr None"
  proof
    assume "list_all js_space s"
    then have "remove_spaces (trim s) = []"
      by (simp add: list_all_trim remove_spaces_all_space)
    then show "normalizePhone lib (Some s) dc = Inr None"
      by (simp add: normalizePhone_def Let_def)
  qed
  from a b c normalizePhone_total show ?thesis by blast
qed

theorem normalizePhone_blank_and_never_throws_witness:
  "list_all js_space [CHR 0x20, CHR 0x09]
   \<and> normalizePhone throwing_lib (Some [CHR 0x20, CHR 0x09]) ''GB'' = Inr None
   \<and> normalizePhone throwing_lib None ''GB'' = Inr None
   \<and> (\<exists>r. normalizePhone throwing_lib (Some ''07911123456'') ''GB'' = Inr r)"
proof -
  have sp: "list_all js_space [CHR 0x20, CHR 0x09]"
    by (simp add: js_space_def)
  note t = normalizePhone_blank_and_never_throws
             [of throwing_lib "''GB''" "[CHR 0x20, CHR 0x09]" "Some ''07911123456''"]
  from t sp show ?thesis by blast
qed

section \<open>Properties of the opt-out ledger\<close>

lemma isOptedOut_iff: "isOptedOut tbl p \<longleftrightarrow> p \<in> set (map phone_e164 tbl)"
  by (auto simp: isOptedOut_def list_ex_iff)

lemma key_of_updated_row:
  "phone_e164 \<circ> (\<lambda>r. if phone_e164 r = p
                        then r\<lparr>source := s, opt_note := n, created_at := t\<rparr> else r)
     = phone_e164"
  by (auto simp: fun_eq_iff)

lemma keys_addOptOut:
  "map phone_e164 (addOptOut now tbl p src nt)
     = (if p \<in> set (map phone_e164 tbl) then map phone_e164 tbl else map phone_e164 tbl @ [p])"
  by (simp add: addOptOut_def Let_def isOptedOut_iff [unfolded isOptedOut_def] key_of_updated_row)

lemma isOptedOut_addOptOut: "isOptedOut (addOptOut now tbl p src nt) p"
  unfolding isOptedOut_iff keys_addOptOut by simp

lemma not_isOptedOut_removeOptOut: "\<not> isOptedOut (fst (removeOptOut tbl p)) p"
  by (simp add: isOptedOut_def removeOptOut_def list_ex_iff)

lemma distinct_addOptOut:
  "distinct (map phone_e164 tbl) \<Longrightarrow> distinct (map phone_e164 (addOptOut now tbl p src nt))"
  unfolding keys_addOptOut by simp

lemma filter_key_distinct:
  "distinct (map phone_e164 tbl) \<Longrightarrow> r \<in> set tbl \<Longrightarrow>
     filter (\<lambda>x. phone_e164 x = phone_e164 r) tbl = [r]"
proof (induction tbl)
  case Nil
  then show ?case by simp
next
  case (Cons a tbl)
  show ?case
  proof (cases "a = r")
    case True
    with Cons.prems have "phone_e164 r \<notin> phone_e164 ` set tbl" by simp
    then have "\<forall>x\<in>set tbl. phone_e164 x \<noteq> phone_e164 r" by (metis imageI)
    then have "filter (\<lambda>x. phone_e164 x = phone_e164 r) tbl = []"
      by (simp add: filter_empty_conv)
    with True show ?thesis by simp
  next
    case False
    with Cons.prems have r: "r \<in> set tbl" and d: "distinct (map phone_e164 tbl)" by auto
    from Cons.prems r have "phone_e164 a \<noteq> phone_e164 r" by force
    with Cons.IH [OF d r] show ?thesis by simp
  qed
qed

lemma filter_addOptOut:
  assumes "distinct (map phone_e164 tbl)"
  shows "filter (\<lambda>r. phone_e164 r = p) (addOptOut now tbl p src nt)
           = [\<lparr>phone_e164 = p, created_at = now, source = src,
               opt_note = (if truthy nt then nt else None)\<rparr>]"
proof (cases "list_ex (\<lambda>r. phone_e164 r = p) tbl")
  case True
  then obtain r where r: "r \<in> set tbl" "phone_e164 r = p" by (auto simp: list_ex_iff)
  from filter_key_distinct [OF assms r(1)] r(2)
  have f: "filter (\<lambda>x. phone_e164 x = p) tbl = [r]" by simp
  have "filter (\<lambda>x. phone_e164 x = p)
          (map (\<lambda>r. if phone_e164 r = p then r\<lparr>source := src, opt_note := (if truthy nt then nt else None), created_at := now\<rparr> else r) tbl)
        = map (\<lambda>r. r\<lparr>source := src, opt_note := (if truthy nt then nt else None), created_at := now\<rparr>)
            (filter (\<lambda>x. phone_e164 x = p) tbl)"
    by (induction tbl) auto
  with f True r(2) show ?thesis
    by (cases r) (simp add: addOptOut_def Let_def)
next
  case False
  then have "filter (\<lambda>x. phone_e164 x = p) tbl = []"
    by (auto simp: list_ex_iff filter_empty_conv)
  with False show ?thesis by (simp add: addOptOut_def Let_def)
qed

text \<open>
  C7. After \<open>addOptOut\<close> of a phone, \<open>isOptedOut\<close> of that phone is true; after
  \<open>removeOptOut\<close> it is false; and in a table that respects its primary key, adding
  the same phone twice leaves exactly one row for that phone, which carries the second
  source, note and time \<open>-\<close> an update, and the table still respects the key.
\<close>

theorem optout_ledger_laws:
  "isOptedOut (addOptOut now tbl p src nt) p
   \<and> \<not> isOptedOut (fst (removeOptOut (addOptOut now tbl p src nt) p)) p
   \<and> \<not> isOptedOut (fst (removeOptOut tbl p)) p
   \<and> (distinct (map phone_e164 tbl) \<longrightarrow>
        filter (\<lambda>r. phone_e164 r = p) (addOptOut now2 (addOptOut now1 tbl p src1 nt1) p src2 nt2)
          = [\<lparr>phone_e164 = p, created_at = now2, source = src2,
              opt_note = (if truthy nt2 then nt2 else None)\<rparr>]
        \<and> distinct (map phone_e164 (addOptOut now2 (addOptOut now1 tbl p src1 nt1) p src2 nt2)))"
proof (intro conjI impI)
  show "isOptedOut (addOptOut now tbl p src nt) p"
    by (rule isOptedOut_addOptOut)
  show "\<not> isOptedOut (fst (removeOptOut (addOptOut now tbl p src nt) p)) p"
    by (rule not_isOptedOut_removeOptOut)
  show "\<not> isOptedOut (fst (removeOptOut tbl p)) p"
    by (rule not_isOptedOut_removeOptOut)
next
  assume d: "distinct (map phone_e164 tbl)"
  then have d1: "distinct (map phone_e164 (addOptOut now1 tbl p src1 nt1))"
    by (rule distinct_addOptOut)
  from d1 show "filter (\<lambda>r. phone_e164 r = p)
                  (addOptOut now2 (addOptOut now1 tbl p src1 nt1) p src2 nt2)
                = [\<lparr>phone_e164 = p, created_at = now2, source = src2,
                    opt_note = (if truthy nt2 then nt2 else None)\<rparr>]"
    by (rule filter_addOptOut)
  from d1 show "distinct (map phone_e164 (addOptOut now2 (addOptOut now1 tbl p src1 nt1) p src2 nt2))"
    by (rule distinct_addOptOut)
qed

theorem optout_ledger_laws_witness:
  "distinct (map phone_e164 demo_optouts)
   \<and> isOptedOut (addOptOut ''t1'' demo_optouts ''+447911123456'' ''inbound_sms_stop'' (Some ''STOP'')) ''+447911123456''
   \<and> \<not> isOptedOut (fst (removeOptOut (addOptOut ''t1'' demo_optouts ''+447911123456'' ''inbound_sms_stop'' (Some ''STOP'')) ''+447911123456'')) ''+447911123456''
   \<and> filter (\<lambda>r. phone_e164 r = ''+447911123456'')
        (addOptOut ''t2'' (addOptOut ''t1'' demo_optouts ''+447911123456'' ''inbound_sms_stop'' (Some ''STOP''))
           ''+447911123456'' ''manual'' None)
      = [\<lparr>phone_e164 = ''+447911123456'', created_at = ''t2'', source = ''manual'', opt_note = None\<rparr>]"
proof -
  have d: "distinct (map phone_e164 demo_optouts)" by (simp add: demo_optouts_def)
  note t = optout_ledger_laws [of "''t1''" demo_optouts "''+447911123456''" "''inbound_sms_stop''"
             "Some ''STOP''" "''t2''" "''t1''" "''inbound_sms_stop''" "Some ''STOP''" "''manual''" None]
  from t d show ?thesis by (simp add: truthy_def)
qed

section \<open>Evaluating the model on the example inputs\<close>

lemmas js_defs = js_space_def trim_def remove_spaces_def startsWith_def lower_char_def
  toLowerCase_def upper_letters_def lower_letters_def digit_char_def truthy_def or_else_def
  err_message_def show_nat.simps js_truthy_def js_text_def js_bind_def
  number_value_def

lemmas phone_defs = drop_plus_def normalizePhone_body_def normalizePhone_def

lemmas sqlite_defs = isOptedOut_def logSMS_def next_rowid_def createJobRunSummary_def
  no_updates_def apply_updates_def updateJobRunSummary_def

lemmas demo_defs = demo_valid_def demo_number_def demo_lib_def demo_links_def booking_a_def
  booking_b_def booking_c_def demo_world_def quoted_def invalid_phone_body_def demo_gateway_def
  demo_env_def

lemmas sender_defs = print_def read_clock_def errorMessage_of_def js_or_def sendSMS_catch_def
  sendSMS_def
  RateLimitedSMS_send_def caught_message_def caught_code_def

lemmas daily_defs = sender_defs getRandomReviewUrl_def hasReviewLinks_def
  SMS_TEMPLATE_def resolveReviewUrl_def filter_booking_def
  send_booking_def zero_stats_def runJob_def BookingRow.extend_def EligibleBooking.fields_def

lemmas hourly_defs = sender_defs
  FEATURE_NAME_def createHiveboxMessage_def isUKNumber_def log_row_def skip_logged_def
  remind_catch_def remind_sent_def remind_booking_def
  hb_zero_stats_def now_iso_def update_run_def hivebox_try_def runHiveboxReminderJob_def
  BookingRow.extend_def HiveboxBookingRow.fields_def

lemmas demo_row_defs = eligible_a_def eligible_b_def hivebox_a_def hivebox_b_def hivebox_c_def

lemma demo_runJob_stats:
  "fst (runJob demo_env None demo_world)
     = Inr \<lparr>found = 3, eligible = 2, skippedNoPhone = 0, skippedInvalidPhone = 0,
             skippedOptedOut = 0, skippedNoReviewLink = 0, skippedNonUK = 1,
             sent = 1, failed = 1\<rparr>"
  by (simp add: js_defs phone_defs sqlite_defs demo_defs daily_defs Let_def)

lemma demo_runHiveboxReminderJob_stats:
  "fst (runHiveboxReminderJob demo_env False demo_world)
     = Inr \<lparr>hb_fetched = 3, hb_sent = 1, hb_skippedOptedOut = 0, hb_skippedInvalidPhone = 0,
             hb_skippedNonUK = 1, hb_failed = 1\<rparr>"
  by (simp add: js_defs phone_defs sqlite_defs demo_defs hourly_defs Let_def)

section \<open>Properties of the two jobs\<close>

lemma normalizePhone_cases:
  obtains (invalid) "normalizePhone lib phone dc = Inr None"
        | (valid) n where "normalizePhone lib phone dc = Inr (Some n)"
  using normalizePhone_total [of lib phone dc] by (metis option.exhaust)

subsection \<open>What the steps of the daily job leave unchanged\<close>

lemma same_tables_refl [simp]: "same_tables w w"
  by (simp add: same_tables_def)

lemma same_tables_trans: "same_tables w w1 \<Longrightarrow> same_tables w1 w2 \<Longrightarrow> same_tables w w2"
  by (simp add: same_tables_def)

lemma same_tables_print [simp]: "same_tables w (print l w1) = same_tables w w1"
  by (simp add: same_tables_def print_def)

lemma getRandomReviewUrl_tables: "same_tables w (snd (getRandomReviewUrl env c fb w))"
  by (simp add: same_tables_def getRandomReviewUrl_def Let_def split: option.splits)

lemma resolveReviewUrl_tables: "same_tables w (snd (resolveReviewUrl env b w))"
proof -
  obtain u w1
    where a: "(if truthy (city b) \<and> hasReviewLinks env (the (city b))
               then getRandomReviewUrl env (the (city b)) False w else (None, w)) = (u, w1)"
    by (metis surj_pair)
  have s1: "same_tables w w1"
    using a getRandomReviewUrl_tables [of w env "the (city b)" False]
    by (auto split: if_splits)
  obtain u2 w2 where c: "getRandomReviewUrl env ''london'' False w1 = (u2, w2)"
    by (metis surj_pair)
  have "same_tables w1 w2"
    using getRandomReviewUrl_tables [of w1 env "''london''" False] c by simp
  with s1 have s2: "same_tables w w2" by (rule same_tables_trans)
  show ?thesis
    by (simp add: resolveReviewUrl_def a c s1 s2)
qed

lemma filter_booking_returns: "\<exists>st'. filter_booking env b st = Inr st'"
proof -
  obtain stats el w where st: "st = (stats, el, w)" by (cases st) auto
  show ?thesis
    by (cases rule: normalizePhone_cases [of "phonelib env" "phone_number b" "''GB''"])
       (auto simp: st filter_booking_def split: prod.splits)
qed

lemma filter_booking_tables:
  assumes "filter_booking env b (stats, el, w) = Inr (stats', el', w')"
  shows "same_tables w w'"
proof -
  have g: "\<And>u w1. resolveReviewUrl env b w = (u, w1) \<Longrightarrow> same_tables w w1"
    using resolveReviewUrl_tables by (metis snd_conv)
  from assms show ?thesis
    by (cases rule: normalizePhone_cases [of "phonelib env" "phone_number b" "''GB''"])
       (auto simp: filter_booking_def split: prod.splits if_splits dest: g)
qed

lemma filter_bookings_returns: "\<exists>st'. filter_bookings env bs st = Inr st'"
proof (induction bs arbitrary: st)
  case Nil
  show ?case by (rule exI [of _ st]) simp
next
  case (Cons b bs)
  from filter_booking_returns obtain st1 where "filter_booking env b st = Inr st1" by blast
  with Cons.IH [of st1] show ?case by simp
qed

lemma filter_bookings_tables:
  "filter_bookings env bs (stats, el, w) = Inr (stats', el', w') \<Longrightarrow> same_tables w w'"
proof (induction bs arbitrary: stats el w)
  case Nil
  then show ?case by simp
next
  case (Cons b bs)
  from filter_booking_returns obtain s1 e1 w1
    where step: "filter_booking env b (stats, el, w) = Inr (s1, e1, w1)"
    by (metis prod_cases3)
  with Cons.prems have "filter_bookings env bs (s1, e1, w1) = Inr (stats', el', w')" by simp
  from filter_booking_tables [OF step] Cons.IH [OF this] show ?case
    by (rule same_tables_trans)
qed

lemma sendSMS_tables: "same_tables w (snd (sendSMS env to message w))"
  by (simp add: sendSMS_def same_tables_def print_def read_clock_def Let_def
           split: gateway_reply.splits)

lemma send_booking_tables:
  "send_booking env b (stats, w) = (stats', w') \<Longrightarrow> same_tables w w'"
  using sendSMS_tables [of w env "phoneE164 b" "SMS_TEMPLATE (first_name b) (reviewUrl b)"]
  by (auto simp: send_booking_def RateLimitedSMS_send_def Let_def split: prod.splits sum.splits)

lemma send_bookings_tables:
  "send_bookings env el (stats, w) = (stats', w') \<Longrightarrow> same_tables w w'"
proof (induction el arbitrary: stats w)
  case Nil
  then show ?case by simp
next
  case (Cons b el)
  obtain s1 w1 where step: "send_booking env b (stats, w) = (s1, w1)"
    by (cases "send_booking env b (stats, w)")
  with Cons.prems have "send_bookings env el (s1, w1) = (stats', w')" by simp
  from send_booking_tables [OF step] Cons.IH [OF this] show ?case
    by (rule same_tables_trans)
qed

lemma runJob_tables: "same_tables w (snd (runJob env targetDate w))"
proof (cases "getYesterdayPickups env targetDate w")
  case (Inl e)
  then show ?thesis by (simp add: runJob_def)
next
  case (Inr bookings)
  let ?s0 = "zero_stats\<lparr>found := length bookings\<rparr>"
  from filter_bookings_returns obtain s1 el w1
    where f: "filter_bookings env bookings (?s0, [], w) = Inr (s1, el, w1)"
    by (metis prod_cases3)
  obtain s2 w2 where s: "send_bookings env el (s1, w1) = (s2, w2)"
    by (cases "send_bookings env el (s1, w1)")
  from filter_bookings_tables [OF f] send_bookings_tables [OF s] have "same_tables w w2"
    by (rule same_tables_trans)
  with Inr f s show ?thesis
    by (simp add: runJob_def Let_def)
qed

lemma runJob_summary: "job_run_summary (snd (runJob env targetDate w)) = job_run_summary w"
  using runJob_tables [of w env targetDate] by (simp add: same_tables_def)

subsection \<open>The checks of one candidate\<close>

lemma isUKNumber_inline:
  "isUKNumber e164 ph = (startsWith e164 ''+44'' \<or> (truthy ph \<and> startsWith (trim (the ph)) ''07''))"
  by (simp add: isUKNumber_def)

lemma filter_booking_first_failing:
  assumes "filter_booking env b (stats, el, w) = Inr (stats', el', w')"
  shows "(\<forall>r. skip_count stats' r
               = skip_count stats r + (if first_failing (spec_checks env w b) = Some r then 1 else 0))
         \<and> eligible stats' = eligible stats + (if first_failing (spec_checks env w b) = None then 1 else 0)
         \<and> length el' = length el + (if first_failing (spec_checks env w b) = None then 1 else 0)"
proof (cases rule: normalizePhone_cases [of "phonelib env" "phone_number b" "''GB''"])
  case invalid
  then have n: "normalized env b = None" by (simp add: normalized_def)
  from assms invalid show ?thesis
    by (auto simp: filter_booking_def spec_checks_def n skip_count_def
             split: if_splits SkipReason.splits)
next
  case (valid e164)
  then have n: "normalized env b = Some e164" by (simp add: normalized_def)
  obtain url w1 where u: "resolveReviewUrl env b w = (url, w1)" by (metis surj_pair)
  from assms valid show ?thesis
    by (auto simp: filter_booking_def spec_checks_def n u skip_count_def isUKNumber_inline
             split: if_splits SkipReason.splits)
qed

lemma filter_booking_keeps:
  assumes "filter_booking env b (stats, el, w) = Inr (stats', el', w')"
  shows "found stats' = found stats \<and> sent stats' = sent stats \<and> failed stats' = failed stats"
  using assms
  by (cases rule: normalizePhone_cases [of "phonelib env" "phone_number b" "''GB''"])
     (auto simp: filter_booking_def split: prod.splits if_splits)

lemma log_row_cases:
  obtains (thrown) m where "js_bind v = Inl m"
      and "log_row b ph status (Some v) w = Inl (JsError m)"
    | (logged) stored where "js_bind v = Inr stored"
      and "log_row b ph status (Some v) w
             = Inr (w\<lparr>sms_send_log := sms_send_log w
                        @ [\<lparr>log_feature = FEATURE_NAME,
                            log_booking_id = (if js_truthy (booking_id b) then Some (js_text (booking_id b)) else None),
                            log_phone = ph, log_pickup_time = Some (pickup b),
                            log_status = status, log_error = stored\<rparr>]\<rparr>)"
  by (cases "js_bind v") (auto simp: log_row_def logSMS_def)

lemma log_row_None:
  "log_row b ph status None w
     = Inr (w\<lparr>sms_send_log := sms_send_log w
                @ [\<lparr>log_feature = FEATURE_NAME,
                    log_booking_id = (if js_truthy (booking_id b) then Some (js_text (booking_id b)) else None),
                    log_phone = ph, log_pickup_time = Some (pickup b),
                    log_status = status, log_error = None\<rparr>]\<rparr>)"
  by (simp add: log_row_def logSMS_def)

lemma log_row_Str:
  "log_row b ph status (Some (Str t)) w
     = Inr (w\<lparr>sms_send_log := sms_send_log w
                @ [\<lparr>log_feature = FEATURE_NAME,
                    log_booking_id = (if js_truthy (booking_id b) then Some (js_text (booking_id b)) else None),
                    log_phone = ph, log_pickup_time = Some (pickup b),
                    log_status = status, log_error = Some t\<rparr>]\<rparr>)"
  by (simp add: log_row_def logSMS_def js_bind_def)

lemma remind_sent_eq:
  "remind_sent b n (stats, w)
     = Inr (stats\<lparr>hb_sent := hb_sent stats + 1\<rparr>,
            w\<lparr>sms_send_log := sms_send_log w
                @ [\<lparr>log_feature = FEATURE_NAME,
                    log_booking_id = (if js_truthy (booking_id b) then Some (js_text (booking_id b)) else None),
                    log_phone = n, log_pickup_time = Some (pickup b),
                    log_status = st_sent, log_error = None\<rparr>]\<rparr>)"
  by (simp add: remind_sent_def log_row_None)

lemma remind_catch_cases:
  obtains (thrown) m where "js_bind v = Inl m"
      and "remind_catch b n v (stats, w)
             = Inl (JsError m,
                    print (Err (''[HIVEBOX] Failed to send SMS to '' @ n @ '' for booking ''
                             @ js_text (booking_id b) @ '': '' @ js_text v)) w)"
    | (logged) stored where "js_bind v = Inr stored"
      and "remind_catch b n v (stats, w)
             = Inr (stats\<lparr>hb_failed := hb_failed stats + 1\<rparr>,
                    (print (Err (''[HIVEBOX] Failed to send SMS to '' @ n @ '' for booking ''
                              @ js_text (booking_id b) @ '': '' @ js_text v)) w)
                      \<lparr>sms_send_log := sms_send_log w
                         @ [\<lparr>log_feature = FEATURE_NAME,
                             log_booking_id = (if js_truthy (booking_id b) then Some (js_text (booking_id b)) else None),
                             log_phone = n, log_pickup_time = Some (pickup b),
                             log_status = st_failed, log_error = stored\<rparr>]\<rparr>)"
proof (cases "js_bind v")
  case (Inl m)
  then show ?thesis
    by (intro thrown [of m]) (simp_all add: remind_catch_def log_row_def logSMS_def Let_def)
next
  case (Inr stored)
  then show ?thesis
    by (intro logged [of stored])
       (simp_all add: remind_catch_def log_row_def logSMS_def Let_def print_def)
qed

lemma hivebox_first_failing:
  "first_failing (hivebox_checks env w b)
     = (case normalized env b of
          None \<Rightarrow> Some InvalidPhone
        | Some n \<Rightarrow>
            if \<not> isUKNumber n (phone_number b) then Some NonDomestic
            else if isOptedOut (sms_opt_out w) n then Some OptedOut else None)"
  by (simp add: hivebox_checks_def split: option.splits)

lemma remind_booking_passing:
  assumes "normalizePhone (phonelib env) (phone_number b) ''GB'' = Inr (Some n)"
    and "isUKNumber n (phone_number b)" and "\<not> isOptedOut (sms_opt_out w) n"
  shows "remind_booking env dry b (stats, w)
           = (if dry
              then remind_sent b n
                     (stats,
                      print (Log (''[HIVEBOX] [DRY RUN] Would send to '' @ n @ '' for booking ''
                               @ js_text (booking_id b) @ '': ''
                               @ createHiveboxMessage (first_name b))) w)
              else (case RateLimitedSMS_send env n (createHiveboxMessage (first_name b)) w of
                      (Inr result, w1) \<Rightarrow>
                        remind_sent b n
                          (stats,
                           print (Log (''[HIVEBOX] Sent SMS to '' @ n @ '' for booking ''
                                    @ js_text (booking_id b) @ '' (TextMagic ID: ''
                                    @ messageId result @ '')'')) w1)
                    | (Inl error, w1) \<Rightarrow> remind_catch b n (caught_message error) (stats, w1)))"
  using assms by (simp add: remind_booking_def Let_def)

lemma remind_booking_step:
  assumes "remind_booking env dry b (stats, w) = Inr (stats', w')"
  shows "(\<forall>r. hb_skip_count stats' r
               = hb_skip_count stats r
                   + (if first_failing (hivebox_checks env w b) = Some r then 1 else 0))
         \<and> hb_sent stats' + hb_failed stats'
             = hb_sent stats + hb_failed stats
                 + (if first_failing (hivebox_checks env w b) = None then 1 else 0)
         \<and> hb_fetched stats' = hb_fetched stats
         \<and> sms_opt_out w' = sms_opt_out w \<and> job_run_summary w' = job_run_summary w
         \<and> (\<exists>row. sms_send_log w' = sms_send_log w @ [row]
                \<and> (case first_failing (hivebox_checks env w b) of
                      Some r \<Rightarrow> Some (log_status row) = skip_status r
                    | None \<Rightarrow> log_status row = st_sent \<or> log_status row = st_failed))"
proof (cases rule: normalizePhone_cases [of "phonelib env" "phone_number b" "''GB''"])
  case invalid
  then have n: "normalized env b = None" by (simp add: normalized_def)
  from assms invalid show ?thesis
    by (auto simp: remind_booking_def skip_logged_def log_row_Str hivebox_first_failing n
                   hb_skip_count_def skip_status_def
             split: SkipReason.splits)
next
  case (valid n)
  then have nn: "normalized env b = Some n" by (simp add: normalized_def)
  show ?thesis
  proof (cases "isUKNumber n (phone_number b) \<and> \<not> isOptedOut (sms_opt_out w) n")
    case False
    with assms valid show ?thesis
      by (auto simp: remind_booking_def skip_logged_def log_row_Str log_row_None
                     hivebox_first_failing nn hb_skip_count_def skip_status_def
               split: SkipReason.splits if_splits)
  next
    case True
    then have ff: "first_failing (hivebox_checks env w b) = None"
      by (simp add: hivebox_first_failing nn)
    from True have p: "isUKNumber n (phone_number b)" "\<not> isOptedOut (sms_opt_out w) n" by simp_all
    note body = remind_booking_passing [OF valid p, of dry stats]
    show ?thesis
    proof (cases dry)
      case True
      with assms body show ?thesis
        by (auto simp: remind_sent_eq print_def ff hb_skip_count_def split: SkipReason.splits)
    next
      case False
      obtain r w1 where s: "RateLimitedSMS_send env n (createHiveboxMessage (first_name b)) w = (r, w1)"
        by (metis surj_pair)
      have t: "same_tables w w1"
        using sendSMS_tables [of w env n "createHiveboxMessage (first_name b)"] s
        by (simp add: RateLimitedSMS_send_def)
      show ?thesis
      proof (cases r)
        case (Inr result)
        with assms body False s t show ?thesis
          by (auto simp: remind_sent_eq print_def ff hb_skip_count_def same_tables_def
                   split: SkipReason.splits)
      next
        case (Inl error)
        show ?thesis
        proof (cases rule: remind_catch_cases [of "caught_message error" b n stats w1])
          case (thrown m)
          with assms body False s Inl show ?thesis by simp
        next
          case (logged stored)
          with assms body False s Inl t show ?thesis
            by (auto simp: print_def ff hb_skip_count_def same_tables_def
                     split: SkipReason.splits)
        qed
      qed
    qed
  qed
qed

lemma remind_booking_counts:
  assumes "remind_booking env dry b (stats, w) = Inr (stats', w')"
  shows "hb_sent stats' + hb_failed stats' + hb_skipped_total stats'
           = hb_sent stats + hb_failed stats + hb_skipped_total stats + 1"
proof -
  note s = remind_booking_step [OF assms]
  from s have k: "hb_skip_count stats' r
               = hb_skip_count stats r
                   + (if first_failing (hivebox_checks env w b) = Some r then 1 else 0)" for r
    by blast
  from k [of InvalidPhone] k [of NonDomestic] k [of OptedOut] s
  show ?thesis
    by (auto simp: hb_skipped_total_def hb_skip_count_def hivebox_first_failing
             split: option.splits if_splits)
qed

subsection \<open>Every candidate is counted once, under the first check it fails\<close>

lemma count_where_Nil [simp]: "count_where f r [] = 0"
  by (simp add: count_where_def)

lemma count_where_Cons [simp]:
  "count_where f r (b # bs) = (if f b = r then 1 else 0) + count_where f r bs"
  by (simp add: count_where_def)

lemma hivebox_checks_world:
  "sms_opt_out w1 = sms_opt_out w \<Longrightarrow> hivebox_checks env w1 b = hivebox_checks env w b"
  by (simp add: hivebox_checks_def cong: option.case_cong)

lemma remind_bookings_Cons_Inr:
  assumes "remind_bookings env dry (b # bs) st = Inr st'"
  obtains st1 where "remind_booking env dry b st = Inr st1"
    and "remind_bookings env dry bs st1 = Inr st'"
  using assms by (cases "remind_booking env dry b st") auto

lemma remind_bookings_classes:
  "remind_bookings env dry bs (stats, w) = Inr (stats', w') \<Longrightarrow> sms_opt_out w = sms_opt_out w0 \<Longrightarrow>
     (\<forall>r. hb_skip_count stats' r
            = hb_skip_count stats r
                + count_where (\<lambda>b. first_failing (hivebox_checks env w0 b)) (Some r) bs)
     \<and> hb_sent stats' + hb_failed stats'
         = hb_sent stats + hb_failed stats
             + count_where (\<lambda>b. first_failing (hivebox_checks env w0 b)) None bs
     \<and> hb_sent stats' + hb_failed stats' + hb_skipped_total stats'
         = hb_sent stats + hb_failed stats + hb_skipped_total stats + length bs
     \<and> hb_fetched stats' = hb_fetched stats
     \<and> sms_opt_out w' = sms_opt_out w0 \<and> job_run_summary w' = job_run_summary w"
proof (induction bs arbitrary: stats w)
  case Nil
  then show ?case by simp
next
  case (Cons b bs)
  from Cons.prems(1) obtain s1 w1
    where step: "remind_booking env dry b (stats, w) = Inr (s1, w1)"
      and rest: "remind_bookings env dry bs (s1, w1) = Inr (stats', w')"
    by (elim remind_bookings_Cons_Inr) (metis surj_pair)
  note s = remind_booking_step [OF step]
  from s Cons.prems(2) have o: "sms_opt_out w1 = sms_opt_out w0" by simp
  have c: "hivebox_checks env w b = hivebox_checks env w0 b"
    by (rule hivebox_checks_world [OF Cons.prems(2)])
  from s c Cons.IH [OF rest o] remind_booking_counts [OF step] show ?case
    by simp
qed

lemma getRandomReviewUrl_truthy:
  assumes "loaded_links env"
  shows "truthy (fst (getRandomReviewUrl env c False w)) = hasReviewLinks env c"
proof (cases "reviewLinksMap env (trim (toLowerCase c))")
  case None
  then show ?thesis
    by (simp add: getRandomReviewUrl_def hasReviewLinks_def truthy_def)
next
  case (Some ls)
  show ?thesis
  proof (cases "ls = []")
    case True
    with Some show ?thesis
      by (simp add: getRandomReviewUrl_def hasReviewLinks_def truthy_def)
  next
    case False
    from assms Some have "list_all (\<lambda>l. google_review_url l \<noteq> []) ls"
      by (simp add: loaded_links_def)
    moreover from False have "mathRandom env (random_draws w) mod length ls < length ls" by simp
    ultimately have "google_review_url (ls ! (mathRandom env (random_draws w) mod length ls)) \<noteq> []"
      by (simp add: list_all_length)
    with Some False show ?thesis
      by (simp add: getRandomReviewUrl_def hasReviewLinks_def truthy_def)
  qed
qed

lemma resolveReviewUrl_truthy:
  assumes "loaded_links env"
  shows "truthy (fst (resolveReviewUrl env b w))
           = ((truthy (city b) \<and> hasReviewLinks env (the (city b))) \<or> hasReviewLinks env ''london'')"
proof (cases "truthy (city b) \<and> hasReviewLinks env (the (city b))")
  case True
  obtain u w1 where g: "getRandomReviewUrl env (the (city b)) False w = (u, w1)"
    by (metis surj_pair)
  from getRandomReviewUrl_truthy [OF assms, of "the (city b)" w] g True have "truthy u" by simp
  with True g show ?thesis
    by (simp add: resolveReviewUrl_def)
next
  case False
  obtain u2 w2 where g: "getRandomReviewUrl env ''london'' False w = (u2, w2)"
    by (metis surj_pair)
  from getRandomReviewUrl_truthy [OF assms, of "''london''" w] g
  have "truthy u2 = hasReviewLinks env ''london''" by simp
  with False g show ?thesis
    by (auto simp: resolveReviewUrl_def truthy_def)
qed

lemma spec_checks_world:
  "loaded_links env \<Longrightarrow> sms_opt_out w1 = sms_opt_out w \<Longrightarrow> spec_checks env w1 b = spec_checks env w b"
  by (simp add: spec_checks_def resolveReviewUrl_truthy cong: option.case_cong)

lemma filter_bookings_classes:
  assumes l: "loaded_links env"
  shows "filter_bookings env bs (stats, el, w) = Inr (stats', el', w') \<Longrightarrow>
     sms_opt_out w = sms_opt_out w0 \<Longrightarrow>
     (\<forall>r. skip_count stats' r
            = skip_count stats r + count_where (\<lambda>b. first_failing (spec_checks env w0 b)) (Some r) bs)
     \<and> eligible stats' = eligible stats + count_where (\<lambda>b. first_failing (spec_checks env w0 b)) None bs
     \<and> length el' = length el + count_where (\<lambda>b. first_failing (spec_checks env w0 b)) None bs
     \<and> found stats' = found stats \<and> sent stats' = sent stats \<and> failed stats' = failed stats"
proof (induction bs arbitrary: stats el w)
  case Nil
  then show ?case by simp
next
  case (Cons b bs)
  from filter_booking_returns obtain s1 e1 w1
    where step: "filter_booking env b (stats, el, w) = Inr (s1, e1, w1)"
    by (metis prod_cases3)
  with Cons.prems(1) have rest: "filter_bookings env bs (s1, e1, w1) = Inr (stats', el', w')"
    by simp
  from filter_booking_tables [OF step] Cons.prems(2) have o: "sms_opt_out w1 = sms_opt_out w0"
    by (simp add: same_tables_def)
  have c: "spec_checks env w b = spec_checks env w0 b"
    by (rule spec_checks_world [OF l Cons.prems(2)])
  from filter_booking_first_failing [OF step] filter_booking_keeps [OF step] c
    Cons.IH [OF rest o]
  show ?case by simp
qed

lemma skipped_total_sum:
  "skipped_total s = skip_count s NoPhone + skip_count s InvalidPhone + skip_count s NonDomestic
                       + skip_count s OptedOut + skip_count s NoReviewLink"
  by (simp add: skipped_total_def skip_count_def)

lemma send_booking_counts:
  "send_booking env b (stats, w) = (stats', w') \<Longrightarrow>
     sent stats' + failed stats' = sent stats + failed stats + 1
     \<and> eligible stats' = eligible stats \<and> found stats' = found stats
     \<and> (\<forall>r. skip_count stats' r = skip_count stats r)"
  by (auto simp: send_booking_def skip_count_def Let_def split: prod.splits sum.splits SkipReason.splits)

lemma send_bookings_counts:
  "send_bookings env el (stats, w) = (stats', w') \<Longrightarrow>
     sent stats' + failed stats' = sent stats + failed stats + length el
     \<and> eligible stats' = eligible stats \<and> found stats' = found stats
     \<and> (\<forall>r. skip_count stats' r = skip_count stats r)"
proof (induction el arbitrary: stats w)
  case Nil
  then show ?case by simp
next
  case (Cons b el)
  obtain s1 w1 where step: "send_booking env b (stats, w) = (s1, w1)"
    by (cases "send_booking env b (stats, w)")
  with Cons.prems have "send_bookings env el (s1, w1) = (stats', w')" by simp
  from send_booking_counts [OF step] Cons.IH [OF this] show ?case by simp
qed

lemma count_where_total:
  "count_where f None bs + count_where f (Some NoPhone) bs + count_where f (Some InvalidPhone) bs
     + count_where f (Some NonDomestic) bs + count_where f (Some OptedOut) bs
     + count_where f (Some NoReviewLink) bs = length bs"
proof (induction bs)
  case Nil
  show ?case by simp
next
  case (Cons b bs)
  then show ?case
    by (cases "f b"; cases "the (f b)") auto
qed

lemma runJob_counts:
  assumes l: "loaded_links env"
    and q: "getYesterdayPickups env targetDate w = Inr bookings"
    and r: "runJob env targetDate w = (Inr stats, w')"
  shows "found stats = length bookings"
    and "\<forall>r. skip_count stats r
               = count_where (\<lambda>b. first_failing (spec_checks env w b)) (Some r) bookings"
    and "eligible stats = count_where (\<lambda>b. first_failing (spec_checks env w b)) None bookings"
    and "eligible stats = sent stats + failed stats"
    and "found stats = eligible stats + skipped_total stats"
proof -
  let ?s0 = "zero_stats\<lparr>found := length bookings\<rparr>"
  let ?f = "\<lambda>b. first_failing (spec_checks env w b)"
  have z: "skip_count ?s0 k = 0" "eligible ?s0 = 0" "sent ?s0 = 0" "failed ?s0 = 0"
    "found ?s0 = length bookings" for k
    by (simp_all add: zero_stats_def skip_count_def split: SkipReason.splits)
  have all: "found stats = length bookings
      \<and> (\<forall>r. skip_count stats r = count_where ?f (Some r) bookings)
      \<and> eligible stats = count_where ?f None bookings
      \<and> eligible stats = sent stats + failed stats"
  proof (cases "bookings = []")
    case True
    with q r have "stats = ?s0" by (simp add: runJob_def)
    with True z show ?thesis by simp
  next
    case False
    from filter_bookings_returns obtain s1 el w1
      where f: "filter_bookings env bookings (?s0, [], w) = Inr (s1, el, w1)"
      by (metis prod_cases3)
    obtain s2 w2 where s: "send_bookings env el (s1, w1) = (s2, w2)"
      by (cases "send_bookings env el (s1, w1)")
    from q False f s r have e: "stats = s2" by (simp add: runJob_def Let_def)
    from filter_bookings_classes [OF l f refl] send_bookings_counts [OF s] z e
    show ?thesis by simp
  qed
  from all show "found stats = length bookings"
    and c: "\<forall>r. skip_count stats r = count_where ?f (Some r) bookings"
    and "eligible stats = count_where ?f None bookings"
    and "eligible stats = sent stats + failed stats"
    by blast+
  from all count_where_total [of ?f bookings]
  show "found stats = eligible stats + skipped_total stats"
    by (simp add: skipped_total_sum)
qed

lemma filter_booking_counts:
  assumes "filter_booking env b (stats, el, w) = Inr (stats', el', w')"
  shows "eligible stats' + skipped_total stats' = eligible stats + skipped_total stats + 1
         \<and> eligible stats' + length el = eligible stats + length el'"
  using assms
  by (cases rule: normalizePhone_cases [of "phonelib env" "phone_number b" "''GB''"])
     (auto simp: filter_booking_def skipped_total_def split: prod.splits if_splits)

lemma filter_bookings_counts:
  "filter_bookings env bs (stats, el, w) = Inr (stats', el', w') \<Longrightarrow>
     eligible stats' + skipped_total stats' = eligible stats + skipped_total stats + length bs
     \<and> eligible stats' + length el = eligible stats + length el'
     \<and> found stats' = found stats \<and> sent stats' = sent stats \<and> failed stats' = failed stats"
proof (induction bs arbitrary: stats el w)
  case Nil
  then show ?case by simp
next
  case (Cons b bs)
  from filter_booking_returns obtain s1 e1 w1
    where step: "filter_booking env b (stats, el, w) = Inr (s1, e1, w1)"
    by (metis prod_cases3)
  with Cons.prems have rest: "filter_bookings env bs (s1, e1, w1) = Inr (stats', el', w')"
    by simp
  from filter_booking_counts [OF step] filter_booking_keeps [OF step] Cons.IH [OF rest]
  show ?case by simp
qed

lemma runJob_conserves:
  assumes q: "getYesterdayPickups env targetDate w = Inr bookings"
    and r: "runJob env targetDate w = (Inr stats, w')"
  shows "found stats = length bookings \<and> found stats = eligible stats + skipped_total stats
         \<and> eligible stats = sent stats + failed stats"
proof (cases "bookings = []")
  case True
  with q r show ?thesis
    by (auto simp: runJob_def zero_stats_def skipped_total_def)
next
  case False
  let ?s0 = "zero_stats\<lparr>found := length bookings\<rparr>"
  from filter_bookings_returns obtain s1 el w1
    where f: "filter_bookings env bookings (?s0, [], w) = Inr (s1, el, w1)"
    by (metis prod_cases3)
  obtain s2 w2 where s: "send_bookings env el (s1, w1) = (s2, w2)"
    by (cases "send_bookings env el (s1, w1)")
  from q False f s r have e: "stats = s2" by (simp add: runJob_def Let_def)
  have z: "eligible ?s0 = 0" "skipped_total ?s0 = 0" "found ?s0 = length bookings"
    "sent ?s0 = 0" "failed ?s0 = 0"
    by (simp_all add: zero_stats_def skipped_total_def)
  from send_bookings_counts [OF s] have k: "skipped_total s2 = skipped_total s1"
    by (simp add: skipped_total_sum)
  from filter_bookings_counts [OF f] send_bookings_counts [OF s] z k e show ?thesis
    by simp
qed

lemma runHiveboxReminderJob_started:
  assumes "truthy (dateTimeNowISO env (clock_reads w))"
  shows "runHiveboxReminderJob env dry w =
           (case hivebox_try env dry (next_rowid (job_run_summary w)) (started_world env w) of
              Inr (stats, w1) \<Rightarrow> (Inr stats, w1)
            | Inl (error, w1) \<Rightarrow>
                (Inl error,
                 update_run (next_rowid (job_run_summary w))
                   (no_updates\<lparr>upd_finished_at := Some (dateTimeNowISO env (clock_reads w1)),
                                upd_error := Some (Some (err_message error))\<rparr>)
                   (read_clock w1)))"
  using assms
  by (simp add: runHiveboxReminderJob_def now_iso_def started_world_def createJobRunSummary_def
                read_clock_def split: prod.splits sum.splits)

lemma runHiveboxReminderJob_Inr:
  assumes "runHiveboxReminderJob env dry w = (Inr stats, w')"
  shows "truthy (dateTimeNowISO env (clock_reads w))"
    and "hivebox_try env dry (next_rowid (job_run_summary w)) (started_world env w) = Inr (stats, w')"
proof -
  show t: "truthy (dateTimeNowISO env (clock_reads w))"
    using assms by (auto simp: runHiveboxReminderJob_def now_iso_def split: if_splits)
  from assms show "hivebox_try env dry (next_rowid (job_run_summary w)) (started_world env w)
                     = Inr (stats, w')"
    unfolding runHiveboxReminderJob_started [OF t]
    by (auto split: sum.splits prod.splits)
qed

lemma hivebox_try_counts:
  assumes q: "getHiveboxPreviousHourPickups env w = Inr bookings"
    and r: "hivebox_try env dry rid w = Inr (stats, w')"
    and o: "sms_opt_out w = sms_opt_out w0"
  shows "hb_fetched stats = length bookings
         \<and> (\<forall>r. hb_skip_count stats r
                  = count_where (\<lambda>b. first_failing (hivebox_checks env w0 b)) (Some r) bookings)
         \<and> hb_sent stats + hb_failed stats
             = count_where (\<lambda>b. first_failing (hivebox_checks env w0 b)) None bookings
         \<and> hb_fetched stats = hb_sent stats + hb_failed stats + hb_skipped_total stats"
proof (cases "bookings = []")
  case True
  with q r show ?thesis
    by (auto simp: hivebox_try_def hb_zero_stats_def hb_skipped_total_def hb_skip_count_def Let_def
             split: prod.splits SkipReason.splits)
next
  case False
  let ?s0 = "hb_zero_stats\<lparr>hb_fetched := length bookings\<rparr>"
  let ?w1 = "update_run rid (no_updates\<lparr>upd_fetched_count := Some (length bookings)\<rparr>) w"
  from q False r obtain s1 w1
    where l: "remind_bookings env dry bookings (?s0, ?w1) = Inr (s1, w1)" and e: "stats = s1"
    by (auto simp: hivebox_try_def Let_def split: sum.splits prod.splits)
  have o1: "sms_opt_out ?w1 = sms_opt_out w0"
    using o by (simp add: update_run_def)
  have z: "hb_skip_count ?s0 k = 0" "hb_skipped_total ?s0 = 0" "hb_sent ?s0 = 0" "hb_failed ?s0 = 0"
    "hb_fetched ?s0 = length bookings" for k
    by (simp_all add: hb_zero_stats_def hb_skip_count_def hb_skipped_total_def
          split: SkipReason.splits)
  from remind_bookings_classes [OF l o1] z e show ?thesis by simp
qed

lemma runHiveboxReminderJob_counts:
  assumes q: "getHiveboxPreviousHourPickups env (started_world env w) = Inr bookings"
    and r: "runHiveboxReminderJob env dry w = (Inr stats, w')"
  shows "hb_fetched stats = length bookings
         \<and> (\<forall>r. hb_skip_count stats r
                  = count_where (\<lambda>b. first_failing (hivebox_checks env w b)) (Some r) bookings)
         \<and> hb_sent stats + hb_failed stats
             = count_where (\<lambda>b. first_failing (hivebox_checks env w b)) None bookings
         \<and> hb_fetched stats = hb_sent stats + hb_failed stats + hb_skipped_total stats"
proof -
  have o: "sms_opt_out (started_world env w) = sms_opt_out w"
    by (simp add: started_world_def read_clock_def)
  from hivebox_try_counts [OF q runHiveboxReminderJob_Inr(2) [OF r] o] show ?thesis .
qed

text \<open>
  C10. The counts that a completed run returns are conserved, and every fetched
  candidate is counted exactly once. Daily job: \<open>found\<close> is the number of rows that
  the query returned; \<open>found\<close> equals \<open>eligible\<close> plus the five skip counters and
  \<open>eligible\<close> equals \<open>sent\<close> plus \<open>failed\<close>; and, for a map of review links as
  \<open>loadReviewLinks\<close> builds it, each skip counter is the number of rows whose first
  failing check is the check of that counter, and \<open>eligible\<close> the number of rows that
  pass all five. Hourly job: \<open>fetched\<close> is the number of rows that the query returned
  and equals \<open>sent\<close> plus \<open>failed\<close> plus the three skip counters; each skip counter is
  the number of rows whose first failing check is the check of that counter, and
  \<open>sent\<close> plus \<open>failed\<close> the number of rows that pass all three.
\<close>

theorem run_counts_conserved:
  "(getYesterdayPickups env targetDate w = Inr bookings
      \<and> runJob env targetDate w = (Inr stats, w') \<longrightarrow>
      found stats = length bookings
      \<and> found stats = eligible stats + skipped_total stats
      \<and> eligible stats = sent stats + failed stats
      \<and> (loaded_links env \<longrightarrow>
           (\<forall>r. skip_count stats r
                  = count_where (\<lambda>b. first_failing (spec_checks env w b)) (Some r) bookings)
           \<and> eligible stats
               = count_where (\<lambda>b. first_failing (spec_checks env w b)) None bookings))
   \<and> (getHiveboxPreviousHourPickups env (started_world env w) = Inr hbookings
      \<and> runHiveboxReminderJob env dryRun w = (Inr hstats, hw') \<longrightarrow>
      hb_fetched hstats = length hbookings
      \<and> hb_fetched hstats = hb_sent hstats + hb_failed hstats + hb_skipped_total hstats
      \<and> (\<forall>r. hb_skip_count hstats r
               = count_where (\<lambda>b. first_failing (hivebox_checks env w b)) (Some r) hbookings)
      \<and> hb_sent hstats + hb_failed hstats
          = count_where (\<lambda>b. first_failing (hivebox_checks env w b)) None hbookings)"
proof (intro conjI impI)
  assume a: "getYesterdayPickups env targetDate w = Inr bookings
             \<and> runJob env targetDate w = (Inr stats, w')"
  then have q: "getYesterdayPickups env targetDate w = Inr bookings"
    and r: "runJob env targetDate w = (Inr stats, w')" by simp_all
  from runJob_conserves [OF q r] show "found stats = length bookings"
    and "found stats = eligible stats + skipped_total stats"
    and "eligible stats = sent stats + failed stats" by simp_all
  assume l: "loaded_links env"
  show "\<forall>r. skip_count stats r
               = count_where (\<lambda>b. first_failing (spec_checks env w b)) (Some r) bookings"
    by (rule runJob_counts(2) [OF l q r])
  show "eligible stats = count_where (\<lambda>b. first_failing (spec_checks env w b)) None bookings"
    by (rule runJob_counts(3) [OF l q r])
next
  assume a: "getHiveboxPreviousHourPickups env (started_world env w) = Inr hbookings
             \<and> runHiveboxReminderJob env dryRun w = (Inr hstats, hw')"
  then have q: "getHiveboxPreviousHourPickups env (started_world env w) = Inr hbookings"
    and r: "runHiveboxReminderJob env dryRun w = (Inr hstats, hw')" by simp_all
  note c = runHiveboxReminderJob_counts [OF q r]
  from c show "hb_fetched hstats = length hbookings" by simp
  from c show "hb_fetched hstats = hb_sent hstats + hb_failed hstats + hb_skipped_total hstats"
    by simp
  from c show "\<forall>r. hb_skip_count hstats r
               = count_where (\<lambda>b. first_failing (hivebox_checks env w b)) (Some r) hbookings"
    by simp
  from c show "hb_sent hstats + hb_failed hstats
          = count_where (\<lambda>b. first_failing (hivebox_checks env w b)) None hbookings"
    by simp
qed

lemma demo_loaded_links: "loaded_links demo_env"
  by (simp add: loaded_links_def demo_env_def demo_links_def)

lemma demo_spec_classes:
  "map (\<lambda>b. first_failing (spec_checks demo_env demo_world b)) [booking_a, booking_b, booking_c]
     = [None, None, Some NonDomestic]"
  by (simp add: spec_checks_def normalized_def isUKNumber_def js_defs phone_defs sqlite_defs
        demo_defs daily_defs Let_def)

lemma demo_hivebox_classes:
  "map (\<lambda>b. first_failing (hivebox_checks demo_env demo_world b)) [hivebox_a, hivebox_b, hivebox_c]
     = [None, None, Some NonDomestic]"
  by (simp add: hivebox_checks_def normalized_def isUKNumber_def js_defs phone_defs sqlite_defs
        demo_defs demo_row_defs hourly_defs Let_def)

theorem run_counts_conserved_witness:
  "getYesterdayPickups demo_env None demo_world = Inr [booking_a, booking_b, booking_c]
   \<and> fst (runJob demo_env None demo_world)
       = Inr \<lparr>found = 3, eligible = 2, skippedNoPhone = 0, skippedInvalidPhone = 0,
               skippedOptedOut = 0, skippedNoReviewLink = 0, skippedNonUK = 1,
               sent = 1, failed = 1\<rparr>
   \<and> loaded_links demo_env
   \<and> map (\<lambda>b. first_failing (spec_checks demo_env demo_world b)) [booking_a, booking_b, booking_c]
       = [None, None, Some NonDomestic]
   \<and> (3::nat) = length [booking_a, booking_b, booking_c]
   \<and> (3::nat) = 2 + skipped_total \<lparr>found = 3, eligible = 2, skippedNoPhone = 0,
             skippedInvalidPhone = 0, skippedOptedOut = 0, skippedNoReviewLink = 0,
             skippedNonUK = 1, sent = 1, failed = 1\<rparr>
   \<and> (2::nat) = 1 + 1
   \<and> (1::nat) = count_where (\<lambda>b. first_failing (spec_checks demo_env demo_world b))
                   (Some NonDomestic) [booking_a, booking_b, booking_c]
   \<and> (2::nat) = count_where (\<lambda>b. first_failing (spec_checks demo_env demo_world b))
                   None [booking_a, booking_b, booking_c]
   \<and> getHiveboxPreviousHourPickups demo_env (started_world demo_env demo_world)
       = Inr [hivebox_a, hivebox_b, hivebox_c]
   \<and> fst (runHiveboxReminderJob demo_env False demo_world)
       = Inr \<lparr>hb_fetched = 3, hb_sent = 1, hb_skippedOptedOut = 0, hb_skippedInvalidPhone = 0,
               hb_skippedNonUK = 1, hb_failed = 1\<rparr>
   \<and> (3::nat) = length [hivebox_a, hivebox_b, hivebox_c]
   \<and> (3::nat) = 1 + 1 + hb_skipped_total \<lparr>hb_fetched = 3, hb_sent = 1, hb_skippedOptedOut = 0,
             hb_skippedInvalidPhone = 0, hb_skippedNonUK = 1, hb_failed = 1\<rparr>
   \<and> (1::nat) = count_where (\<lambda>b. first_failing (hivebox_checks demo_env demo_world b))
                   (Some NonDomestic) [hivebox_a, hivebox_b, hivebox_c]
   \<and> (1::nat) + 1 = count_where (\<lambda>b. first_failing (hivebox_checks demo_env demo_world b))
                   None [hivebox_a, hivebox_b, hivebox_c]"
proof -
  let ?s = "\<lparr>found = 3, eligible = 2, skippedNoPhone = 0, skippedInvalidPhone = 0,
             skippedOptedOut = 0, skippedNoReviewLink = 0, skippedNonUK = 1,
             sent = 1, failed = 1\<rparr>"
  let ?h = "\<lparr>hb_fetched = 3, hb_sent = 1, hb_skippedOptedOut = 0, hb_skippedInvalidPhone = 0,
             hb_skippedNonUK = 1, hb_failed = 1\<rparr>"
  let ?f = "\<lambda>b. first_failing (spec_checks demo_env demo_world b)"
  let ?g = "\<lambda>b. first_failing (hivebox_checks demo_env demo_world b)"
  have q: "getYesterdayPickups demo_env None demo_world = Inr [booking_a, booking_b, booking_c]"
    by (simp add: demo_env_def)
  have hq: "getHiveboxPreviousHourPickups demo_env (started_world demo_env demo_world)
              = Inr [hivebox_a, hivebox_b, hivebox_c]"
    by (simp add: demo_env_def demo_row_defs)
  have d: "runJob demo_env None demo_world = (Inr ?s, snd (runJob demo_env None demo_world))"
    using demo_runJob_stats by (simp add: prod_eq_iff)
  have h: "runHiveboxReminderJob demo_env False demo_world
             = (Inr ?h, snd (runHiveboxReminderJob demo_env False demo_world))"
    using demo_runHiveboxReminderJob_stats by (simp add: prod_eq_iff)
  note t = run_counts_conserved
             [where env = demo_env and targetDate = None and w = demo_world
                and bookings = "[booking_a, booking_b, booking_c]" and stats = ?s
                and w' = "snd (runJob demo_env None demo_world)" and dryRun = False
                and hbookings = "[hivebox_a, hivebox_b, hivebox_c]" and hstats = ?h
                and hw' = "snd (runHiveboxReminderJob demo_env False demo_world)"]
  from t q d demo_loaded_links
  have c1: "found ?s = length [booking_a, booking_b, booking_c]"
    and c2: "found ?s = eligible ?s + skipped_total ?s"
    and c3: "eligible ?s = sent ?s + failed ?s"
    and c4: "skip_count ?s NonDomestic = count_where ?f (Some NonDomestic) [booking_a, booking_b, booking_c]"
    and c5: "eligible ?s = count_where ?f None [booking_a, booking_b, booking_c]"
    by blast+
  from t hq h
  have k1: "hb_fetched ?h = length [hivebox_a, hivebox_b, hivebox_c]"
    and k2: "hb_fetched ?h = hb_sent ?h + hb_failed ?h + hb_skipped_total ?h"
    and k3: "hb_skip_count ?h NonDomestic = count_where ?g (Some NonDomestic) [hivebox_a, hivebox_b, hivebox_c]"
    and k4: "hb_sent ?h + hb_failed ?h = count_where ?g None [hivebox_a, hivebox_b, hivebox_c]"
    by blast+
  from c1 have c1': "(3::nat) = length [booking_a, booking_b, booking_c]" by simp
  from c2 have c2': "(3::nat) = 2 + skipped_total ?s" by simp
  have c3': "(2::nat) = 1 + 1" by simp
  from c4 have c4': "(1::nat) = count_where ?f (Some NonDomestic) [booking_a, booking_b, booking_c]"
    by (simp add: skip_count_def)
  from c5 have c5': "(2::nat) = count_where ?f None [booking_a, booking_b, booking_c]" by simp
  from k1 have k1': "(3::nat) = length [hivebox_a, hivebox_b, hivebox_c]" by simp
  from k2 have k2': "(3::nat) = 1 + 1 + hb_skipped_total ?h" by simp
  from k3 have k3': "(1::nat) = count_where ?g (Some NonDomestic) [hivebox_a, hivebox_b, hivebox_c]"
    by (simp add: hb_skip_count_def)
  from k4 have k4': "(1::nat) + 1 = count_where ?g None [hivebox_a, hivebox_b, hivebox_c]" by simp
  show ?thesis
    by (intro conjI q demo_runJob_stats demo_loaded_links demo_spec_classes c1' c2' c3' c4' c5'
          hq demo_runHiveboxReminderJob_stats k1' k2' k3' k4')
qed

subsection \<open>A send failure\<close>

lemma send_bookings_append:
  "send_bookings env (xs @ ys) st = send_bookings env ys (send_bookings env xs st)"
  by (induction xs arbitrary: st) auto

lemma remind_bookings_append:
  "remind_bookings env dry xs st = Inr st1 \<Longrightarrow>
     remind_bookings env dry (xs @ ys) st = remind_bookings env dry ys st1"
  by (induction xs arbitrary: st) (auto split: sum.splits)

text \<open>
  In the daily job a send failure is counted and printed with its code and message, and
  the loop goes on with the bookings after it.
\<close>

lemma daily_failure_is_contained:
  assumes "send_bookings env pre (stats, w) = (s1, w1)"
    and "RateLimitedSMS_send env (phoneE164 b) (SMS_TEMPLATE (first_name b) (reviewUrl b)) w1
           = (Inl e, w2)"
  shows "send_bookings env (pre @ b # post) (stats, w)
           = send_bookings env post
               (s1\<lparr>failed := failed s1 + 1\<rparr>,
                print (Err (''[JOB] Failed to send SMS to '' @ phoneE164 b @ '' for booking ''
                         @ js_text (booking_id b) @ '': ['' @ js_text (caught_code e) @ ''] ''
                         @ js_text (caught_message e))) w2)"
  using assms by (simp add: send_bookings_append send_booking_def Let_def)

lemma demo_daily_failure:
  "send_bookings demo_env [eligible_b, eligible_a] (zero_stats, demo_world)
     = (zero_stats\<lparr>sent := 1, failed := 1\<rparr>,
        demo_world
          \<lparr>requests := [(''+447911000000'', SMS_TEMPLATE None ''https://g.page/b''),
                        (''+447911123456'', SMS_TEMPLATE (Some ''Ann'') ''https://g.page/a'')],
           console :=
             [ErrObject ''[TEXTMAGIC] API Error:''
                [(''status'', ''400''), (''statusText'', ''Bad Request''),
                 (''errorData'', body_text invalid_phone_body),
                 (''phone'', ''+447911000000''), (''messageLength'', ''74''),
                 (''messagePreview'',
                  ''Hi'' @ [CHR 0x0A] @ ''Stasher would love your feedback! Leave a revie...'')],
              Err ''[JOB] Failed to send SMS to +447911000000 for booking 2: [400] Invalid phone'',
              Log ''[JOB] Sent SMS to +447911123456 for booking 1 (TextMagic ID: 7001, City: London)'']\<rparr>)"
  by (simp add: js_defs demo_defs demo_row_defs daily_defs Let_def)

text \<open>
  In the hourly job a send failure whose message can be bound to the statement of
  \<open>logSMS\<close> is counted, printed and logged as a \<open>failed\<close> row with the message, and
  the loop goes on. A failure whose message cannot be bound is counted and printed, then
  \<open>logSMS\<close> throws in the \<open>catch\<close> block, and the loop is left with that exception.
\<close>

lemma hourly_failure_is_contained:
  assumes "remind_bookings env False pre (stats, w) = Inr (s1, w1)"
    and "normalizePhone (phonelib env) (phone_number b) ''GB'' = Inr (Some n)"
    and "isUKNumber n (phone_number b)" and "\<not> isOptedOut (sms_opt_out w1) n"
    and "RateLimitedSMS_send env n (createHiveboxMessage (first_name b)) w1 = (Inl e, w2)"
    and "js_bind (caught_message e) = Inr stored"
  shows "remind_bookings env False (pre @ b # post) (stats, w)
           = remind_bookings env False post
               (s1\<lparr>hb_failed := hb_failed s1 + 1\<rparr>,
                (print (Err (''[HIVEBOX] Failed to send SMS to '' @ n @ '' for booking ''
                          @ js_text (booking_id b) @ '': '' @ js_text (caught_message e))) w2)
                  \<lparr>sms_send_log := sms_send_log w2
                     @ [\<lparr>log_feature = FEATURE_NAME,
                         log_booking_id = (if js_truthy (booking_id b) then Some (js_text (booking_id b)) else None),
                         log_phone = n, log_pickup_time = Some (pickup b),
                         log_status = st_failed, log_error = stored\<rparr>]\<rparr>)"
proof -
  have "remind_booking env False b (s1, w1) = remind_catch b n (caught_message e) (s1, w2)"
    using assms(2-5) by (simp add: remind_booking_passing)
  also have "\<dots> = Inr (s1\<lparr>hb_failed := hb_failed s1 + 1\<rparr>,
                (print (Err (''[HIVEBOX] Failed to send SMS to '' @ n @ '' for booking ''
                          @ js_text (booking_id b) @ '': '' @ js_text (caught_message e))) w2)
                  \<lparr>sms_send_log := sms_send_log w2
                     @ [\<lparr>log_feature = FEATURE_NAME,
                         log_booking_id = (if js_truthy (booking_id b) then Some (js_text (booking_id b)) else None),
                         log_phone = n, log_pickup_time = Some (pickup b),
                         log_status = st_failed, log_error = stored\<rparr>]\<rparr>)"
    using assms(6) by (cases rule: remind_catch_cases [of "caught_message e" b n s1 w2]) simp_all
  finally show ?thesis
    using assms(1) by (simp add: remind_bookings_append)
qed

lemma hourly_failure_leaves_loop:
  assumes "remind_bookings env False pre (stats, w) = Inr (s1, w1)"
    and "normalizePhone (phonelib env) (phone_number b) ''GB'' = Inr (Some n)"
    and "isUKNumber n (phone_number b)" and "\<not> isOptedOut (sms_opt_out w1) n"
    and "RateLimitedSMS_send env n (createHiveboxMessage (first_name b)) w1 = (Inl e, w2)"
    and "js_bind (caught_message e) = Inl m"
  shows "remind_bookings env False (pre @ b # post) (stats, w)
           = Inl (JsError m,
                  print (Err (''[HIVEBOX] Failed to send SMS to '' @ n @ '' for booking ''
                           @ js_text (booking_id b) @ '': '' @ js_text (caught_message e))) w2)"
proof -
  have "remind_booking env False b (s1, w1) = remind_catch b n (caught_message e) (s1, w2)"
    using assms(2-5) by (simp add: remind_booking_passing)
  also have "\<dots> = Inl (JsError m,
                  print (Err (''[HIVEBOX] Failed to send SMS to '' @ n @ '' for booking ''
                           @ js_text (booking_id b) @ '': '' @ js_text (caught_message e))) w2)"
    using assms(6) by (cases rule: remind_catch_cases [of "caught_message e" b n s1 w2]) simp_all
  finally show ?thesis
    using assms(1) by (simp add: remind_bookings_append)
qed

lemmas object_defs = object_env_def object_gateway_def object_body_def object_message_def

text \<open>
  C3 fails on the code, in the hourly job. The gateway refuses the first of two
  candidates with status 400 and a body whose \<open>message\<close> is an object. The inner
  \<open>catch\<close> block prints the failure and calls \<open>logSMS\<close> with that object as the
  error of the row; \<open>stmt.run\<close> cannot bind it and throws. The exception leaves the
  loop: the run ends with it, the second candidate is never sent to, no row reaches the
  send log, and the summary row is stamped with the error of the statement. With the same
  rows and a refusal whose message is a string, the failure is logged and the second
  candidate is sent to.
\<close>

theorem unstorable_error_aborts_hourly_run:
  "getHiveboxPreviousHourPickups object_env (started_world object_env demo_world)
     = Inr [hivebox_b, hivebox_a]
   \<and> gateway object_env 0 ''+447911000000'' (createHiveboxMessage (first_name hivebox_b))
       = Refused 400 ''Bad Request'' object_body
   \<and> body_message object_body
       = Some (Other True ''[object Object]'' (Inl ''Too few parameter values were provided''))
   \<and> fst (runHiveboxReminderJob object_env False demo_world)
       = Inl (JsError ''Too few parameter values were provided'')
   \<and> map fst (requests (snd (runHiveboxReminderJob object_env False demo_world)))
       = [''+447911000000'']
   \<and> sms_send_log (snd (runHiveboxReminderJob object_env False demo_world)) = []
   \<and> map run_error (job_run_summary (snd (runHiveboxReminderJob object_env False demo_world)))
       = [Some ''Too few parameter values were provided'']
   \<and> fst (runHiveboxReminderJob (object_env\<lparr>gateway := demo_gateway\<rparr>) False demo_world)
       = Inr \<lparr>hb_fetched = 2, hb_sent = 1, hb_skippedOptedOut = 0, hb_skippedInvalidPhone = 0,
               hb_skippedNonUK = 0, hb_failed = 1\<rparr>
   \<and> map fst (requests (snd (runHiveboxReminderJob (object_env\<lparr>gateway := demo_gateway\<rparr>)
                                 False demo_world)))
       = [''+447911000000'', ''+447911123456'']
   \<and> map (\<lambda>r. (log_status r, log_error r))
         (sms_send_log (snd (runHiveboxReminderJob (object_env\<lparr>gateway := demo_gateway\<rparr>)
                               False demo_world)))
       = [(st_failed, Some ''Invalid phone''), (st_sent, None)]"
proof -
  have a: "getHiveboxPreviousHourPickups object_env (started_world object_env demo_world)
             = Inr [hivebox_b, hivebox_a]"
    by (simp add: object_env_def)
  have b: "gateway object_env 0 ''+447911000000'' (createHiveboxMessage (first_name hivebox_b))
             = Refused 400 ''Bad Request'' object_body"
    by (simp add: object_env_def object_gateway_def)
  have c: "body_message object_body
             = Some (Other True ''[object Object]'' (Inl ''Too few parameter values were provided''))"
    by (simp add: object_body_def object_message_def)
  have r: "fst (runHiveboxReminderJob object_env False demo_world)
             = Inl (JsError ''Too few parameter values were provided'')"
    "map fst (requests (snd (runHiveboxReminderJob object_env False demo_world)))
       = [''+447911000000'']"
    "sms_send_log (snd (runHiveboxReminderJob object_env False demo_world)) = []"
    "map run_error (job_run_summary (snd (runHiveboxReminderJob object_env False demo_world)))
       = [Some ''Too few parameter values were provided'']"
    by (simp_all add: object_defs demo_row_defs js_defs phone_defs sqlite_defs demo_defs
          hourly_defs Let_def)
  have s: "fst (runHiveboxReminderJob (object_env\<lparr>gateway := demo_gateway\<rparr>) False demo_world)
       = Inr \<lparr>hb_fetched = 2, hb_sent = 1, hb_skippedOptedOut = 0, hb_skippedInvalidPhone = 0,
               hb_skippedNonUK = 0, hb_failed = 1\<rparr>"
    "map fst (requests (snd (runHiveboxReminderJob (object_env\<lparr>gateway := demo_gateway\<rparr>)
                                 False demo_world)))
       = [''+447911000000'', ''+447911123456'']"
    "map (\<lambda>r. (log_status r, log_error r))
         (sms_send_log (snd (runHiveboxReminderJob (object_env\<lparr>gateway := demo_gateway\<rparr>)
                               False demo_world)))
       = [(st_failed, Some ''Invalid phone''), (st_sent, None)]"
    by (simp_all add: object_defs demo_row_defs js_defs phone_defs sqlite_defs demo_defs
          hourly_defs Let_def)
  show ?thesis
    by (intro conjI a b c r s)
qed

subsection \<open>The run summary\<close>

lemma foldr_max_ge: "x \<in> set xs \<Longrightarrow> x \<le> foldr max xs (0::nat)"
  by (induction xs) (auto simp: max.coboundedI2)

lemma next_rowid_fresh: "r \<in> set tbl \<Longrightarrow> run_id r < next_rowid tbl"
  using foldr_max_ge [of "run_id r" "map run_id tbl"] by (simp add: next_rowid_def less_Suc_eq_le)

lemma map_update_fresh:
  "\<forall>r\<in>set tbl. run_id r \<noteq> rid \<Longrightarrow>
     map (\<lambda>r. if run_id r = rid then f r else r) tbl = tbl"
  by (induction tbl) auto

lemma started_world_summary:
  "job_run_summary (started_world env w) = job_run_summary w @ [zero_row env w]"
  by (simp add: started_world_def zero_row_def createJobRunSummary_def read_clock_def truthy_def)

lemma stamp_fresh_row:
  assumes "job_run_summary w1 = tbl @ [r]" and "run_id r = next_rowid tbl"
  shows "job_run_summary
           (update_run (next_rowid tbl)
              (no_updates\<lparr>upd_finished_at := Some t, upd_error := Some (Some m)\<rparr>) w1)
         = tbl @ [r\<lparr>run_finished_at := t, run_error := Some m\<rparr>]"
proof -
  have "\<forall>x\<in>set tbl. run_id x \<noteq> next_rowid tbl"
    using next_rowid_fresh by fastforce
  then show ?thesis
    using assms
    by (simp add: update_run_def updateJobRunSummary_def no_updates_def apply_updates_def
          map_update_fresh)
qed

lemma hourly_fetch_failure:
  assumes st: "truthy (dateTimeNowISO env (clock_reads w))"
    and f: "getHiveboxPreviousHourPickups env (started_world env w) = Inl e"
  shows "fst (runHiveboxReminderJob env dry w) = Inl e"
    and "job_run_summary (snd (runHiveboxReminderJob env dry w))
           = job_run_summary w
               @ [(zero_row env w)\<lparr>run_finished_at := dateTimeNowISO env (Suc (clock_reads w)),
                                    run_error := Some (err_message e)\<rparr>]"
proof -
  have t: "hivebox_try env dry (next_rowid (job_run_summary w)) (started_world env w)
             = Inl (e, started_world env w)"
    using f by (simp add: hivebox_try_def)
  have r: "runHiveboxReminderJob env dry w
             = (Inl e,
                update_run (next_rowid (job_run_summary w))
                  (no_updates\<lparr>upd_finished_at :=
                                 Some (dateTimeNowISO env (clock_reads (started_world env w))),
                               upd_error := Some (Some (err_message e))\<rparr>)
                  (read_clock (started_world env w)))"
    by (simp add: runHiveboxReminderJob_started [OF st] t)
  show "fst (runHiveboxReminderJob env dry w) = Inl e" by (simp add: r)
  have c: "clock_reads (started_world env w) = Suc (clock_reads w)"
    by (simp add: started_world_def read_clock_def)
  have s: "job_run_summary (read_clock (started_world env w)) = job_run_summary w @ [zero_row env w]"
    by (simp add: read_clock_def started_world_summary)
  have i: "run_id (zero_row env w) = next_rowid (job_run_summary w)"
    by (simp add: zero_row_def)
  show "job_run_summary (snd (runHiveboxReminderJob env dry w))
           = job_run_summary w
               @ [(zero_row env w)\<lparr>run_finished_at := dateTimeNowISO env (Suc (clock_reads w)),
                                    run_error := Some (err_message e)\<rparr>]"
    by (simp add: r c stamp_fresh_row [OF s i])
qed

text \<open>
  C4, as amended. The hourly job, once it has read its start time, inserts a summary row
  with zero counts, the start time and no end time, and only then queries the data
  source: the query runs in the world that holds the row. When that query throws, the
  run sets the end time and the error message on this row, leaves its counts at zero,
  and throws the same error to the caller. The daily job keeps no summary: it never
  changes the summary table, and an error of its query goes to the caller with the
  world unchanged.
\<close>

theorem run_summary_created_and_stamped:
  "(truthy (dateTimeNowISO env (clock_reads w)) \<longrightarrow>
      job_run_summary (started_world env w) = job_run_summary w @ [zero_row env w]
      \<and> (getHiveboxPreviousHourPickups env (started_world env w) = Inl e \<longrightarrow>
            fst (runHiveboxReminderJob env dryRun w) = Inl e
            \<and> job_run_summary (snd (runHiveboxReminderJob env dryRun w))
                = job_run_summary w
                    @ [(zero_row env w)\<lparr>run_finished_at := dateTimeNowISO env (Suc (clock_reads w)),
                                         run_error := Some (err_message e)\<rparr>]))
   \<and> (getYesterdayPickups env targetDate w = Inl e' \<longrightarrow> runJob env targetDate w = (Inl e', w))
   \<and> job_run_summary (snd (runJob env targetDate w)) = job_run_summary w"
  using started_world_summary hourly_fetch_failure runJob_summary
  by (simp add: runJob_def)

lemma demo_start_reading:
  "dateTimeNowISO failing_env (clock_reads demo_world) = Some ''2024-05-02T10:00:00''"
  "dateTimeNowISO failing_env (Suc (clock_reads demo_world)) = Some ''2024-05-02T10:00:01''"
  by (simp_all add: failing_env_def demo_env_def demo_world_def js_defs)

lemma demo_zero_row:
  "zero_row failing_env demo_world
     = \<lparr>run_id = 1, run_feature = ''hivebox_pickup_reminder'',
        run_started_at = ''2024-05-02T10:00:00'', run_finished_at = None,
        run_fetched_count = 0, run_sent_count = 0, run_skipped_count = 0,
        run_failed_count = 0, run_error = None\<rparr>"
  by (simp add: zero_row_def failing_env_def demo_env_def demo_world_def js_defs next_rowid_def
        FEATURE_NAME_def)

theorem run_summary_created_and_stamped_witness:
  "truthy (dateTimeNowISO failing_env (clock_reads demo_world))
   \<and> getHiveboxPreviousHourPickups failing_env (started_world failing_env demo_world)
       = Inl (JsError ''connection refused'')
   \<and> job_run_summary (started_world failing_env demo_world)
       = [\<lparr>run_id = 1, run_feature = ''hivebox_pickup_reminder'',
           run_started_at = ''2024-05-02T10:00:00'', run_finished_at = None,
           run_fetched_count = 0, run_sent_count = 0, run_skipped_count = 0,
           run_failed_count = 0, run_error = None\<rparr>]
   \<and> fst (runHiveboxReminderJob failing_env False demo_world) = Inl (JsError ''connection refused'')
   \<and> job_run_summary (snd (runHiveboxReminderJob failing_env False demo_world))
       = [\<lparr>run_id = 1, run_feature = ''hivebox_pickup_reminder'',
           run_started_at = ''2024-05-02T10:00:00'',
           run_finished_at = Some ''2024-05-02T10:00:01'',
           run_fetched_count = 0, run_sent_count = 0, run_skipped_count = 0,
           run_failed_count = 0, run_error = Some ''connection refused''\<rparr>]
   \<and> getYesterdayPickups failing_env None demo_world = Inl (JsError ''connection refused'')
   \<and> runJob failing_env None demo_world = (Inl (JsError ''connection refused''), demo_world)"
proof -
  let ?e = "JsError ''connection refused''"
  have tr: "truthy (dateTimeNowISO failing_env (clock_reads demo_world))"
    by (simp add: demo_start_reading truthy_def)
  have hf: "getHiveboxPreviousHourPickups failing_env (started_world failing_env demo_world) = Inl ?e"
    by (simp add: failing_env_def)
  have df: "getYesterdayPickups failing_env None demo_world = Inl ?e"
    by (simp add: failing_env_def)
  have em: "job_run_summary demo_world = []" "err_message ?e = ''connection refused''"
    by (simp_all add: demo_world_def err_message_def)
  note t = run_summary_created_and_stamped
             [where env = failing_env and w = demo_world and e = ?e and dryRun = False
                and targetDate = None and e' = ?e]
  from t tr hf df show ?thesis
    by (simp add: demo_zero_row demo_start_reading em)
qed

text \<open>
  C4 as stated fails for the daily job: a daily run whose query throws, and a daily run
  that completes, both leave the summary table empty.
\<close>

theorem daily_run_keeps_no_summary:
  "fst (runJob failing_env None demo_world) = Inl (JsError ''connection refused'')
   \<and> job_run_summary (snd (runJob failing_env None demo_world)) = []
   \<and> fst (runJob demo_env None demo_world)
       = Inr \<lparr>found = 3, eligible = 2, skippedNoPhone = 0, skippedInvalidPhone = 0,
               skippedOptedOut = 0, skippedNoReviewLink = 0, skippedNonUK = 1,
               sent = 1, failed = 1\<rparr>
   \<and> job_run_summary (snd (runJob demo_env None demo_world)) = []"
  by (simp add: demo_runJob_stats runJob_summary)
     (simp add: runJob_def failing_env_def demo_world_def)

subsection \<open>Dry-run mode\<close>

lemma sendSMS_dry_run:
  assumes "config_dryRun env"
  shows "\<exists>r w'. sendSMS env to message w = (Inr r, w') \<and> messageId r \<noteq> []
                 \<and> requests w' = requests w \<and> same_tables w w'"
  using assms by (simp add: sendSMS_def print_def read_clock_def same_tables_def)

lemma sendSMS_accepted:
  assumes "\<not> config_dryRun env" and "\<forall>k t m. \<exists>i h. gateway env k t m = Accepted i h"
  shows "\<exists>r w'. sendSMS env to message w = (Inr r, w') \<and> same_tables w w'"
proof -
  from assms(2) obtain i h where "gateway env (length (requests w)) to message = Accepted i h"
    by blast
  with assms(1) show ?thesis by (simp add: sendSMS_def same_tables_def Let_def)
qed

lemma audit_row_world:
  "sms_opt_out w1 = sms_opt_out w \<Longrightarrow> audit_row env w1 b = audit_row env w b"
  using hivebox_checks_world [of w1 w env b] by (simp add: audit_row_def)

text \<open>
  A candidate whose message, if one is due, is simulated or accepted: the row of the
  candidate is logged, no failure is counted, and in dry-run mode no request is posted.
\<close>

lemma remind_booking_accepted:
  assumes a: "dry \<or> config_dryRun env \<or> (\<forall>k t m. \<exists>i h. gateway env k t m = Accepted i h)"
  shows "\<exists>s' w'. remind_booking env dry b (s, w) = Inr (s', w')
           \<and> sms_send_log w' = sms_send_log w @ [audit_row env w b]
           \<and> hb_failed s' = hb_failed s
           \<and> (dry \<or> config_dryRun env \<longrightarrow> requests w' = requests w)"
proof (cases rule: normalizePhone_cases [of "phonelib env" "phone_number b" "''GB''"])
  case invalid
  then have n: "normalized env b = None" by (simp add: normalized_def)
  from invalid show ?thesis
    by (simp add: remind_booking_def skip_logged_def log_row_Str audit_row_def
          hivebox_first_failing n FEATURE_NAME_def)
next
  case (valid n)
  then have nn: "normalized env b = Some n" by (simp add: normalized_def)
  show ?thesis
  proof (cases "isUKNumber n (phone_number b) \<and> \<not> isOptedOut (sms_opt_out w) n")
    case False
    with valid show ?thesis
      by (auto simp: remind_booking_def skip_logged_def log_row_Str log_row_None audit_row_def
            hivebox_first_failing nn FEATURE_NAME_def)
  next
    case True
    then have p: "isUKNumber n (phone_number b)" "\<not> isOptedOut (sms_opt_out w) n" by simp_all
    from True have row: "audit_row env w b
        = \<lparr>log_feature = FEATURE_NAME,
           log_booking_id = (if js_truthy (booking_id b) then Some (js_text (booking_id b)) else None),
           log_phone = n, log_pickup_time = Some (pickup b),
           log_status = st_sent, log_error = None\<rparr>"
      by (simp add: audit_row_def hivebox_first_failing nn)
    note body = remind_booking_passing [OF valid p, of dry s]
    show ?thesis
    proof (cases dry)
      case True
      with body row show ?thesis
        by (simp add: remind_sent_eq print_def)
    next
      case False
      have "\<exists>r w1. sendSMS env n (createHiveboxMessage (first_name b)) w = (Inr r, w1)
                    \<and> same_tables w w1 \<and> (config_dryRun env \<longrightarrow> requests w1 = requests w)"
      proof (cases "config_dryRun env")
        case True
        from sendSMS_dry_run [OF True] show ?thesis by blast
      next
        case c: False
        with a False have "\<forall>k t m. \<exists>i h. gateway env k t m = Accepted i h" by blast
        from sendSMS_accepted [OF c this] c show ?thesis by blast
      qed
      then obtain r w1
        where "sendSMS env n (createHiveboxMessage (first_name b)) w = (Inr r, w1)"
          and "same_tables w w1" and "config_dryRun env \<longrightarrow> requests w1 = requests w"
        by blast
      with body row False show ?thesis
        by (simp add: remind_sent_eq print_def RateLimitedSMS_send_def same_tables_def)
    qed
  qed
qed

lemma remind_bookings_accepted:
  assumes a: "dry \<or> config_dryRun env \<or> (\<forall>k t m. \<exists>i h. gateway env k t m = Accepted i h)"
  shows "sms_opt_out w = sms_opt_out w0 \<Longrightarrow>
         \<exists>s' w'. remind_bookings env dry bs (s, w) = Inr (s', w')
           \<and> sms_send_log w' = sms_send_log w @ map (audit_row env w0) bs
           \<and> hb_failed s' = hb_failed s
           \<and> (dry \<or> config_dryRun env \<longrightarrow> requests w' = requests w)"
proof (induction bs arbitrary: s w)
  case Nil
  show ?case by simp
next
  case (Cons b bs)
  from remind_booking_accepted [OF a, of b s w] obtain s1 w1
    where step: "remind_booking env dry b (s, w) = Inr (s1, w1)"
      and l: "sms_send_log w1 = sms_send_log w @ [audit_row env w b]"
      and f: "hb_failed s1 = hb_failed s"
      and q: "dry \<or> config_dryRun env \<longrightarrow> requests w1 = requests w"
    by blast
  from remind_booking_step [OF step] Cons.prems have o: "sms_opt_out w1 = sms_opt_out w0" by simp
  from Cons.IH [OF o, of s1] obtain s' w'
    where rest: "remind_bookings env dry bs (s1, w1) = Inr (s', w')"
      and l': "sms_send_log w' = sms_send_log w1 @ map (audit_row env w0) bs"
      and f': "hb_failed s' = hb_failed s1"
      and q': "dry \<or> config_dryRun env \<longrightarrow> requests w' = requests w1"
    by blast
  have "audit_row env w b = audit_row env w0 b"
    by (rule audit_row_world [OF Cons.prems])
  with step rest l l' f f' q q' show ?case by simp
qed

lemma stats_are_expected:
  assumes "hb_fetched stats = length bookings"
    and "\<forall>r. hb_skip_count stats r
               = count_where (\<lambda>b. first_failing (hivebox_checks env w b)) (Some r) bookings"
    and "hb_sent stats + hb_failed stats
           = count_where (\<lambda>b. first_failing (hivebox_checks env w b)) None bookings"
    and "hb_failed stats = 0"
  shows "stats = expected_stats env w bookings"
proof -
  from assms(2) have k: "hb_skip_count stats r
               = count_where (\<lambda>b. first_failing (hivebox_checks env w b)) (Some r) bookings" for r
    by blast
  from k [of InvalidPhone] k [of NonDomestic] k [of OptedOut] assms(1,3,4)
  show ?thesis
    by (cases stats) (simp add: expected_stats_def hb_skip_count_def)
qed

lemma hivebox_try_accepted:
  assumes a: "dry \<or> config_dryRun env \<or> (\<forall>k t m. \<exists>i h. gateway env k t m = Accepted i h)"
    and q: "getHiveboxPreviousHourPickups env w = Inr bookings"
    and o: "sms_opt_out w = sms_opt_out w0"
  shows "\<exists>w'. hivebox_try env dry rid w = Inr (expected_stats env w0 bookings, w')
           \<and> sms_send_log w' = sms_send_log w @ map (audit_row env w0) bookings
           \<and> (dry \<or> config_dryRun env \<longrightarrow> requests w' = requests w)"
proof -
  let ?s0 = "hb_zero_stats\<lparr>hb_fetched := length bookings\<rparr>"
  let ?w1 = "update_run rid (no_updates\<lparr>upd_fetched_count := Some (length bookings)\<rparr>) w"
  have o1: "sms_opt_out ?w1 = sms_opt_out w0" using o by (simp add: update_run_def)
  from remind_bookings_accepted [OF a o1, of bookings ?s0] obtain s1 w1
    where l: "remind_bookings env dry bookings (?s0, ?w1) = Inr (s1, w1)"
      and g: "sms_send_log w1 = sms_send_log ?w1 @ map (audit_row env w0) bookings"
      and f: "hb_failed s1 = hb_failed ?s0"
      and r: "dry \<or> config_dryRun env \<longrightarrow> requests w1 = requests ?w1"
    by blast
  obtain stats w' where t: "hivebox_try env dry rid w = Inr (stats, w')"
    and w': "sms_send_log w' = sms_send_log w1 \<or> bookings = [] \<and> sms_send_log w' = sms_send_log w"
      "requests w' = requests w1 \<or> bookings = [] \<and> requests w' = requests w"
    using q l
    by (cases "bookings = []")
       (auto simp: hivebox_try_def Let_def now_iso_def update_run_def read_clock_def
             split: prod.splits)
  from hivebox_try_counts [OF q t o] f t q l
  have "hb_failed stats = 0"
    by (cases "bookings = []")
       (auto simp: hivebox_try_def Let_def now_iso_def hb_zero_stats_def split: prod.splits)
  with hivebox_try_counts [OF q t o] have "stats = expected_stats env w0 bookings"
    by (intro stats_are_expected) simp_all
  moreover from w' g have "sms_send_log w' = sms_send_log w @ map (audit_row env w0) bookings"
    by (auto simp: update_run_def)
  moreover from w' r have "dry \<or> config_dryRun env \<longrightarrow> requests w' = requests w"
    by (auto simp: update_run_def)
  ultimately show ?thesis using t by blast
qed

lemma run_accepted:
  assumes a: "dry \<or> config_dryRun env \<or> (\<forall>k t m. \<exists>i h. gateway env k t m = Accepted i h)"
    and t: "truthy (dateTimeNowISO env (clock_reads w))"
    and q: "getHiveboxPreviousHourPickups env (started_world env w) = Inr bookings"
  shows "\<exists>w'. runHiveboxReminderJob env dry w = (Inr (expected_stats env w bookings), w')
           \<and> sms_send_log w' = sms_send_log w @ map (audit_row env w) bookings
           \<and> (dry \<or> config_dryRun env \<longrightarrow> requests w' = requests w)"
proof -
  have o: "sms_opt_out (started_world env w) = sms_opt_out w"
    and l: "sms_send_log (started_world env w) = sms_send_log w"
    and r: "requests (started_world env w) = requests w"
    by (simp_all add: started_world_def read_clock_def)
  from hivebox_try_accepted [OF a q o, of "next_rowid (job_run_summary w)"] l r
  show ?thesis
    by (auto simp: runHiveboxReminderJob_started [OF t])
qed

lemma runJob_send_log: "sms_send_log (snd (runJob env targetDate w)) = sms_send_log w"
  using runJob_tables [of w env targetDate] by (simp add: same_tables_def)

text \<open>
  C8, as amended. With \<open>config.dryRun\<close> set, \<open>sendSMS\<close> posts no request and returns
  a message id that is not empty. An hourly run in dry-run mode (by its parameter or by
  \<open>config.dryRun\<close>) posts no request, counts no failure, and appends to the send log
  one row for every candidate, in order: for a candidate that passes the checks it is
  a row with the status \<open>sent\<close>, the normalized phone and no error. A live run in which
  the gateway accepts every message returns the same statistics and appends the same
  rows. The daily job in dry-run mode writes nothing to the send log.
\<close>

theorem dry_run_sends_nothing_and_logs_sent:
  "(config_dryRun env \<longrightarrow>
      (\<exists>r w'. sendSMS env to message w = (Inr r, w') \<and> messageId r \<noteq> []
               \<and> requests w' = requests w))
   \<and> ((dryRun \<or> config_dryRun env) \<and> truthy (dateTimeNowISO env (clock_reads w))
       \<and> getHiveboxPreviousHourPickups env (started_world env w) = Inr bookings \<longrightarrow>
        (\<exists>w'. runHiveboxReminderJob env dryRun w = (Inr (expected_stats env w bookings), w')
               \<and> requests w' = requests w
               \<and> sms_send_log w' = sms_send_log w @ map (audit_row env w) bookings)
        \<and> ((\<forall>k t m. \<exists>i h. g k t m = Accepted i h) \<longrightarrow>
             (\<exists>w'. runHiveboxReminderJob (env\<lparr>config_dryRun := False, gateway := g\<rparr>) False w
                      = (Inr (expected_stats env w bookings), w')
                    \<and> sms_send_log w' = sms_send_log w @ map (audit_row env w) bookings)))
   \<and> (first_failing (hivebox_checks env w b) = None \<longrightarrow>
        log_status (audit_row env w b) = st_sent \<and> log_error (audit_row env w b) = None
        \<and> Some (log_phone (audit_row env w b)) = normalized env b)
   \<and> hb_failed (expected_stats env w bookings) = 0
   \<and> (config_dryRun env \<longrightarrow> sms_send_log (snd (runJob env targetDate w)) = sms_send_log w)"
proof (intro conjI impI)
  assume "config_dryRun env"
  from sendSMS_dry_run [OF this]
  show "\<exists>r w'. sendSMS env to message w = (Inr r, w') \<and> messageId r \<noteq> []
               \<and> requests w' = requests w"
    by blast
next
  assume h: "(dryRun \<or> config_dryRun env) \<and> truthy (dateTimeNowISO env (clock_reads w))
       \<and> getHiveboxPreviousHourPickups env (started_world env w) = Inr bookings"
  then have d: "dryRun \<or> config_dryRun env \<or> (\<forall>k t m. \<exists>i h. gateway env k t m = Accepted i h)"
    and t: "truthy (dateTimeNowISO env (clock_reads w))"
    and q: "getHiveboxPreviousHourPickups env (started_world env w) = Inr bookings"
    by blast+
  from run_accepted [OF d t q] h
  show "\<exists>w'. runHiveboxReminderJob env dryRun w = (Inr (expected_stats env w bookings), w')
               \<and> requests w' = requests w
               \<and> sms_send_log w' = sms_send_log w @ map (audit_row env w) bookings"
    by blast
  assume g: "\<forall>k t m. \<exists>i h. g k t m = Accepted i h"
  let ?env = "env\<lparr>config_dryRun := False, gateway := g\<rparr>"
  have d': "False \<or> config_dryRun ?env \<or> (\<forall>k t m. \<exists>i h. gateway ?env k t m = Accepted i h)"
    using g by simp
  have s: "started_world ?env w = started_world env w"
    by (simp add: started_world_def)
  have t': "truthy (dateTimeNowISO ?env (clock_reads w))" using t by simp
  have q': "getHiveboxPreviousHourPickups ?env (started_world ?env w) = Inr bookings"
    using q by (simp add: s)
  have e: "expected_stats ?env w bookings = expected_stats env w bookings"
    "map (audit_row ?env w) bookings = map (audit_row env w) bookings"
    by (simp_all add: expected_stats_def audit_row_def hivebox_checks_def normalized_def)
  from run_accepted [OF d' t' q']
  show "\<exists>w'. runHiveboxReminderJob ?env False w = (Inr (expected_stats env w bookings), w')
               \<and> sms_send_log w' = sms_send_log w @ map (audit_row env w) bookings"
    by (simp add: e)
next
  assume "first_failing (hivebox_checks env w b) = None"
  then show "log_status (audit_row env w b) = st_sent" and "log_error (audit_row env w b) = None"
    and "Some (log_phone (audit_row env w b)) = normalized env b"
    by (auto simp: audit_row_def hivebox_first_failing split: option.splits if_splits)
next
  show "hb_failed (expected_stats env w bookings) = 0"
    by (simp add: expected_stats_def)
next
  show "sms_send_log (snd (runJob env targetDate w)) = sms_send_log w"
    by (rule runJob_send_log)
qed

lemma demo_dry_send:
  "sendSMS dry_env ''+447911123456'' ''hello'' demo_world
     = (Inr \<lparr>messageId = ''dry-run-1714644000'', result_phone = None\<rparr>,
        demo_world\<lparr>console := [Log ''[DRY RUN] Would send SMS to +447911123456: hello''],
                    clock_reads := 1\<rparr>)"
  by (simp add: js_defs demo_defs dry_env_def hourly_defs Let_def)

lemma demo_dry_classes:
  "map (\<lambda>b. first_failing (hivebox_checks dry_env demo_world b)) [hivebox_a, hivebox_b, hivebox_c]
     = [None, None, Some NonDomestic]"
  by (simp add: hivebox_checks_def normalized_def isUKNumber_def js_defs phone_defs sqlite_defs
        demo_defs dry_env_def demo_row_defs hourly_defs Let_def)

lemma demo_dry_expected:
  "expected_stats dry_env demo_world [hivebox_a, hivebox_b, hivebox_c]
     = \<lparr>hb_fetched = 3, hb_sent = 2, hb_skippedOptedOut = 0, hb_skippedInvalidPhone = 0,
        hb_skippedNonUK = 1, hb_failed = 0\<rparr>"
  using demo_dry_classes by (simp add: expected_stats_def)

lemma demo_dry_rows:
  "map (audit_row dry_env demo_world) [hivebox_a, hivebox_b, hivebox_c]
     = [\<lparr>log_feature = ''hivebox_pickup_reminder'', log_booking_id = Some ''1'',
         log_phone = ''+447911123456'', log_pickup_time = Some ''2024-05-01T10:00:00.000Z'',
         log_status = st_sent, log_error = None\<rparr>,
        \<lparr>log_feature = ''hivebox_pickup_reminder'', log_booking_id = Some ''2'',
         log_phone = ''+447911000000'', log_pickup_time = Some ''2024-05-01T11:00:00.000Z'',
         log_status = st_sent, log_error = None\<rparr>,
        \<lparr>log_feature = ''hivebox_pickup_reminder'', log_booking_id = Some ''3'',
         log_phone = ''+14155550100'', log_pickup_time = Some ''2024-05-01T12:00:00.000Z'',
         log_status = st_skipped_non_uk, log_error = Some ''Non-UK phone number''\<rparr>]"
  by (simp add: audit_row_def hivebox_checks_def normalized_def isUKNumber_def js_defs phone_defs
        sqlite_defs demo_defs dry_env_def demo_row_defs hourly_defs Let_def)

theorem dry_run_sends_nothing_and_logs_sent_witness:
  "config_dryRun dry_env
   \<and> sendSMS dry_env ''+447911123456'' ''hello'' demo_world
       = (Inr \<lparr>messageId = ''dry-run-1714644000'', result_phone = None\<rparr>,
          demo_world\<lparr>console := [Log ''[DRY RUN] Would send SMS to +447911123456: hello''],
                      clock_reads := 1\<rparr>)
   \<and> truthy (dateTimeNowISO dry_env (clock_reads demo_world))
   \<and> getHiveboxPreviousHourPickups dry_env (started_world dry_env demo_world)
       = Inr [hivebox_a, hivebox_b, hivebox_c]
   \<and> (\<forall>k t m. \<exists>i h. ok_gateway k t m = Accepted i h)
   \<and> first_failing (hivebox_checks dry_env demo_world hivebox_a) = None
   \<and> fst (runHiveboxReminderJob dry_env True demo_world)
       = Inr \<lparr>hb_fetched = 3, hb_sent = 2, hb_skippedOptedOut = 0, hb_skippedInvalidPhone = 0,
               hb_skippedNonUK = 1, hb_failed = 0\<rparr>
   \<and> requests (snd (runHiveboxReminderJob dry_env True demo_world)) = []
   \<and> map (\<lambda>r. (log_phone r, log_status r, log_error r))
         (sms_send_log (snd (runHiveboxReminderJob dry_env True demo_world)))
       = [(''+447911123456'', st_sent, None), (''+447911000000'', st_sent, None),
          (''+14155550100'', st_skipped_non_uk, Some ''Non-UK phone number'')]
   \<and> fst (runHiveboxReminderJob (dry_env\<lparr>config_dryRun := False, gateway := ok_gateway\<rparr>)
            False demo_world)
       = Inr \<lparr>hb_fetched = 3, hb_sent = 2, hb_skippedOptedOut = 0, hb_skippedInvalidPhone = 0,
               hb_skippedNonUK = 1, hb_failed = 0\<rparr>
   \<and> sms_send_log (snd (runHiveboxReminderJob
                            (dry_env\<lparr>config_dryRun := False, gateway := ok_gateway\<rparr>)
                            False demo_world))
       = sms_send_log (snd (runHiveboxReminderJob dry_env True demo_world))
   \<and> log_status (audit_row dry_env demo_world hivebox_a) = st_sent
   \<and> sms_send_log (snd (runJob dry_env None demo_world)) = sms_send_log demo_world"
proof -
  let ?bs = "[hivebox_a, hivebox_b, hivebox_c]"
  let ?live = "dry_env\<lparr>config_dryRun := False, gateway := ok_gateway\<rparr>"
  have cfg: "config_dryRun dry_env" by (simp add: dry_env_def)
  have tr: "truthy (dateTimeNowISO dry_env (clock_reads demo_world))"
    by (simp add: dry_env_def demo_env_def truthy_def)
  have q: "getHiveboxPreviousHourPickups dry_env (started_world dry_env demo_world) = Inr ?bs"
    by (simp add: dry_env_def demo_env_def demo_row_defs)
  have g: "\<forall>k t m. \<exists>i h. ok_gateway k t m = Accepted i h" by (simp add: ok_gateway_def)
  have p: "first_failing (hivebox_checks dry_env demo_world hivebox_a) = None"
    using demo_dry_classes by simp
  have e: "requests demo_world = []" "sms_send_log demo_world = []"
    by (simp_all add: demo_world_def)
  note t = dry_run_sends_nothing_and_logs_sent
             [where env = dry_env and dryRun = True and w = demo_world and bookings = ?bs
                and g = ok_gateway and b = hivebox_a and targetDate = None]
  from t cfg tr q obtain w1
    where r1: "runHiveboxReminderJob dry_env True demo_world
                 = (Inr (expected_stats dry_env demo_world ?bs), w1)"
      and r2: "requests w1 = requests demo_world"
      and r3: "sms_send_log w1 = sms_send_log demo_world @ map (audit_row dry_env demo_world) ?bs"
    by blast
  from t cfg tr q g obtain w2
    where l1: "runHiveboxReminderJob ?live False demo_world
                 = (Inr (expected_stats dry_env demo_world ?bs), w2)"
      and l3: "sms_send_log w2 = sms_send_log demo_world @ map (audit_row dry_env demo_world) ?bs"
    by blast
  from t p have s: "log_status (audit_row dry_env demo_world hivebox_a) = st_sent" by blast
  from r1 have c1: "fst (runHiveboxReminderJob dry_env True demo_world)
       = Inr \<lparr>hb_fetched = 3, hb_sent = 2, hb_skippedOptedOut = 0, hb_skippedInvalidPhone = 0,
               hb_skippedNonUK = 1, hb_failed = 0\<rparr>"
    by (simp add: demo_dry_expected)
  from r1 r2 e have c2: "requests (snd (runHiveboxReminderJob dry_env True demo_world)) = []"
    by simp
  from r1 r3 e demo_dry_rows have c3: "map (\<lambda>r. (log_phone r, log_status r, log_error r))
         (sms_send_log (snd (runHiveboxReminderJob dry_env True demo_world)))
       = [(''+447911123456'', st_sent, None), (''+447911000000'', st_sent, None),
          (''+14155550100'', st_skipped_non_uk, Some ''Non-UK phone number'')]"
    by simp
  from l1 have c4: "fst (runHiveboxReminderJob ?live False demo_world)
       = Inr \<lparr>hb_fetched = 3, hb_sent = 2, hb_skippedOptedOut = 0, hb_skippedInvalidPhone = 0,
               hb_skippedNonUK = 1, hb_failed = 0\<rparr>"
    by (simp add: demo_dry_expected)
  from r1 r3 l1 l3 have c5: "sms_send_log (snd (runHiveboxReminderJob ?live False demo_world))
       = sms_send_log (snd (runHiveboxReminderJob dry_env True demo_world))"
    by simp
  from t cfg have c6: "sms_send_log (snd (runJob dry_env None demo_world)) = sms_send_log demo_world"
    by blast
  show ?thesis
    by (intro conjI cfg demo_dry_send tr q g p c1 c2 c3 c4 c5 s c6)
qed

text \<open>
  C8 as stated fails for the daily job: a daily run in dry-run mode posts no request and
  counts two candidates as sent, and the send log stays empty.
\<close>

theorem daily_dry_run_writes_no_log:
  "config_dryRun dry_env
   \<and> fst (runJob dry_env None demo_world)
       = Inr \<lparr>found = 3, eligible = 2, skippedNoPhone = 0, skippedInvalidPhone = 0,
               skippedOptedOut = 0, skippedNoReviewLink = 0, skippedNonUK = 1,
               sent = 2, failed = 0\<rparr>
   \<and> requests (snd (runJob dry_env None demo_world)) = []
   \<and> sms_send_log (snd (runJob dry_env None demo_world)) = []"
  by (simp add: dry_env_def js_defs phone_defs sqlite_defs demo_defs daily_defs Let_def)

subsection \<open>The order of the eligibility checks, and duplicates\<close>

lemma hivebox_checks_are_spec_checks:
  "truthy (phone_number b) \<Longrightarrow>
     first_failing (hivebox_checks env w b) = first_failing (take 4 (spec_checks env w b))"
  by (simp add: hivebox_checks_def spec_checks_def)

text \<open>
  C2, as amended. In the daily job the checks run in the order no-phone, invalid-phone,
  non-domestic, opted-out, no-review-link. In the hourly job the checks are
  invalid-phone, non-domestic and opted-out, in this order: for a row with a phone, as
  its query returns them, these are the first four checks of the daily job, of which the
  first cannot fail; the hourly job has no review-link check. In both jobs the first
  check that fails decides: exactly the counter of its reason goes up by one (in the
  hourly job exactly one log row is written, with the status of that reason), no other
  skip counter changes, and a candidate that passes every check is counted as eligible
  (daily) or as sent or failed (hourly) and under no skip reason.
\<close>

theorem first_failing_check_decides:
  "(filter_booking env b (stats, el, w) = Inr (stats', el', w') \<longrightarrow>
      (\<forall>r. skip_count stats' r
             = skip_count stats r + (if first_failing (spec_checks env w b) = Some r then 1 else 0))
      \<and> eligible stats' = eligible stats + (if first_failing (spec_checks env w b) = None then 1 else 0)
      \<and> length el' = length el + (if first_failing (spec_checks env w b) = None then 1 else 0))
   \<and> (remind_booking env dryRun hb (hstats, hw) = Inr (hstats', hw') \<longrightarrow>
      (\<forall>r. hb_skip_count hstats' r
             = hb_skip_count hstats r
                 + (if first_failing (hivebox_checks env hw hb) = Some r then 1 else 0))
      \<and> hb_sent hstats' + hb_failed hstats'
          = hb_sent hstats + hb_failed hstats
              + (if first_failing (hivebox_checks env hw hb) = None then 1 else 0)
      \<and> (\<exists>row. sms_send_log hw' = sms_send_log hw @ [row]
             \<and> (case first_failing (hivebox_checks env hw hb) of
                   Some r \<Rightarrow> Some (log_status row) = skip_status r
                 | None \<Rightarrow> log_status row = st_sent \<or> log_status row = st_failed)))
   \<and> (truthy (phone_number hb) \<longrightarrow>
        first_failing (hivebox_checks env hw hb) = first_failing (take 4 (spec_checks env hw hb)))"
  using filter_booking_first_failing [of env b stats el w stats' el' w']
    remind_booking_step [of env dryRun hb hstats hw hstats' hw']
    hivebox_checks_are_spec_checks [of hb env hw]
  by blast

lemma demo_filter_c:
  "filter_booking demo_env booking_c (zero_stats, [], demo_world)
     = Inr (zero_stats\<lparr>skippedNonUK := 1\<rparr>, [],
            print (Log ''[JOB] Skipping booking 3: non-UK phone number (+14155550100)'') demo_world)"
  by (simp add: js_defs phone_defs sqlite_defs demo_defs daily_defs Let_def)

lemma demo_checks_c:
  "first_failing (spec_checks demo_env demo_world booking_c) = Some NonDomestic"
  "first_failing (hivebox_checks demo_env demo_world hivebox_c) = Some NonDomestic"
  "first_failing (take 4 (spec_checks demo_env demo_world hivebox_c)) = Some NonDomestic"
  by (simp_all add: spec_checks_def hivebox_checks_def normalized_def isUKNumber_def js_defs
        phone_defs sqlite_defs demo_defs demo_row_defs daily_defs
        HiveboxBookingRow.fields_def Let_def)

lemma demo_remind_c:
  "remind_booking demo_env False hivebox_c (hb_zero_stats, demo_world)
     = Inr (hb_zero_stats\<lparr>hb_skippedNonUK := 1\<rparr>,
            demo_world\<lparr>sms_send_log :=
              [\<lparr>log_feature = ''hivebox_pickup_reminder'', log_booking_id = Some ''3'',
                log_phone = ''+14155550100'', log_pickup_time = Some ''2024-05-01T12:00:00.000Z'',
                log_status = st_skipped_non_uk, log_error = Some ''Non-UK phone number''\<rparr>]\<rparr>)"
  by (simp add: js_defs phone_defs sqlite_defs demo_defs demo_row_defs hourly_defs Let_def)

theorem first_failing_check_decides_witness:
  "filter_booking demo_env booking_c (zero_stats, [], demo_world)
     = Inr (zero_stats\<lparr>skippedNonUK := 1\<rparr>, [],
            print (Log ''[JOB] Skipping booking 3: non-UK phone number (+14155550100)'') demo_world)
   \<and> first_failing (spec_checks demo_env demo_world booking_c) = Some NonDomestic
   \<and> map (skip_count (zero_stats\<lparr>skippedNonUK := 1\<rparr>))
          [NoPhone, InvalidPhone, NonDomestic, OptedOut, NoReviewLink]
       = [0, 0, 1, 0, 0]
   \<and> eligible (zero_stats\<lparr>skippedNonUK := 1\<rparr>) = eligible zero_stats
   \<and> remind_booking demo_env False hivebox_c (hb_zero_stats, demo_world)
       = Inr (hb_zero_stats\<lparr>hb_skippedNonUK := 1\<rparr>,
              demo_world\<lparr>sms_send_log :=
                [\<lparr>log_feature = ''hivebox_pickup_reminder'', log_booking_id = Some ''3'',
                  log_phone = ''+14155550100'', log_pickup_time = Some ''2024-05-01T12:00:00.000Z'',
                  log_status = st_skipped_non_uk, log_error = Some ''Non-UK phone number''\<rparr>]\<rparr>)
   \<and> first_failing (hivebox_checks demo_env demo_world hivebox_c) = Some NonDomestic
   \<and> map (hb_skip_count (hb_zero_stats\<lparr>hb_skippedNonUK := 1\<rparr>))
          [NoPhone, InvalidPhone, NonDomestic, OptedOut, NoReviewLink]
       = [0, 0, 1, 0, 0]
   \<and> truthy (phone_number hivebox_c)
   \<and> first_failing (take 4 (spec_checks demo_env demo_world hivebox_c)) = Some NonDomestic"
proof -
  let ?s = "zero_stats\<lparr>skippedNonUK := 1\<rparr>"
  let ?h = "hb_zero_stats\<lparr>hb_skippedNonUK := 1\<rparr>"
  let ?hw = "demo_world\<lparr>sms_send_log :=
                [\<lparr>log_feature = ''hivebox_pickup_reminder'', log_booking_id = Some ''3'',
                  log_phone = ''+14155550100'', log_pickup_time = Some ''2024-05-01T12:00:00.000Z'',
                  log_status = st_skipped_non_uk, log_error = Some ''Non-UK phone number''\<rparr>]\<rparr>"
  have ph: "truthy (phone_number hivebox_c)"
    by (simp add: demo_row_defs demo_defs truthy_def BookingRow.extend_def)
  note t = first_failing_check_decides
             [where env = demo_env and b = booking_c and stats = zero_stats and el = "[]"
                and w = demo_world and stats' = ?s and el' = "[]"
                and w' = "print (Log ''[JOB] Skipping booking 3: non-UK phone number (+14155550100)'') demo_world"
                and dryRun = False and hb = hivebox_c and hstats = hb_zero_stats
                and hw = demo_world and hstats' = ?h and hw' = ?hw]
  from t demo_filter_c demo_checks_c(1)
  have d: "\<forall>r. skip_count ?s r = skip_count zero_stats r + (if Some NonDomestic = Some r then 1 else 0)"
    and e: "eligible ?s = eligible zero_stats"
    by simp_all
  from t demo_remind_c demo_checks_c(2)
  have h: "\<forall>r. hb_skip_count ?h r
                = hb_skip_count hb_zero_stats r + (if Some NonDomestic = Some r then 1 else 0)"
    by simp
  from t ph demo_checks_c(2)
  have f: "first_failing (take 4 (spec_checks demo_env demo_world hivebox_c)) = Some NonDomestic"
    by simp
  have z: "skip_count zero_stats r = 0" "hb_skip_count hb_zero_stats r = 0" for r
    by (simp_all add: skip_count_def hb_skip_count_def zero_stats_def hb_zero_stats_def
          split: SkipReason.splits)
  from d z have d': "map (skip_count ?s) [NoPhone, InvalidPhone, NonDomestic, OptedOut, NoReviewLink]
                      = [0, 0, 1, 0, 0]"
    by simp
  from h z have h': "map (hb_skip_count ?h) [NoPhone, InvalidPhone, NonDomestic, OptedOut, NoReviewLink]
                      = [0, 0, 1, 0, 0]"
    by simp
  show ?thesis
    by (intro conjI demo_filter_c demo_checks_c(1) d' e demo_remind_c demo_checks_c(2) h' ph f)
qed

text \<open>
  C2 as stated fails for the hourly job. With no review link for any city, a candidate
  with a valid domestic phone that is not opted out fails the fifth check: the daily job
  skips it for that reason, and the hourly job sends it the reminder and logs it as
  \<open>sent\<close>.
\<close>

theorem hourly_job_sends_without_review_link:
  "first_failing (spec_checks nolink_env demo_world hivebox_a) = Some NoReviewLink
   \<and> fst (runJob (nolink_env\<lparr>getYesterdayPickups := (\<lambda>targetDate w. Inr [booking_a])\<rparr>) None
            demo_world)
       = Inr \<lparr>found = 1, eligible = 0, skippedNoPhone = 0, skippedInvalidPhone = 0,
               skippedOptedOut = 0, skippedNoReviewLink = 1, skippedNonUK = 0,
               sent = 0, failed = 0\<rparr>
   \<and> remind_booking nolink_env False hivebox_a (hb_zero_stats, demo_world)
       = Inr (hb_zero_stats\<lparr>hb_sent := 1\<rparr>,
              demo_world
                \<lparr>sms_send_log :=
                   [\<lparr>log_feature = ''hivebox_pickup_reminder'', log_booking_id = Some ''1'',
                     log_phone = ''+447911123456'',
                     log_pickup_time = Some ''2024-05-01T10:00:00.000Z'',
                     log_status = st_sent, log_error = None\<rparr>],
                 console := [Log ''[HIVEBOX] Sent SMS to +447911123456 for booking 1 (TextMagic ID: 7000)''],
                 requests := [(''+447911123456'', createHiveboxMessage (Some ''Ann''))]\<rparr>)"
proof -
  have a: "first_failing (spec_checks nolink_env demo_world hivebox_a) = Some NoReviewLink"
    by (simp add: nolink_env_def spec_checks_def normalized_def isUKNumber_def demo_row_defs
          js_defs phone_defs sqlite_defs demo_defs daily_defs HiveboxBookingRow.fields_def Let_def)
  have b: "fst (runJob (nolink_env\<lparr>getYesterdayPickups := (\<lambda>targetDate w. Inr [booking_a])\<rparr>) None
            demo_world)
       = Inr \<lparr>found = 1, eligible = 0, skippedNoPhone = 0, skippedInvalidPhone = 0,
               skippedOptedOut = 0, skippedNoReviewLink = 1, skippedNonUK = 0,
               sent = 0, failed = 0\<rparr>"
    by (simp add: nolink_env_def js_defs phone_defs sqlite_defs demo_defs daily_defs Let_def)
  have c: "remind_booking nolink_env False hivebox_a (hb_zero_stats, demo_world)
       = Inr (hb_zero_stats\<lparr>hb_sent := 1\<rparr>,
              demo_world
                \<lparr>sms_send_log :=
                   [\<lparr>log_feature = ''hivebox_pickup_reminder'', log_booking_id = Some ''1'',
                     log_phone = ''+447911123456'',
                     log_pickup_time = Some ''2024-05-01T10:00:00.000Z'',
                     log_status = st_sent, log_error = None\<rparr>],
                 console := [Log ''[HIVEBOX] Sent SMS to +447911123456 for booking 1 (TextMagic ID: 7000)''],
                 requests := [(''+447911123456'', createHiveboxMessage (Some ''Ann''))]\<rparr>)"
    by (simp add: nolink_env_def demo_row_defs js_defs phone_defs sqlite_defs demo_defs
          hourly_defs Let_def)
  show ?thesis by (intro conjI a b c)
qed

text \<open>
  C1 fails on the code: \<open>runJob\<close> keeps no record of the bookings it has sent to, and
  a booking that the query returns twice is sent to twice and counted twice.
\<close>

theorem duplicate_booking_is_sent_twice:
  "fst (runJob duplicate_env None demo_world)
     = Inr \<lparr>found = 2, eligible = 2, skippedNoPhone = 0, skippedInvalidPhone = 0,
             skippedOptedOut = 0, skippedNoReviewLink = 0, skippedNonUK = 0,
             sent = 2, failed = 0\<rparr>
   \<and> map fst (requests (snd (runJob duplicate_env None demo_world)))
       = [''+447911123456'', ''+447911123456'']"
  by (simp add: duplicate_env_def js_defs phone_defs sqlite_defs demo_defs daily_defs Let_def)

section \<open>Round trip of the phone normalizer\<close>

lemma dropWhile_none: "\<not> list_ex P s \<Longrightarrow> dropWhile P s = s"
  by (cases s) auto

lemma clean_without_spaces: "\<not> list_ex js_space s \<Longrightarrow> remove_spaces (trim s) = s"
proof -
  assume a: "\<not> list_ex js_space s"
  then have "\<not> list_ex js_space (rev s)" by (simp add: list_ex_iff)
  with a have "trim s = s" by (simp add: trim_def dropWhile_none)
  moreover from a have "remove_spaces s = s"
    by (simp add: remove_spaces_def list_ex_iff filter_id_conv)
  ultimately show ?thesis by simp
qed

lemma remove_spaces_idem: "remove_spaces (trim (remove_spaces (trim s))) = remove_spaces (trim s)"
proof -
  have "\<not> list_ex js_space (remove_spaces (trim s))"
    by (simp add: remove_spaces_def list_ex_iff)
  then show ?thesis by (rule clean_without_spaces)
qed

lemma canonical_numbersD:
  assumes "canonical_numbers lib" and "isValidPhoneNumber lib s c = Inr True"
    and "parsePhoneNumber lib s c = Inr n"
  shows "n \<noteq> [] \<and> \<not> list_ex js_space n
         \<and> (\<forall>c'. isValidPhoneNumber lib n c' = Inr True \<and> parsePhoneNumber lib n c' = Inr n)"
  using assms unfolding canonical_numbers_def by blast

lemma normalizePhone_body_accepts:
  assumes "normalizePhone_body lib cleaned dc = Inr (Some n)"
  shows "\<exists>s c. isValidPhoneNumber lib s c = Inr True \<and> parsePhoneNumber lib s c = Inr n"
proof (cases "isValidPhoneNumber lib cleaned (Some dc)")
  case (Inl e)
  with assms show ?thesis by (simp add: normalizePhone_body_def)
next
  case (Inr v)
  show ?thesis
  proof (cases v)
    case True
    with Inr assms have "parsePhoneNumber lib cleaned (Some dc) = Inr n"
      by (simp add: normalizePhone_body_def split: sum.splits)
    with Inr True show ?thesis by auto
  next
    case False
    from Inr False assms obtain wc
      where "isValidPhoneNumber lib wc None = Inr True" "parsePhoneNumber lib wc None = Inr n"
      by (auto simp: normalizePhone_body_def Let_def split: sum.splits bool.splits)
    then show ?thesis by blast
  qed
qed

lemma normalizePhone_body_canonical:
  assumes "canonical_numbers lib" and "normalizePhone_body lib cleaned dc = Inr (Some n)"
  shows "n \<noteq> [] \<and> \<not> list_ex js_space n
         \<and> (\<forall>c'. isValidPhoneNumber lib n c' = Inr True \<and> parsePhoneNumber lib n c' = Inr n)"
proof -
  from normalizePhone_body_accepts [OF assms(2)] obtain s c
    where "isValidPhoneNumber lib s c = Inr True" "parsePhoneNumber lib s c = Inr n"
    by blast
  with assms(1) show ?thesis by (rule canonical_numbersD)
qed

lemma normalizePhone_of_canonical:
  assumes "n \<noteq> []" and "\<not> list_ex js_space n"
    and "isValidPhoneNumber lib n (Some dc) = Inr True"
    and "parsePhoneNumber lib n (Some dc) = Inr n"
    and "remove_spaces (trim p) = n"
  shows "normalizePhone lib (Some p) dc = Inr (Some n)"
proof -
  from assms(1,5) have "p \<noteq> []" by (auto simp: trim_def remove_spaces_def)
  with assms show ?thesis
    by (simp add: normalizePhone_def truthy_def normalizePhone_body_def Let_def)
qed

lemma normalizePhone_result_canonical:
  assumes c: "canonical_numbers lib" and r: "normalizePhone lib phone dc = Inr (Some n)"
  shows "n \<noteq> [] \<and> \<not> list_ex js_space n
         \<and> (\<forall>c'. isValidPhoneNumber lib n c' = Inr True \<and> parsePhoneNumber lib n c' = Inr n)"
proof -
  from r obtain cleaned where "normalizePhone_body lib cleaned dc = Inr (Some n)"
    by (auto simp: normalizePhone_def Let_def split: if_splits sum.splits)
  with c show ?thesis by (rule normalizePhone_body_canonical)
qed

text \<open>
  C6. Under the library contract \<open>canonical_numbers\<close>: when a phone in any form
  normalizes to the number \<open>n\<close>, then \<open>n\<close> itself (the form with the international
  prefix) normalizes to \<open>n\<close>, unchanged, and so does every spelling of \<open>n\<close> with white
  space added; and two texts that differ in white space only have the same result.
\<close>

theorem normalizePhone_round_trip:
  assumes "canonical_numbers lib"
  shows "(normalizePhone lib phone dc = Inr (Some n) \<longrightarrow>
            normalizePhone lib (Some n) dc = Inr (Some n)
            \<and> (\<forall>p. remove_spaces (trim p) = n \<longrightarrow> normalizePhone lib (Some p) dc = Inr (Some n)))
         \<and> (remove_spaces (trim p1) = remove_spaces (trim p2) \<longrightarrow>
              normalizePhone lib (Some p1) dc = normalizePhone lib (Some p2) dc)"
proof (intro conjI impI allI)
  assume r: "normalizePhone lib phone dc = Inr (Some n)"
  note k = normalizePhone_result_canonical [OF assms r]
  from k clean_without_spaces have "remove_spaces (trim n) = n" by blast
  with k show "normalizePhone lib (Some n) dc = Inr (Some n)"
    by (intro normalizePhone_of_canonical) auto
  fix p
  assume "remove_spaces (trim p) = n"
  with k show "normalizePhone lib (Some p) dc = Inr (Some n)"
    by (intro normalizePhone_of_canonical) auto
next
  assume e: "remove_spaces (trim p1) = remove_spaces (trim p2)"
  show "normalizePhone lib (Some p1) dc = normalizePhone lib (Some p2) dc"
  proof (cases "remove_spaces (trim p1) = []")
    case True
    with e show ?thesis by (simp add: normalizePhone_def Let_def)
  next
    case False
    with e have "p1 \<noteq> []" "p2 \<noteq> []" by (auto simp: trim_def remove_spaces_def)
    with e show ?thesis by (simp add: normalizePhone_def truthy_def Let_def)
  qed
qed

lemma demo_lib_canonical: "canonical_numbers demo_lib"
  unfolding canonical_numbers_def demo_lib_def
  by (auto simp: demo_valid_def demo_number_def js_space_def split: if_splits)

theorem normalizePhone_round_trip_witness:
  "canonical_numbers demo_lib
   \<and> normalizePhone demo_lib (Some ''07911 123456'') ''GB'' = Inr (Some ''+447911123456'')
   \<and> normalizePhone demo_lib (Some ''+447911123456'') ''GB'' = Inr (Some ''+447911123456'')
   \<and> remove_spaces (trim '' +44 7911 123456 '') = ''+447911123456''
   \<and> normalizePhone demo_lib (Some '' +44 7911 123456 '') ''GB'' = Inr (Some ''+447911123456'')
   \<and> remove_spaces (trim ''07911 123456'') = remove_spaces (trim ''0791 112 3456'')
   \<and> normalizePhone demo_lib (Some ''07911 123456'') ''GB''
       = normalizePhone demo_lib (Some ''0791 112 3456'') ''GB''"
proof -
  have l: "normalizePhone demo_lib (Some ''07911 123456'') ''GB'' = Inr (Some ''+447911123456'')"
    by (simp add: js_defs phone_defs demo_defs Let_def)
  have s: "remove_spaces (trim '' +44 7911 123456 '') = ''+447911123456''"
    by (simp add: js_defs)
  have e: "remove_spaces (trim ''07911 123456'') = remove_spaces (trim ''0791 112 3456'')"
    by (simp add: js_defs)
  note t = normalizePhone_round_trip
             [OF demo_lib_canonical, where phone = "Some ''07911 123456''" and dc = "''GB''"
                and n = "''+447911123456''" and ?p1.0 = "''07911 123456''"
                and ?p2.0 = "''0791 112 3456''"]
  from t l have i: "normalizePhone demo_lib (Some ''+447911123456'') ''GB'' = Inr (Some ''+447911123456'')"
    and a: "\<forall>p. remove_spaces (trim p) = ''+447911123456'' \<longrightarrow>
                normalizePhone demo_lib (Some p) ''GB'' = Inr (Some ''+447911123456'')"
    by blast+
  from a s have sp: "normalizePhone demo_lib (Some '' +44 7911 123456 '') ''GB''
                       = Inr (Some ''+447911123456'')"
    by blast
  from t e have w: "normalizePhone demo_lib (Some ''07911 123456'') ''GB''
                      = normalizePhone demo_lib (Some ''0791 112 3456'') ''GB''"
    by blast
  show ?thesis
    by (intro conjI demo_lib_canonical l i s sp e w)
qed

section \<open>The message renderer on well-formed templates\<close>

lemma getSubstitution_plain:
  "CHR ''$'' \<notin> set repl \<Longrightarrow> getSubstitution m pre post repl = repl"
  by (induction m pre post repl rule: getSubstitution.induct) auto

lemma replace_from_Nil [simp]: "replace_from pat repl pre [] = []"
  by (simp add: replace_from.simps)

lemma replace_from_skip:
  assumes "CHR ''{'' \<notin> set t"
  shows "replace_from (placeholder key) repl pre (t @ rest)
           = t @ replace_from (placeholder key) repl (pre @ t) rest"
  using assms
proof (induction t arbitrary: pre)
  case Nil
  show ?case by simp
next
  case (Cons c t)
  then have c: "c \<noteq> CHR ''{''" and t: "CHR ''{'' \<notin> set t" by auto
  from c have "take (length (placeholder key)) ((c # t) @ rest) \<noteq> placeholder key"
    by (auto simp: placeholder_def)
  then have "replace_from (placeholder key) repl pre ((c # t) @ rest)
               = c # replace_from (placeholder key) repl (pre @ [c]) (t @ rest)"
    by (subst replace_from.simps) simp
  with Cons.IH [OF t, of "pre @ [c]"] show ?case by simp
qed

lemma takeWhile_to_brace:
  "CHR ''}'' \<notin> set k \<Longrightarrow> takeWhile (\<lambda>c. c \<noteq> CHR ''}'') (k @ CHR ''}'' # r) = k"
  by (induction k) auto

lemma placeholder_prefix:
  assumes "CHR ''}'' \<notin> set key" and "CHR ''}'' \<notin> set name"
    and "take (length (placeholder key)) (placeholder name @ rest) = placeholder key"
  shows "name = key"
proof -
  from assms(3) have "placeholder name @ rest
                        = placeholder key @ drop (length (placeholder key)) (placeholder name @ rest)"
    by (metis append_take_drop_id)
  then obtain r where "name @ CHR ''}'' # rest = key @ CHR ''}'' # r"
    by (auto simp: placeholder_def)
  then have "takeWhile (\<lambda>c. c \<noteq> CHR ''}'') (name @ CHR ''}'' # rest)
               = takeWhile (\<lambda>c. c \<noteq> CHR ''}'') (key @ CHR ''}'' # r)"
    by simp
  with assms(1,2) show ?thesis by (simp add: takeWhile_to_brace)
qed

lemma replace_from_hit:
  assumes "CHR ''$'' \<notin> set repl"
  shows "replace_from (placeholder key) repl pre (placeholder key @ rest)
           = repl @ replace_from (placeholder key) repl (pre @ placeholder key) rest"
  by (subst replace_from.simps) (simp add: placeholder_def getSubstitution_plain [OF assms])

lemma replace_from_miss:
  assumes "CHR ''}'' \<notin> set key" and "CHR ''}'' \<notin> set name" and "CHR ''{'' \<notin> set name"
    and "name \<noteq> key"
  shows "replace_from (placeholder key) repl pre (placeholder name @ rest)
           = placeholder name @ replace_from (placeholder key) repl (pre @ placeholder name) rest"
proof -
  from placeholder_prefix [OF assms(1,2)] assms(4)
  have "take (length (placeholder key)) (placeholder name @ rest) \<noteq> placeholder key"
    by blast
  then have first: "replace_from (placeholder key) repl pre (placeholder name @ rest)
               = CHR ''{'' # replace_from (placeholder key) repl (pre @ ''{'')
                               ((name @ ''}'') @ rest)"
    by (subst replace_from.simps) (simp add: placeholder_def)
  from assms(3) have "CHR ''{'' \<notin> set (name @ ''}'')" by simp
  then have skip: "replace_from (placeholder key) repl (pre @ ''{'') ((name @ ''}'') @ rest)
                     = (name @ ''}'') @ replace_from (placeholder key) repl
                                           ((pre @ ''{'') @ (name @ ''}'')) rest"
    by (rule replace_from_skip)
  from first skip show ?thesis
    by (simp add: placeholder_def)
qed

lemma replace_from_segments:
  assumes "CHR ''}'' \<notin> set key" and "CHR ''$'' \<notin> set repl"
  shows "list_all wf_segment segs \<Longrightarrow>
           replace_from (placeholder key) repl pre (template_of segs)
             = template_of (map (fill key repl) segs)"
proof (induction segs arbitrary: pre)
  case Nil
  show ?case by (simp add: template_of_def)
next
  case (Cons seg segs)
  then have w: "wf_segment seg" and ws: "list_all wf_segment segs" by simp_all
  note ih = Cons.IH [OF ws]
  show ?case
  proof (cases seg)
    case (Lit t)
    with w have "CHR ''{'' \<notin> set t" by (simp add: wf_segment_def)
    from replace_from_skip [OF this] Lit ih show ?thesis
      by (simp add: template_of_def segment_text_def fill_def)
  next
    case (Var name)
    with w have n: "CHR ''{'' \<notin> set name" "CHR ''}'' \<notin> set name" by (simp_all add: wf_segment_def)
    show ?thesis
    proof (cases "name = key")
      case True
      with Var ih replace_from_hit [OF assms(2)] show ?thesis
        by (simp add: template_of_def segment_text_def fill_def)
    next
      case False
      with Var ih replace_from_miss [OF assms(1) n(2) n(1) False] show ?thesis
        by (simp add: template_of_def segment_text_def fill_def)
    qed
  qed
qed

lemma wf_fill:
  "CHR ''{'' \<notin> set v \<Longrightarrow> list_all wf_segment segs \<Longrightarrow> list_all wf_segment (map (fill key v) segs)"
  by (induction segs) (auto simp: fill_def wf_segment_def split: segment.splits)

lemma substituted_fill:
  "substituted vm (fill key v seg) = substituted ((key, v) # vm) seg"
  by (simp add: substituted_def fill_def split: segment.splits)

lemma substituted_Nil: "substituted [] seg = segment_text seg"
  by (simp add: substituted_def segment_text_def split: segment.splits)

lemma render_segments:
  "list_all wf_segment segs \<Longrightarrow> plain_values vm \<Longrightarrow> list_all (\<lambda>(k, v). CHR ''}'' \<notin> set k) vm \<Longrightarrow>
     foldl (\<lambda>rendered (key, val). replace_global (placeholder key) val rendered)
       (template_of segs) vm
     = concat (map (substituted vm) segs)"
proof (induction vm arbitrary: segs)
  case Nil
  show ?case
    by (simp add: template_of_def substituted_Nil)
next
  case (Cons kv vm)
  obtain key v where kv: "kv = (key, v)" by (cases kv)
  from Cons.prems kv have k: "CHR ''}'' \<notin> set key" and v: "CHR ''{'' \<notin> set v" "CHR ''$'' \<notin> set v"
    and pv: "plain_values vm" and ks: "list_all (\<lambda>(k, v). CHR ''}'' \<notin> set k) vm"
    by (simp_all add: plain_values_def)
  have "replace_global (placeholder key) v (template_of segs) = template_of (map (fill key v) segs)"
    unfolding replace_global_def by (rule replace_from_segments [OF k v(2) Cons.prems(1)])
  with Cons.IH [OF wf_fill [OF v(1) Cons.prems(1)] pv ks] kv show ?case
    by (simp add: substituted_fill comp_def)
qed

lemma variableMap_keys: "list_all (\<lambda>(k, v). CHR ''}'' \<notin> set k) (variableMap vars)"
  by (simp add: variableMap_def)

lemmas render_defs = renderTemplate_def variableMap_def placeholder_def replace_global_def
  replace_from.simps no_vars_def

text \<open>
  C9, as amended. For a template made of literal text without an opening brace and of
  placeholders \<open>{name}\<close> whose names hold no brace, and for variables whose values hold
  neither an opening brace nor a dollar sign, the renderer replaces every placeholder
  that names one of the seven variables by the value of that variable and leaves every
  other placeholder as it is. The value of a variable whose field is missing or empty is
  the empty string; for \<open>fullName\<close> it is the trimmed text of first and last name. The
  renderer is a total function: no input makes it raise an error.
\<close>

theorem renderTemplate_fills_known_placeholders:
  "(list_all wf_segment segs \<and> plain_values (variableMap vars) \<longrightarrow>
      renderTemplate (template_of segs) vars = concat (map (substituted (variableMap vars)) segs))
   \<and> map fst (variableMap vars)
       = [''firstName'', ''lastName'', ''fullName'', ''stashpointName'', ''reviewUrl'', ''city'',
          ''bookingId'']
   \<and> (\<not> truthy (tv_firstName vars) \<longrightarrow> map_of (variableMap vars) ''firstName'' = Some [])
   \<and> (\<not> truthy (tv_lastName vars) \<longrightarrow> map_of (variableMap vars) ''lastName'' = Some [])
   \<and> (\<not> truthy (tv_fullName vars) \<longrightarrow>
        map_of (variableMap vars) ''fullName''
          = Some (trim (or_else (tv_firstName vars) [] @ '' '' @ or_else (tv_lastName vars) [])))
   \<and> (\<not> truthy (tv_stashpointName vars) \<longrightarrow> map_of (variableMap vars) ''stashpointName'' = Some [])
   \<and> (\<not> truthy (tv_reviewUrl vars) \<longrightarrow> map_of (variableMap vars) ''reviewUrl'' = Some [])
   \<and> (\<not> truthy (tv_city vars) \<longrightarrow> map_of (variableMap vars) ''city'' = Some [])
   \<and> ((case tv_bookingId vars of None \<Rightarrow> True | Some v \<Rightarrow> \<not> js_truthy v) \<longrightarrow>
        map_of (variableMap vars) ''bookingId'' = Some [])"
proof (intro conjI impI)
  assume "list_all wf_segment segs \<and> plain_values (variableMap vars)"
  then show "renderTemplate (template_of segs) vars
               = concat (map (substituted (variableMap vars)) segs)"
    unfolding renderTemplate_def
    by (intro render_segments variableMap_keys) simp_all
qed (auto simp: variableMap_def or_else_def truthy_def split: option.splits)

theorem renderTemplate_fills_known_placeholders_witness:
  "list_all wf_segment demo_segments
   \<and> plain_values (variableMap demo_vars)
   \<and> template_of demo_segments = ''Hi {firstName}, see {reviewUrl} or {foo}''
   \<and> renderTemplate ''Hi {firstName}, see {reviewUrl} or {foo}'' demo_vars
       = ''Hi , see https://g.page/a or {foo}''
   \<and> \<not> truthy (tv_firstName demo_vars)
   \<and> map_of (variableMap demo_vars) ''firstName'' = Some []"
proof -
  have w: "list_all wf_segment demo_segments"
    by (simp add: demo_segments_def wf_segment_def)
  have p: "plain_values (variableMap demo_vars)"
    by (simp add: plain_values_def variableMap_def demo_vars_def no_vars_def js_defs)
  have t: "template_of demo_segments = ''Hi {firstName}, see {reviewUrl} or {foo}''"
    by (simp add: template_of_def demo_segments_def segment_text_def placeholder_def)
  have n: "\<not> truthy (tv_firstName demo_vars)"
    by (simp add: demo_vars_def no_vars_def truthy_def)
  note inst = renderTemplate_fills_known_placeholders [where segs = demo_segments and vars = demo_vars]
  from inst w p have "renderTemplate (template_of demo_segments) demo_vars
                       = concat (map (substituted (variableMap demo_vars)) demo_segments)"
    by blast
  also have "\<dots> = ''Hi , see https://g.page/a or {foo}''"
    by (simp add: demo_segments_def substituted_def variableMap_def demo_vars_def no_vars_def
          placeholder_def js_defs)
  finally have r: "renderTemplate ''Hi {firstName}, see {reviewUrl} or {foo}'' demo_vars
                     = ''Hi , see https://g.page/a or {foo}''"
    by (simp add: t)
  from inst n have m: "map_of (variableMap demo_vars) ''firstName'' = Some []" by blast
  show ?thesis by (intro conjI w p t r n m)
qed

text \<open>
  C9 as stated fails: a placeholder that names no variable stays in the output; a
  placeholder of a variable with a missing field, put together by an earlier
  replacement, stays in the output; and so does a placeholder that a value brings in,
  as the text \<open>$&\<close> (which \<open>replace\<close> reads as the matched text) or as a
  placeholder that was replaced before.
\<close>

theorem renderTemplate_leaves_placeholders:
  "renderTemplate ''{foo}'' no_vars = ''{foo}''
   \<and> renderTemplate ''{first{city}Name}'' no_vars = ''{firstName}''
   \<and> renderTemplate ''{city}'' (no_vars\<lparr>tv_city := Some ''$&''\<rparr>) = ''{city}''
   \<and> renderTemplate ''{lastName}'' (no_vars\<lparr>tv_lastName := Some ''{firstName}''\<rparr>)
       = ''{firstName}''"
  by (simp add: render_defs js_defs)


end
